theory Spec2Isabelle
  imports
    Main
    "HOL-Library.AList"
    "HOL-Library.Char_ord"
    "HOL-Library.List_Lexorder"
    "HOL-Library.Product_Lexorder"
    "HOL-Library.Sublist"
begin

section \<open>Tables\<close>

text \<open>
  The wide-dataset utilities of pyCLIF (\<^verbatim>\<open>pyclif/utils/wide_dataset.py\<close>) work on pandas
  data frames. A frame is a list of column names and a list of rows; a row gives the cell
  under every column name. A cell is null (\<open>NaN\<close>, which also stands for \<open>None\<close>, \<open>NaT\<close>
  and SQL \<open>NULL\<close>), an integer, a text, a timestamp (whole seconds since the epoch; the
  source's \<open>floor\<close> and \<open>strftime\<close> are integer divisions of that count), or a value of
  any other kind \<open>'v\<close> (floating-point measurements).

  The CLIF schema types \<open>hospitalization_id\<close> as VARCHAR and every \<open>*_dttm\<close> column as
  DATETIME. A cell of another kind in such a column is read like a null.

  A text (a Python \<open>str\<close>: a column name, an id, a category) is modelled by its UTF-8
  encoding, one \<open>char\<close> per byte: a character outside ASCII is a lead byte (\<open>0xC0\<close> and
  above) followed by continuation bytes (\<open>0x80\<close> to \<open>0xBF\<close>). Equality, concatenation,
  prefixes and the order of texts are those of the encodings.
\<close>

datatype 'v cell = NaN | IntC int | StrC string | TimeC int | Val 'v

type_synonym 'v row = "string \<Rightarrow> 'v cell"

record 'v frame =
  columns :: "string list"
  rows :: "'v row list"

datatype error = ValueError | KeyError | IntCastingNaNError | BinderError

text \<open>
  The pandas and Python operations whose results depend on floating-point arithmetic or on
  Python's printing are parameters of the model: the reductions \<open>Series.max\<close>, \<open>min\<close>,
  \<open>mean\<close>, \<open>median\<close> (called on the non-null cells of a group, never on an empty list),
  \<open>str\<close>, and the conversion of one cell by \<open>astype(int)\<close> (\<open>None\<close> when it raises).
\<close>

record 'v pandas =
  series_max :: "'v cell list \<Rightarrow> 'v cell"
  series_min :: "'v cell list \<Rightarrow> 'v cell"
  series_mean :: "'v cell list \<Rightarrow> 'v cell"
  series_median :: "'v cell list \<Rightarrow> 'v cell"
  py_str :: "'v cell \<Rightarrow> string"
  astype_int :: "'v cell \<Rightarrow> int option"

definition id_of :: "'v cell \<Rightarrow> string option" where
  "id_of c = (case c of StrC h \<Rightarrow> Some h | _ \<Rightarrow> None)"

definition ts_of :: "'v cell \<Rightarrow> int option" where
  "ts_of c = (case c of TimeC t \<Rightarrow> Some t | _ \<Rightarrow> None)"

definition int_of :: "'v cell \<Rightarrow> int option" where
  "int_of c = (case c of IntC n \<Rightarrow> Some n | _ \<Rightarrow> None)"

definition dropna :: "'v cell list \<Rightarrow> 'v cell list" where
  "dropna cs = filter (\<lambda>c. c \<noteq> NaN) cs"

text \<open>\<open>Series.unique()\<close>: the distinct values in order of first appearance.\<close>

definition unique :: "'a list \<Rightarrow> 'a list" where
  "unique xs = rev (remdups (rev xs))"

text \<open>Assigning \<open>df[c] = ...\<close> keeps the position of an existing column and appends a new one.\<close>

definition add_col :: "string \<Rightarrow> string list \<Rightarrow> string list" where
  "add_col c cols = (if c \<in> set cols then cols else cols @ [c])"

text \<open>A Python dictionary keeps its keys in insertion order; assigning to an existing key
  keeps the key's position. That is \<open>AList.update\<close>. A row built from a dictionary has
  \<open>NaN\<close> under every other column.\<close>

type_synonym 'v dict = "(string \<times> 'v cell) list"

definition row_of_dict :: "'v dict \<Rightarrow> 'v row" where
  "row_of_dict d = (\<lambda>c. case map_of d c of Some v \<Rightarrow> v | None \<Rightarrow> NaN)"

text \<open>\<open>pd.DataFrame(list_of_dicts)\<close>: the columns are the keys in order of first appearance;
  an empty list gives a frame without columns.\<close>

definition data_frame :: "'v dict list \<Rightarrow> 'v frame" where
  "data_frame ds = \<lparr>columns = unique (concat (map (map fst) ds)), rows = map row_of_dict ds\<rparr>"


section \<open>The hourly aggregator \<open>convert_wide_to_hourly\<close>\<close>

type_synonym agg_config = "(string \<times> string list) list"

text \<open>\<open>dt.floor('H')\<close> and \<open>dt.hour\<close>.\<close>

definition floor_hour :: "int \<Rightarrow> int" where
  "floor_hour t = t - t mod 3600"

definition hour_of_day :: "int \<Rightarrow> int" where
  "hour_of_day t = (t mod 86400) div 3600"

text \<open>\<open>df.groupby('hospitalization_id')['event_time_hour'].min()\<close>: the hour keys of the
  rows of one hospitalization, nulls skipped, and their minimum.\<close>

definition hours_of :: "'v row list \<Rightarrow> string \<Rightarrow> int list" where
  "hours_of rs h =
     List.map_filter
       (\<lambda>r. if id_of (r ''hospitalization_id'') = Some h
            then map_option floor_hour (ts_of (r ''event_time'')) else None) rs"

definition first_event_hour :: "'v row list \<Rightarrow> string \<Rightarrow> int option" where
  "first_event_hour rs h = (case hours_of rs h of [] \<Rightarrow> None | x # xs \<Rightarrow> Some (fold min xs x))"

text \<open>
  One row of \<open>df\<close> after the columns \<open>event_time_hour\<close>, \<open>first_event_hour\<close>, \<open>nth_hour\<close>
  and \<open>hour_bucket\<close> have been added, with its group key
  \<open>(hospitalization_id, event_time_hour, nth_hour)\<close>. A null id or a null event time
  leaves \<open>nth_hour\<close> null, and \<open>astype(int)\<close> raises on the column: the result is \<open>None\<close>.
\<close>

type_synonym group_key = "string \<times> int \<times> int"

definition hour_row :: "'v row list \<Rightarrow> 'v row \<Rightarrow> (group_key \<times> 'v row) option" where
  "hour_row rs r =
     (case (id_of (r ''hospitalization_id''), ts_of (r ''event_time'')) of
        (Some h, Some t) \<Rightarrow>
          (case first_event_hour rs h of
             None \<Rightarrow> None
           | Some f \<Rightarrow>
               let eth = floor_hour t; n = (eth - f) div 3600 in
               Some ((h, eth, n),
                     r(''event_time_hour'' := TimeC eth,
                       ''first_event_hour'' := TimeC f,
                       ''nth_hour'' := IntC n,
                       ''hour_bucket'' := IntC (hour_of_day eth))))
      | _ \<Rightarrow> None)"

definition hour_rows :: "'v row list \<Rightarrow> (group_key \<times> 'v row) list option" where
  "hour_rows rs = those (map (hour_row rs) rs)"

definition df_columns :: "string list \<Rightarrow> string list" where
  "df_columns cols =
     add_col ''hour_bucket'' (add_col ''nth_hour''
       (add_col ''first_event_hour'' (add_col ''event_time_hour'' cols)))"

definition group_cols :: "string list" where
  "group_cols = [''hospitalization_id'', ''event_time_hour'', ''nth_hour'']"

definition all_agg_columns :: "agg_config \<Rightarrow> string list" where
  "all_agg_columns cfg = concat (map snd cfg)"

definition non_agg_columns :: "string list \<Rightarrow> agg_config \<Rightarrow> string list" where
  "non_agg_columns dfcols cfg =
     [col \<leftarrow> dfcols.
        col \<notin> set (all_agg_columns cfg) \<and> col \<notin> set group_cols \<and>
        col \<noteq> ''patient_id'' \<and> col \<noteq> ''day_number'' \<and> col \<noteq> ''first_event_hour'' \<and>
        col \<noteq> ''hour_bucket'' \<and> col \<noteq> ''event_time'']"

text \<open>The caller's dictionary after \<open>aggregation_config['first'].extend(non_agg_columns)\<close>.\<close>

definition extend_first :: "string list \<Rightarrow> agg_config \<Rightarrow> agg_config" where
  "extend_first non_agg cfg =
     (if non_agg \<noteq> []
      then AList.update ''first''
             ((case map_of cfg ''first'' of None \<Rightarrow> [] | Some l \<Rightarrow> l) @ non_agg) cfg
      else cfg)"

text \<open>\<open>re.sub(r'[^a-zA-Z0-9_]', '_', s)\<close>: every character outside the class becomes one
  underscore. In the encoding, a character outside ASCII is replaced at its lead byte and
  its continuation bytes go.\<close>

definition keep_char :: "char \<Rightarrow> bool" where
  "keep_char ch =
     ((CHR ''a'' \<le> ch \<and> ch \<le> CHR ''z'') \<or> (CHR ''A'' \<le> ch \<and> ch \<le> CHR ''Z'') \<or>
      (CHR ''0'' \<le> ch \<and> ch \<le> CHR ''9'') \<or> ch = CHR ''_'')"

definition continuation_byte :: "char \<Rightarrow> bool" where
  "continuation_byte ch = (CHR 0x80 \<le> ch \<and> ch \<le> CHR 0xBF)"

definition sanitize :: "string \<Rightarrow> string" where
  "sanitize s =
     concat (map (\<lambda>ch. if keep_char ch then [ch]
                       else if continuation_byte ch then [] else ''_'') s)"

definition one_hot_name :: "'v pandas \<Rightarrow> string \<Rightarrow> 'v cell \<Rightarrow> string" where
  "one_hot_name P col val = sanitize (col @ ''_'' @ py_str P val)"

text \<open>The body of the loop over \<open>(agg_method, col)\<close> for one group: \<open>vals\<close> are the
  non-null cells of the column in the group, \<open>rd\<close> is \<open>row_data\<close>.\<close>

definition agg_entry ::
  "'v pandas \<Rightarrow> string list \<Rightarrow> string \<Rightarrow> string \<Rightarrow> 'v cell list \<Rightarrow> 'v dict \<Rightarrow> 'v dict" where
  "agg_entry P non_agg agg_method col vals rd =
     (if agg_method = ''max'' then
        AList.update (col @ ''_max'') (if vals \<noteq> [] then series_max P vals else NaN) rd
      else if agg_method = ''min'' then
        AList.update (col @ ''_min'') (if vals \<noteq> [] then series_min P vals else NaN) rd
      else if agg_method = ''mean'' then
        AList.update (col @ ''_mean'') (if vals \<noteq> [] then series_mean P vals else NaN) rd
      else if agg_method = ''median'' then
        AList.update (col @ ''_median'') (if vals \<noteq> [] then series_median P vals else NaN) rd
      else if agg_method = ''first'' then
        (if col \<in> set non_agg
         then AList.update (col @ ''_c'') (case vals of [] \<Rightarrow> NaN | v # _ \<Rightarrow> v) rd
         else AList.update (col @ ''_first'') (case vals of [] \<Rightarrow> NaN | v # _ \<Rightarrow> v) rd)
      else if agg_method = ''last'' then
        AList.update (col @ ''_last'') (if vals \<noteq> [] then last vals else NaN) rd
      else if agg_method = ''boolean'' then
        AList.update (col @ ''_boolean'') (IntC (if vals \<noteq> [] then 1 else 0)) rd
      else if agg_method = ''one_hot_encode'' then
        fold (\<lambda>val. AList.update (one_hot_name P col val) (IntC 1)) (unique vals) rd
      else rd)"

definition agg_column ::
  "'v pandas \<Rightarrow> string list \<Rightarrow> string list \<Rightarrow> 'v row list \<Rightarrow> string \<Rightarrow> string \<Rightarrow>
   'v dict \<Rightarrow> 'v dict" where
  "agg_column P dfcols non_agg group_df agg_method col rd =
     (if col \<notin> set dfcols then rd
      else agg_entry P non_agg agg_method col (dropna (map (\<lambda>r. r col) group_df)) rd)"

definition base_info :: "string list \<Rightarrow> group_key \<Rightarrow> 'v row list \<Rightarrow> 'v dict" where
  "base_info dfcols k group_df =
     (case k of (hosp_id, event_time_hour, nth_hour) \<Rightarrow>
        let rd0 = [(''hospitalization_id'', StrC hosp_id),
                   (''event_time_hour'', TimeC event_time_hour),
                   (''nth_hour'', IntC nth_hour),
                   (''hour_bucket'', IntC (hour_of_day event_time_hour))];
            rd1 = (case group_df of
                     r # _ \<Rightarrow> if ''patient_id'' \<in> set dfcols
                              then AList.update ''patient_id'' (r ''patient_id'') rd0 else rd0
                   | [] \<Rightarrow> rd0)
        in (case group_df of
              r # _ \<Rightarrow> if ''day_number'' \<in> set dfcols
                       then AList.update ''day_number'' (r ''day_number'') rd1 else rd1
            | [] \<Rightarrow> rd1))"

definition row_data ::
  "'v pandas \<Rightarrow> string list \<Rightarrow> string list \<Rightarrow> agg_config \<Rightarrow> group_key \<Rightarrow> 'v row list \<Rightarrow>
   'v dict" where
  "row_data P dfcols non_agg cfg k group_df =
     fold (\<lambda>(agg_method, cols) rd.
             fold (agg_column P dfcols non_agg group_df agg_method) cols rd)
          cfg (base_info dfcols k group_df)"

text \<open>\<open>df.groupby(group_cols)\<close> visits the groups in ascending key order; each group holds
  its rows in frame order.\<close>

definition group_keys :: "(group_key \<times> 'v row) list \<Rightarrow> group_key list" where
  "group_keys krs = sort (remdups (map fst krs))"

definition group_of :: "(group_key \<times> 'v row) list \<Rightarrow> group_key \<Rightarrow> 'v row list" where
  "group_of krs k = map snd (filter (\<lambda>kr. fst kr = k) krs)"

definition aggregated_data ::
  "'v pandas \<Rightarrow> string list \<Rightarrow> string list \<Rightarrow> agg_config \<Rightarrow> (group_key \<times> 'v row) list \<Rightarrow>
   'v dict list" where
  "aggregated_data P dfcols non_agg cfg krs =
     map (\<lambda>k. row_data P dfcols non_agg cfg k (group_of krs k)) (group_keys krs)"

text \<open>
  \<open>sort_values(['hospitalization_id', 'nth_hour'])\<close>: a \<open>KeyError\<close> when the frame lacks
  one of the two columns, otherwise a stable sort with nulls last.
\<close>

definition sort_cell_key :: "'v row \<Rightarrow> (bool \<times> string) \<times> (bool \<times> int)" where
  "sort_cell_key r =
     ((case id_of (r ''hospitalization_id'') of Some h \<Rightarrow> (False, h) | None \<Rightarrow> (True, [])),
      (case int_of (r ''nth_hour'') of Some n \<Rightarrow> (False, n) | None \<Rightarrow> (True, 0)))"

definition sort_values :: "'v frame \<Rightarrow> error + 'v frame" where
  "sort_values df =
     (if ''hospitalization_id'' \<in> set (columns df) \<and> ''nth_hour'' \<in> set (columns df)
      then Inr (df\<lparr>rows := sort_key sort_cell_key (rows df)\<rparr>)
      else Inl KeyError)"

text \<open>\<open>hourly_df[ohc] = hourly_df[ohc].fillna(0).astype(int)\<close> for one column.\<close>

definition fill_cell :: "'v pandas \<Rightarrow> 'v cell \<Rightarrow> int option" where
  "fill_cell P c = (case c of NaN \<Rightarrow> Some 0 | IntC n \<Rightarrow> Some n | _ \<Rightarrow> astype_int P c)"

definition fillna_astype_int :: "'v pandas \<Rightarrow> string \<Rightarrow> 'v frame \<Rightarrow> error + 'v frame" where
  "fillna_astype_int P ohc df =
     (if \<exists>r \<in> set (rows df). fill_cell P (r ohc) = None then Inl ValueError
      else Inr (df\<lparr>rows := map (\<lambda>r. r(ohc := IntC (the (fill_cell P (r ohc))))) (rows df)\<rparr>))"

fun fill_columns :: "'v pandas \<Rightarrow> string list \<Rightarrow> 'v frame \<Rightarrow> error + 'v frame" where
  "fill_columns P [] df = Inr df"
| "fill_columns P (ohc # ohcs) df =
     (case fillna_astype_int P ohc df of Inl e \<Rightarrow> Inl e | Inr df' \<Rightarrow> fill_columns P ohcs df')"

definition one_hot_cols :: "string \<Rightarrow> 'v frame \<Rightarrow> string list" where
  "one_hot_cols col df = [c \<leftarrow> columns df. prefix (col @ ''_'') c]"

fun fill_one_hot_cols :: "'v pandas \<Rightarrow> string list \<Rightarrow> 'v frame \<Rightarrow> error + 'v frame" where
  "fill_one_hot_cols P [] df = Inr df"
| "fill_one_hot_cols P (col # cols) df =
     (case fill_columns P (one_hot_cols col df) df of
        Inl e \<Rightarrow> Inl e | Inr df' \<Rightarrow> fill_one_hot_cols P cols df')"

fun fill_one_hot :: "'v pandas \<Rightarrow> agg_config \<Rightarrow> 'v frame \<Rightarrow> error + 'v frame" where
  "fill_one_hot P [] df = Inr df"
| "fill_one_hot P ((agg_method, cols) # cfg) df =
     (if agg_method = ''one_hot_encode''
      then (case fill_one_hot_cols P cols df of
              Inl e \<Rightarrow> Inl e | Inr df' \<Rightarrow> fill_one_hot P cfg df')
      else fill_one_hot P cfg df)"

text \<open>
  The function returns the caller's \<open>aggregation_config\<close> as the call leaves it, and the
  hourly frame or the exception raised. A wide frame that already has a column
  \<open>first_event_hour\<close> makes the merge rename both columns, and the next line raises
  \<open>KeyError\<close>.
\<close>

definition convert_wide_to_hourly ::
  "'v pandas \<Rightarrow> 'v frame \<Rightarrow> agg_config \<Rightarrow> agg_config \<times> (error + 'v frame)" where
  "convert_wide_to_hourly P wide_df aggregation_config =
     (if ''event_time'' \<notin> set (columns wide_df) then (aggregation_config, Inl ValueError)
      else if ''hospitalization_id'' \<notin> set (columns wide_df)
        then (aggregation_config, Inl ValueError)
      else if ''day_number'' \<notin> set (columns wide_df) then (aggregation_config, Inl ValueError)
      else if ''first_event_hour'' \<in> set (columns wide_df) then (aggregation_config, Inl KeyError)
      else
        (case hour_rows (rows wide_df) of
           None \<Rightarrow> (aggregation_config, Inl IntCastingNaNError)
         | Some krs \<Rightarrow>
             let dfcols = df_columns (columns wide_df);
                 non_agg = non_agg_columns dfcols aggregation_config;
                 cfg = extend_first non_agg aggregation_config;
                 hourly_df = data_frame (aggregated_data P dfcols non_agg cfg krs)
             in (cfg,
                 case sort_values hourly_df of
                   Inl e \<Rightarrow> Inl e
                 | Inr sorted_df \<Rightarrow> fill_one_hot P cfg sorted_df)))"


section \<open>Notions for the statements about the aggregator\<close>

text \<open>The assignments \<open>row_data[key] = value\<close> that one pass of the loop body makes, in
  order: \<open>agg_entry\<close> is these assignments applied to \<open>row_data\<close> (lemma
  \<open>agg_entry_assign\<close>), and a whole row is the assignments of all entries applied to
  the base information (lemma \<open>row_data_assign\<close>).\<close>

definition entry_writes ::
  "'v pandas \<Rightarrow> string list \<Rightarrow> string \<Rightarrow> string \<Rightarrow> 'v cell list \<Rightarrow> 'v dict" where
  "entry_writes P non_agg agg_method col vals =
     (if agg_method = ''max'' then [(col @ ''_max'', if vals \<noteq> [] then series_max P vals else NaN)]
      else if agg_method = ''min'' then [(col @ ''_min'', if vals \<noteq> [] then series_min P vals else NaN)]
      else if agg_method = ''mean'' then [(col @ ''_mean'', if vals \<noteq> [] then series_mean P vals else NaN)]
      else if agg_method = ''median'' then
        [(col @ ''_median'', if vals \<noteq> [] then series_median P vals else NaN)]
      else if agg_method = ''first'' then
        [(if col \<in> set non_agg then col @ ''_c'' else col @ ''_first'',
          case vals of [] \<Rightarrow> NaN | v # _ \<Rightarrow> v)]
      else if agg_method = ''last'' then [(col @ ''_last'', if vals \<noteq> [] then last vals else NaN)]
      else if agg_method = ''boolean'' then
        [(col @ ''_boolean'', IntC (if vals \<noteq> [] then 1 else 0))]
      else if agg_method = ''one_hot_encode'' then
        map (\<lambda>val. (one_hot_name P col val, IntC 1)) (unique vals)
      else [])"

definition column_writes ::
  "'v pandas \<Rightarrow> string list \<Rightarrow> string list \<Rightarrow> 'v row list \<Rightarrow> string \<Rightarrow> string \<Rightarrow> 'v dict" where
  "column_writes P dfcols non_agg group_df agg_method col =
     (if col \<in> set dfcols
      then entry_writes P non_agg agg_method col (dropna (map (\<lambda>r. r col) group_df))
      else [])"

definition all_writes ::
  "'v pandas \<Rightarrow> string list \<Rightarrow> string list \<Rightarrow> agg_config \<Rightarrow> 'v row list \<Rightarrow> 'v dict" where
  "all_writes P dfcols non_agg cfg group_df =
     concat (map (\<lambda>(agg_method, cols).
                    concat (map (column_writes P dfcols non_agg group_df agg_method) cols)) cfg)"

definition assign :: "'v dict \<Rightarrow> 'v dict \<Rightarrow> 'v dict" where
  "assign ws rd = fold (\<lambda>(k, v). AList.update k v) ws rd"

text \<open>The columns listed under \<open>one_hot_encode\<close>.\<close>

definition one_hot_columns :: "agg_config \<Rightarrow> string list" where
  "one_hot_columns cfg = concat (map snd (filter (\<lambda>e. fst e = ''one_hot_encode'') cfg))"

text \<open>A row after \<open>fillna(0).astype(int)\<close> on the columns \<open>S\<close>, and the columns the
  last loop of the function fills: those whose name starts with \<open>col_\<close> for a one-hot
  column \<open>col\<close>.\<close>

definition fill_row :: "'v pandas \<Rightarrow> string set \<Rightarrow> 'v row \<Rightarrow> 'v row" where
  "fill_row P S r = (\<lambda>k. if k \<in> S then IntC (the (fill_cell P (r k))) else r k)"

definition filled_names :: "agg_config \<Rightarrow> string list \<Rightarrow> string set" where
  "filled_names cfg cols = {k \<in> set cols. \<exists>c \<in> set (one_hot_columns cfg). prefix (c @ ''_'') k}"

text \<open>The rows of \<open>df\<close> as the aggregation loop sees them, with the four hour columns
  added.\<close>

definition df_rows :: "'v row list \<Rightarrow> 'v row list" where
  "df_rows rs = (case hour_rows rs of Some krs \<Rightarrow> map snd krs | None \<Rightarrow> [])"

text \<open>Output names and one-hot entries. A \<open>one_hot_encode\<close> entry writes the name
  \<open>one_hot_name col val\<close> for each value it meets, whatever else has that name, and the
  last loop converts every column whose name starts with \<open>col_\<close>. The key columns are
  kept when no one-hot entry writes or converts \<open>hospitalization_id\<close>,
  \<open>event_time_hour\<close> or \<open>nth_hour\<close>.\<close>

definition written_by_one_hot :: "'v pandas \<Rightarrow> 'v frame \<Rightarrow> agg_config \<Rightarrow> string \<Rightarrow> bool" where
  "written_by_one_hot P wide_df cfg name =
     (\<exists>c \<in> set (one_hot_columns cfg). c \<in> set (df_columns (columns wide_df)) \<and>
        (\<exists>r \<in> set (df_rows (rows wide_df)). r c \<noteq> NaN \<and> one_hot_name P c (r c) = name))"

definition filled_by_one_hot :: "agg_config \<Rightarrow> string \<Rightarrow> bool" where
  "filled_by_one_hot cfg name = (\<exists>c \<in> set (one_hot_columns cfg). prefix (c @ ''_'') name)"

definition key_columns_kept :: "'v pandas \<Rightarrow> 'v frame \<Rightarrow> agg_config \<Rightarrow> bool" where
  "key_columns_kept P wide_df cfg =
     (\<forall>k \<in> {''hospitalization_id'', ''event_time_hour'', ''nth_hour''}.
        \<not> written_by_one_hot P wide_df cfg k \<and> \<not> filled_by_one_hot cfg k)"

text \<open>The suffixes of the reductions other than one-hot.\<close>

definition suffixes :: "string list" where
  "suffixes = [''_max'', ''_min'', ''_mean'', ''_median'', ''_c'', ''_first'', ''_last'', ''_boolean'']"

text \<open>The names a one-hot column must have to itself for its columns to hold what it wrote:
  \<open>name\<close> is written by another entry when it is one of the base columns of \<open>row_data\<close>
  or some entry other than \<open>('one_hot_encode', c)\<close> assigns it on some row of the
  frame.\<close>

definition base_names :: "string list" where
  "base_names = [''hospitalization_id'', ''event_time_hour'', ''nth_hour'', ''hour_bucket'',
                 ''patient_id'', ''day_number'']"

definition written_by_other :: "'v pandas \<Rightarrow> 'v frame \<Rightarrow> agg_config \<Rightarrow> string \<Rightarrow> string \<Rightarrow> bool" where
  "written_by_other P wide_df cfg c name =
     (let dfcols = df_columns (columns wide_df);
          non_agg = non_agg_columns dfcols cfg
      in name \<in> set base_names \<or>
         (\<exists>e \<in> set (extend_first non_agg cfg). \<exists>col \<in> set (snd e).
            (fst e, col) \<noteq> (''one_hot_encode'', c) \<and> col \<in> set dfcols \<and>
            name \<in> fst ` set (entry_writes P non_agg (fst e) col
                                (dropna (map (\<lambda>r. r col) (df_rows (rows wide_df)))))))"

text \<open>The row built for one group, before sorting and filling.\<close>

definition hourly_row ::
  "'v pandas \<Rightarrow> 'v frame \<Rightarrow> agg_config \<Rightarrow> (group_key \<times> 'v row) list \<Rightarrow> group_key \<Rightarrow> 'v row" where
  "hourly_row P wide_df cfg krs k =
     (let dfcols = df_columns (columns wide_df);
          non_agg = non_agg_columns dfcols cfg
      in row_of_dict (row_data P dfcols non_agg (extend_first non_agg cfg) k (group_of krs k)))"

text \<open>The event times of the wide rows of one hospitalization.\<close>

definition event_times_of :: "'v row list \<Rightarrow> string \<Rightarrow> int list" where
  "event_times_of rs h =
     List.map_filter
       (\<lambda>r. if r ''hospitalization_id'' = StrC h then ts_of (r ''event_time'') else None) rs"

section \<open>The wide-dataset builder \<open>create_wide_dataset\<close>\<close>

text \<open>
  The CLIF object holds the three base tables and the optional tables that were loaded
  (\<open>getattr(clif_instance, name, None)\<close>). The builder runs its joins and pivots in
  DuckDB; three points of the engine's behaviour that the source leaves to it are
  parameters: the name given to a result column whose name is already taken, whether
  a \<open>PIVOT\<close> over no category at all is an error, and what becomes of a pivot query into
  whose text a category with an apostrophe was pasted (\<open>None\<close> when the engine raises,
  else the table \<open>{table_name}_pivoted\<close> it creates, given the table name, the timestamp
  column, the categories and the registered table). The model is of one call on a fresh
  connection, with \<open>sample\<close>, \<open>base_table_columns\<close> and \<open>save_to_data_location\<close> at their
  defaults (a sample is the same filter as \<open>hospitalization_ids\<close>, on ids drawn at random).
\<close>

record 'v clif =
  patient :: "'v frame"
  hospitalization :: "'v frame"
  adt :: "'v frame"
  tables :: "string \<Rightarrow> 'v frame option"

record 'v engine =
  unique_name :: "string list \<Rightarrow> string \<Rightarrow> string"
  pivot_empty_fails :: bool
  pasted_pivot :: "string \<Rightarrow> string \<Rightarrow> string list \<Rightarrow> 'v frame \<Rightarrow> 'v frame option"

subsection \<open>Timestamps and the composite key\<close>

text \<open>\<open>strftime(t, '%Y%m%d%H%M')\<close> on the proleptic Gregorian calendar.\<close>

definition digit :: "int \<Rightarrow> char" where
  "digit d = char_of (48 + d)"

definition two_digits :: "int \<Rightarrow> string" where
  "two_digits n = [digit (n div 10 mod 10), digit (n mod 10)]"

definition four_digits :: "int \<Rightarrow> string" where
  "four_digits n = two_digits (n div 100) @ two_digits n"

definition civil_from_days :: "int \<Rightarrow> int \<times> int \<times> int" where
  "civil_from_days z0 =
     (let z = z0 + 719468;
          era = z div 146097;
          doe = z mod 146097;
          yoe = (doe - doe div 1460 + doe div 36524 - doe div 146096) div 365;
          doy = doe - (365 * yoe + yoe div 4 - yoe div 100);
          mp = (5 * doy + 2) div 153;
          d = doy - (153 * mp + 2) div 5 + 1;
          m = (if mp < 10 then mp + 3 else mp - 9);
          y = yoe + era * 400 + (if m \<le> 2 then 1 else 0)
      in (y, m, d))"

definition strftime_minute :: "int \<Rightarrow> string" where
  "strftime_minute t =
     (case civil_from_days (t div 86400) of
        (y, m, d) \<Rightarrow>
          four_digits y @ two_digits m @ two_digits d @
          two_digits (t mod 86400 div 3600) @ two_digits (t mod 3600 div 60))"

text \<open>\<open>hospitalization_id || '_' || strftime(ts, '%Y%m%d%H%M')\<close>; null when either part is.\<close>

definition combo_id :: "'v cell \<Rightarrow> 'v cell \<Rightarrow> 'v cell" where
  "combo_id h ts =
     (case (id_of h, ts_of ts) of
        (Some i, Some t) \<Rightarrow> StrC (i @ ''_'' @ strftime_minute t)
      | _ \<Rightarrow> NaN)"

definition get_timestamp_column :: "string \<Rightarrow> string option" where
  "get_timestamp_column table_name =
     map_of [(''vitals'', ''recorded_dttm''),
             (''labs'', ''lab_result_dttm''),
             (''medication_admin_continuous'', ''admin_dttm''),
             (''patient_assessments'', ''recorded_dttm''),
             (''respiratory_support'', ''recorded_dttm'')] table_name"

text \<open>The timestamp column after the fallbacks of lines 118 to 131 (and again 201 to
  216): the result may still be a column the table does not have.\<close>

definition resolve_timestamp :: "string \<Rightarrow> string list \<Rightarrow> string option" where
  "resolve_timestamp table_name cols =
     (case get_timestamp_column table_name of
        None \<Rightarrow> None
      | Some timestamp_col \<Rightarrow>
          if timestamp_col \<notin> set cols then
            (if table_name = ''labs'' then
               (case find (\<lambda>alt_col. alt_col \<in> set cols)
                       [''lab_collect_dttm'', ''recorded_dttm'', ''lab_order_dttm''] of
                  Some alt_col \<Rightarrow> Some alt_col
                | None \<Rightarrow> Some timestamp_col)
             else if table_name = ''vitals'' then
               (if ''recorded_dttm_min'' \<in> set cols then Some ''recorded_dttm_min''
                else Some timestamp_col)
             else Some timestamp_col)
          else Some timestamp_col)"

subsection \<open>Relational operations\<close>

text \<open>\<open>df[df['hospitalization_id'].isin(ids)]\<close>.\<close>

definition isin_filter :: "'v cell list \<Rightarrow> 'v frame \<Rightarrow> error + 'v frame" where
  "isin_filter ids df =
     (if ''hospitalization_id'' \<in> set (columns df)
      then Inr (df\<lparr>rows := filter (\<lambda>r. r ''hospitalization_id'' \<in> set ids) (rows df)\<rparr>)
      else Inl KeyError)"

text \<open>\<open>pd.merge(left, right, on=key, how='inner')\<close>: the rows of the left frame in order,
  each with its matches in the right frame; columns the two frames share besides the key
  get the suffixes \<open>_x\<close> and \<open>_y\<close>.\<close>

definition merge_inner :: "string \<Rightarrow> 'v frame \<Rightarrow> 'v frame \<Rightarrow> error + 'v frame" where
  "merge_inner key left right =
     (if key \<in> set (columns left) \<and> key \<in> set (columns right) then
        let rcols = [c \<leftarrow> columns right. c \<noteq> key];
            lname = (\<lambda>c. if c \<noteq> key \<and> c \<in> set (columns right) then c @ ''_x'' else c);
            rname = (\<lambda>c. if c \<in> set (columns left) then c @ ''_y'' else c)
        in Inr \<lparr>columns = map lname (columns left) @ map rname rcols,
                rows = concat (map (\<lambda>l. map (\<lambda>r. row_of_dict
                                  (map (\<lambda>c. (lname c, l c)) (columns left) @
                                   map (\<lambda>c. (rname c, r c)) rcols))
                                [r \<leftarrow> rows right. r key = l key]) (rows left))\<rparr>
      else Inl KeyError)"

text \<open>\<open>SELECT DISTINCT\<close> and \<open>drop_duplicates()\<close>: rows are compared on the columns of the
  frame; the first of equal rows stays.\<close>

fun distinct_on :: "string list \<Rightarrow> 'v cell list list \<Rightarrow> 'v row list \<Rightarrow> 'v row list" where
  "distinct_on cols seen [] = []"
| "distinct_on cols seen (r # rs) =
     (if map r cols \<in> set seen then distinct_on cols seen rs
      else r # distinct_on cols (map r cols # seen) rs)"

definition drop_duplicates :: "'v frame \<Rightarrow> 'v frame" where
  "drop_duplicates df = df\<lparr>rows := distinct_on (columns df) [] (rows df)\<rparr>"

text \<open>\<open>SELECT DISTINCT hospitalization_id, ts AS event_time FROM t WHERE ts IS NOT NULL\<close>.\<close>

type_synonym 'v event = "'v cell \<times> 'v cell"

definition event_query :: "string \<Rightarrow> 'v frame \<Rightarrow> 'v event list" where
  "event_query timestamp_col df =
     unique [(r ''hospitalization_id'', r timestamp_col). r \<leftarrow> rows df, r timestamp_col \<noteq> NaN]"

text \<open>A table with its \<open>combo_id\<close>: the CTEs \<open>adt_with_combo\<close> and \<open>{table}_with_combo\<close>.\<close>

definition with_combo :: "string \<Rightarrow> 'v frame \<Rightarrow> 'v frame" where
  "with_combo timestamp_col df =
     \<lparr>columns = columns df @ [''combo_id''],
      rows = [r(''combo_id'' := combo_id (r ''hospitalization_id'') (r timestamp_col)).
              r \<leftarrow> rows df, r timestamp_col \<noteq> NaN]\<rparr>"

text \<open>\<open>left LEFT JOIN right USING (combo_id)\<close>, as it arrives in pandas: the columns of the
  left side, then those of the right side but \<open>combo_id\<close>, a taken name replaced by the
  engine's. A null key matches nothing.\<close>

fun join_names :: "'v engine \<Rightarrow> string list \<Rightarrow> string list \<Rightarrow> string list" where
  "join_names E taken [] = []"
| "join_names E taken (c # cs) =
     (let n = (if c \<in> set taken then unique_name E taken c else c)
      in n # join_names E (taken @ [n]) cs)"

definition left_join :: "'v engine \<Rightarrow> 'v frame \<Rightarrow> 'v frame \<Rightarrow> 'v frame" where
  "left_join E left right =
     (let rcols = [c \<leftarrow> columns right. c \<noteq> ''combo_id''];
          names = join_names E (columns left) rcols;
          extend = (\<lambda>l r c. if c \<in> set (columns left) then l c
                            else row_of_dict (zip names (map r rcols)) c)
      in \<lparr>columns = columns left @ names,
          rows = concat (map (\<lambda>l.
                   case [r \<leftarrow> rows right. l ''combo_id'' \<noteq> NaN \<and> r ''combo_id'' = l ''combo_id''] of
                     [] \<Rightarrow> [extend l (\<lambda>c. NaN)]
                   | ms \<Rightarrow> map (extend l) ms) (rows left))\<rparr>)"

subsection \<open>Pivoting one source\<close>

definition category_col_mapping :: "string \<Rightarrow> string option" where
  "category_col_mapping =
     map_of [(''vitals'', ''vital_category''), (''labs'', ''lab_category''),
             (''medication_admin_continuous'', ''med_category''),
             (''patient_assessments'', ''assessment_category'')]"

definition value_col_mapping :: "string \<Rightarrow> string option" where
  "value_col_mapping =
     map_of [(''vitals'', ''vital_value''), (''labs'', ''lab_value_numeric''),
             (''medication_admin_continuous'', ''med_dose''),
             (''patient_assessments'', ''assessment_value'')]"

type_synonym filters = "(string \<times> string list) list"

text \<open>
  \<open>_pivot_table_duckdb\<close>: \<open>None\<close> where the source returns \<open>None\<close>, after its warning or
  after the engine's exception, which it catches (a missing category or value column).
  The pivot has one row per \<open>combo_id\<close> and one column per category; a cell is the first
  value of that category under that key.

  The categories of the filter are pasted into the query text, joined by \<open>','\<close> between
  \<open>IN ('\<close> and \<open>')\<close> (lines 342 to 344). Categories without an apostrophe are the
  literals the category is compared with, and no category at all gives \<open>IN ('')\<close>, the
  empty text. An apostrophe in a category ends its literal early: what the engine does
  with that text is its parameter \<open>pasted_pivot\<close>.
\<close>

definition in_literals :: "string list \<Rightarrow> string list" where
  "in_literals categories = (if categories = [] then [[]] else categories)"

definition pivot_query ::
  "'v engine \<Rightarrow> string \<Rightarrow> string \<Rightarrow> string \<Rightarrow> ('v cell \<Rightarrow> bool) \<Rightarrow> 'v frame \<Rightarrow>
   'v frame option" where
  "pivot_query E category_col value_col timestamp_col wanted raw =
     (if category_col \<in> set (columns raw) \<and> value_col \<in> set (columns raw) then
        let pivot_data = unique
              [(r value_col, r category_col,
                combo_id (r ''hospitalization_id'') (r timestamp_col)).
               r \<leftarrow> rows raw, r timestamp_col \<noteq> NaN, wanted (r category_col)];
            categories = sort (remdups (List.map_filter (\<lambda>(v, c, k). id_of c) pivot_data))
        in if categories = [] \<and> pivot_empty_fails E then None
           else Some
             \<lparr>columns = ''combo_id'' # categories,
              rows = map (\<lambda>k. \<lambda>c.
                       if c = ''combo_id'' then k
                       else if c \<in> set categories then
                         (case [v. (v, c', k') \<leftarrow> pivot_data, k' = k, c' = StrC c] of
                            [] \<Rightarrow> NaN | v # _ \<Rightarrow> v)
                       else NaN)
                     (unique (map (\<lambda>(v, c, k). k) pivot_data))\<rparr>
      else None)"

definition pivot_table_duckdb ::
  "'v engine \<Rightarrow> string \<Rightarrow> string \<Rightarrow> filters option \<Rightarrow> 'v frame \<Rightarrow> 'v frame option" where
  "pivot_table_duckdb E table_name timestamp_col category_filters raw =
     (case (category_col_mapping table_name, value_col_mapping table_name) of
        (Some category_col, Some value_col) \<Rightarrow>
          (case (case category_filters of None \<Rightarrow> None | Some f \<Rightarrow> map_of f table_name) of
             None \<Rightarrow> pivot_query E category_col value_col timestamp_col (\<lambda>c. True) raw
           | Some categories \<Rightarrow>
               if \<exists>category \<in> set categories. CHR 0x27 \<in> set category
               then pasted_pivot E table_name timestamp_col categories raw
               else pivot_query E category_col value_col timestamp_col
                      (\<lambda>c. case id_of c of
                             Some s \<Rightarrow> s \<in> set (in_literals categories)
                           | None \<Rightarrow> False) raw)
      | _ \<Rightarrow> None)"

subsection \<open>The optional tables\<close>

text \<open>\<open>optional_tables\<close> may be \<open>None\<close>: no table is processed then.\<close>

definition optional_list :: "string list option \<Rightarrow> string list" where
  "optional_list optional_tables = (case optional_tables of None \<Rightarrow> [] | Some ts \<Rightarrow> ts)"

text \<open>What the first loop leaves behind: the event-time queries, the pivoted tables and
  the raw tables registered with the engine, the latter two by table name.\<close>

record 'v registry =
  event_time_queries :: "'v event list list"
  pivoted_tables :: "(string \<times> 'v frame) list"
  raw_tables :: "(string \<times> 'v frame) list"

definition pivotable :: "string list" where
  "pivotable = [''vitals'', ''labs'', ''medication_admin_continuous'', ''patient_assessments'']"

definition process_table ::
  "'v engine \<Rightarrow> 'v clif \<Rightarrow> filters option \<Rightarrow> 'v cell list \<Rightarrow> string \<Rightarrow> 'v registry \<Rightarrow>
   error + 'v registry" where
  "process_table E clif_instance category_filters required_ids table_name reg =
     (let table_attr = (if table_name \<noteq> ''labs'' then table_name else ''lab'') in
      case tables clif_instance table_attr of
        None \<Rightarrow> Inr reg
      | Some table_obj \<Rightarrow>
          (case isin_filter required_ids table_obj of
             Inl e \<Rightarrow> Inl e
           | Inr table_df \<Rightarrow>
               let reg1 = reg\<lparr>raw_tables := AList.update table_name table_df (raw_tables reg)\<rparr> in
               (case resolve_timestamp table_name (columns table_df) of
                  None \<Rightarrow> Inr reg1
                | Some timestamp_col \<Rightarrow>
                    if timestamp_col \<in> set (columns table_df) then
                      let reg2 = reg1\<lparr>event_time_queries :=
                                   event_time_queries reg1 @ [event_query timestamp_col table_df]\<rparr>
                      in if table_name \<in> set pivotable then
                           (case pivot_table_duckdb E table_name timestamp_col category_filters
                                   table_df of
                              Some pivoted \<Rightarrow>
                                Inr (reg2\<lparr>pivoted_tables :=
                                       AList.update table_name pivoted (pivoted_tables reg2)\<rparr>)
                            | None \<Rightarrow> Inr reg2)
                         else Inr reg2
                    else Inr reg1)))"

fun process_tables ::
  "'v engine \<Rightarrow> 'v clif \<Rightarrow> filters option \<Rightarrow> 'v cell list \<Rightarrow> string list \<Rightarrow> 'v registry \<Rightarrow>
   error + 'v registry" where
  "process_tables E clif_instance category_filters required_ids [] reg = Inr reg"
| "process_tables E clif_instance category_filters required_ids (table_name # rest) reg =
     (case process_table E clif_instance category_filters required_ids table_name reg of
        Inl e \<Rightarrow> Inl e
      | Inr reg' \<Rightarrow> process_tables E clif_instance category_filters required_ids rest reg')"

subsection \<open>The join\<close>

text \<open>\<open>base_cohort a LEFT JOIN uni_event_dttm b ON a.hospitalization_id =
  b.hospitalization_id\<close>, with \<open>event_time\<close> and \<open>combo_id\<close>, distinct: a cohort row is
  repeated for each of its events, and a cohort row without an event keeps one row, with
  both null.\<close>

definition events_for :: "'v event list \<Rightarrow> 'v row \<Rightarrow> 'v cell list" where
  "events_for events a = [e. (h, e) \<leftarrow> events, h \<noteq> NaN, h = a ''hospitalization_id'']"

definition expand_row :: "'v event list \<Rightarrow> 'v row \<Rightarrow> 'v row list" where
  "expand_row events a =
     (case events_for events a of
        [] \<Rightarrow> [a(''event_time'' := NaN, ''combo_id'' := NaN)]
      | es \<Rightarrow> map (\<lambda>e. a(''event_time'' := e,
                            ''combo_id'' := combo_id (a ''hospitalization_id'') e)) es)"

definition expanded_df :: "'v frame \<Rightarrow> 'v event list \<Rightarrow> 'v frame" where
  "expanded_df cohort events =
     (let cols = add_col ''combo_id'' (add_col ''event_time'' (columns cohort)) in
      \<lparr>columns = cols,
       rows = distinct_on cols [] (concat (map (expand_row events) (rows cohort)))\<rparr>)"

text \<open>The tables the second loop joins without pivoting: every optional table that is
  registered and not pivoted and has an entry in the timestamp mapping, with the timestamp
  column the loop settles on.\<close>

definition raw_joins :: "'v registry \<Rightarrow> string list \<Rightarrow> (string \<times> string \<times> 'v frame) list" where
  "raw_joins reg optional_tables =
     List.map_filter
       (\<lambda>table_name.
          if table_name \<in> fst ` set (pivoted_tables reg) then None
          else (case map_of (raw_tables reg) table_name of
                  None \<Rightarrow> None
                | Some raw \<Rightarrow>
                    (case resolve_timestamp table_name (columns raw) of
                       None \<Rightarrow> None
                     | Some timestamp_col \<Rightarrow> Some (table_name, timestamp_col, raw))))
       optional_tables"

text \<open>
  The join query. The engine rejects it (\<open>BinderError\<close>) when it names a column that a
  table does not have: \<open>hospitalization_id\<close> of the cohort, \<open>in_dttm\<close> of the location
  transfers, the timestamp column of a table joined without pivoting; and when a CTE is
  defined twice.
\<close>

definition join_all ::
  "'v engine \<Rightarrow> 'v frame \<Rightarrow> 'v frame \<Rightarrow> 'v event list \<Rightarrow> 'v registry \<Rightarrow> string list \<Rightarrow>
   error + 'v frame" where
  "join_all E cohort adt_filtered events reg optional_tables =
     (let joins = raw_joins reg optional_tables in
      if ''hospitalization_id'' \<in> set (columns cohort) \<and> ''in_dttm'' \<in> set (columns adt_filtered) \<and>
         list_all (\<lambda>(table_name, timestamp_col, raw). timestamp_col \<in> set (columns raw)) joins \<and>
         distinct (map fst joins)
      then Inr (fold (\<lambda>right left. left_join E left right)
                  (with_combo ''in_dttm'' adt_filtered # map snd (pivoted_tables reg) @
                   map (\<lambda>(table_name, timestamp_col, raw). with_combo timestamp_col raw) joins)
                  (expanded_df cohort events))
      else Inl BinderError)"

subsection \<open>Day numbering and the requested columns\<close>

definition event_sort_key :: "'v row \<Rightarrow> (bool \<times> string) \<times> (bool \<times> int)" where
  "event_sort_key r =
     ((case id_of (r ''hospitalization_id'') of Some h \<Rightarrow> (False, h) | None \<Rightarrow> (True, [])),
      (case ts_of (r ''event_time'') of Some t \<Rightarrow> (False, t) | None \<Rightarrow> (True, 0)))"

text \<open>\<open>groupby('hospitalization_id')['date'].rank(method='dense')\<close>: the number of
  distinct dates of the hospitalization up to the row's own; null for a null date or id.\<close>

definition dense_rank :: "'v row list \<Rightarrow> 'v row \<Rightarrow> int option" where
  "dense_rank rs r =
     (case (id_of (r ''hospitalization_id''), ts_of (r ''event_time'')) of
        (Some h, Some t) \<Rightarrow>
          Some (int (length (remdups
            [t' div 86400. r' \<leftarrow> rs, id_of (r' ''hospitalization_id'') = Some h,
                           t' \<leftarrow> (case ts_of (r' ''event_time'') of Some x \<Rightarrow> [x] | None \<Rightarrow> []),
                           t' div 86400 \<le> t div 86400])))
      | _ \<Rightarrow> None)"

text \<open>Lines 240 to 244: the date, the sort, the rank cast to \<open>int\<close> (which raises on a
  null rank) and the day key.\<close>

definition day_numbering :: "'v pandas \<Rightarrow> 'v frame \<Rightarrow> error + 'v frame" where
  "day_numbering P df =
     (let sorted_rows = sort_key event_sort_key (rows df) in
      case those (map (dense_rank sorted_rows) sorted_rows) of
        None \<Rightarrow> Inl IntCastingNaNError
      | Some ranks \<Rightarrow>
          Inr \<lparr>columns = add_col ''hosp_id_day_key'' (add_col ''day_number''
                             (add_col ''date'' (columns df))),
               rows = map (\<lambda>(r, n).
                        r(''date'' := (case ts_of (r ''event_time'') of
                                        Some t \<Rightarrow> TimeC (86400 * (t div 86400)) | None \<Rightarrow> NaN),
                          ''day_number'' := IntC n,
                          ''hosp_id_day_key'' :=
                             StrC (py_str P (r ''hospitalization_id'') @ ''_day_'' @
                                   py_str P (IntC n))))
                      (zip sorted_rows ranks)\<rparr>)"

text \<open>\<open>_add_missing_columns\<close>.\<close>

fun add_categories :: "string list \<Rightarrow> 'v frame \<Rightarrow> 'v frame" where
  "add_categories [] df = df"
| "add_categories (category # categories) df =
     add_categories categories
       (if category \<notin> set (columns df)
        then \<lparr>columns = columns df @ [category],
              rows = map (\<lambda>r. r(category := NaN)) (rows df)\<rparr>
        else df)"

fun add_missing_filters :: "filters \<Rightarrow> string list \<Rightarrow> 'v frame \<Rightarrow> 'v frame" where
  "add_missing_filters [] optional_tables df = df"
| "add_missing_filters ((table_name, categories) # rest) optional_tables df =
     add_missing_filters rest optional_tables
       (if table_name \<in> set optional_tables then add_categories categories df else df)"

definition add_missing_columns ::
  "'v frame \<Rightarrow> filters option \<Rightarrow> string list option \<Rightarrow> 'v frame" where
  "add_missing_columns df category_filters optional_tables =
     (case category_filters of
        None \<Rightarrow> df
      | Some f \<Rightarrow>
          add_missing_filters f (optional_list optional_tables) df)"

definition drop_columns :: "string list \<Rightarrow> 'v frame \<Rightarrow> 'v frame" where
  "drop_columns cs df =
     \<lparr>columns = [c \<leftarrow> columns df. c \<notin> set cs],
      rows = map (\<lambda>r c. if c \<in> set cs then NaN else r c) (rows df)\<rparr>"

subsection \<open>The function\<close>

text \<open>What is in hand when the join query is built: the cohort, the filtered location
  transfers and the registry of the optional tables.\<close>

record 'v prepared =
  base_cohort :: "'v frame"
  adt_df :: "'v frame"
  registry :: "'v registry"

definition filter_hospitalizations :: "'v cell list option \<Rightarrow> 'v frame \<Rightarrow> error + 'v frame" where
  "filter_hospitalizations hospitalization_ids hospitalization_df =
     (case hospitalization_ids of
        Some ids \<Rightarrow> isin_filter ids hospitalization_df
      | None \<Rightarrow> if ''hospitalization_id'' \<in> set (columns hospitalization_df)
                then Inr hospitalization_df else Inl KeyError)"

definition prepare ::
  "'v engine \<Rightarrow> 'v clif \<Rightarrow> string list option \<Rightarrow> filters option \<Rightarrow> 'v cell list option \<Rightarrow>
   error + 'v prepared" where
  "prepare E clif_instance optional_tables category_filters hospitalization_ids =
     (case filter_hospitalizations hospitalization_ids (hospitalization clif_instance) of
        Inl e \<Rightarrow> Inl e
      | Inr hospitalization_df \<Rightarrow>
          let required_ids = unique (map (\<lambda>r. r ''hospitalization_id'') (rows hospitalization_df)) in
          (case isin_filter required_ids (adt clif_instance) of
             Inl e \<Rightarrow> Inl e
           | Inr adt_filtered \<Rightarrow>
               (case merge_inner ''patient_id'' hospitalization_df (patient clif_instance) of
                  Inl e \<Rightarrow> Inl e
                | Inr cohort \<Rightarrow>
                    (case process_tables E clif_instance category_filters required_ids
                            (optional_list optional_tables)
                            \<lparr>event_time_queries = [], pivoted_tables = [], raw_tables = []\<rparr> of
                       Inl e \<Rightarrow> Inl e
                     | Inr reg \<Rightarrow>
                         Inr \<lparr>base_cohort = cohort, adt_df = adt_filtered, registry = reg\<rparr>))))"

text \<open>The event-time queries, the one of the location transfers first, and their union.\<close>

definition all_queries :: "'v prepared \<Rightarrow> 'v event list list" where
  "all_queries p =
     (if ''in_dttm'' \<in> set (columns (adt_df p)) then [event_query ''in_dttm'' (adt_df p)] else []) @
     event_time_queries (registry p)"

definition all_event_times :: "'v prepared \<Rightarrow> 'v event list" where
  "all_event_times p = unique (concat (all_queries p))"

text \<open>\<open>final_df\<close> as it is handed to \<open>_add_missing_columns\<close>: the result of the join
  query, without duplicate rows, with the day columns.\<close>

definition final_df :: "'v pandas \<Rightarrow> 'v engine \<Rightarrow> 'v prepared \<Rightarrow> string list \<Rightarrow> error + 'v frame" where
  "final_df P E p optional_tables =
     (case join_all E (base_cohort p) (adt_df p) (all_event_times p) (registry p)
             optional_tables of
        Inl e \<Rightarrow> Inl e
      | Inr joined \<Rightarrow> day_numbering P (drop_duplicates joined))"

definition create_wide_dataset ::
  "'v pandas \<Rightarrow> 'v engine \<Rightarrow> 'v clif \<Rightarrow> string list option \<Rightarrow> filters option \<Rightarrow>
   'v cell list option \<Rightarrow> error + 'v frame" where
  "create_wide_dataset P E clif_instance optional_tables category_filters hospitalization_ids =
     (case prepare E clif_instance optional_tables category_filters hospitalization_ids of
        Inl e \<Rightarrow> Inl e
      | Inr p \<Rightarrow>
          if all_queries p = [] then Inr (base_cohort p)
          else
            (case final_df P E p (optional_list optional_tables) of
               Inl e \<Rightarrow> Inl e
             | Inr df \<Rightarrow>
                 Inr (drop_columns [''combo_id'', ''date'']
                        (add_missing_columns df category_filters optional_tables))))"

section \<open>Notions for the statements about the builder\<close>

text \<open>The rows of a frame seen through a list of columns, and the two columns that
  identify an event row.\<close>

definition proj :: "string list \<Rightarrow> 'v frame \<Rightarrow> 'v cell list set" where
  "proj K df = (\<lambda>r. map r K) ` set (rows df)"

definition event_key :: "string list" where
  "event_key = [''hospitalization_id'', ''event_time'']"


text \<open>The pairs of a cohort row's \<open>hospitalization_id\<close> and one of its event times in
  the union of the event-time queries, and the categories that the filters request for
  tables among the optional tables.\<close>

definition cohort_events :: "'v prepared \<Rightarrow> 'v cell list list" where
  "cohort_events p =
     concat (map (\<lambda>a. map (\<lambda>e. [a ''hospitalization_id'', e])
                          (events_for (all_event_times p) a))
                 (rows (base_cohort p)))"

definition requested :: "filters \<Rightarrow> string list \<Rightarrow> string set" where
  "requested f optional_tables =
     (\<Union>(table_name, categories) \<in> set f.
        if table_name \<in> set optional_tables then set categories else {})"


text \<open>
  The inputs of a call, as the claims speak of them. The hospitalizations of the cohort
  are the rows of the hospitalization table that \<open>hospitalization_ids\<close> keeps; the inner
  merge of line 70 keeps those that have a patient row. An optional table is a source of
  event times when it is loaded and has the timestamp column the first loop settles on;
  the location transfers are one when they have \<open>in_dttm\<close>. The event timestamps of an id
  are its non-null timestamps across these sources, as recorded (a null id matches
  nothing), and \<open>wide_keys\<close> pairs every hospitalization of the cohort that has a patient
  row with each of its event timestamps.
\<close>

definition cohort_hospitalizations :: "'v clif \<Rightarrow> 'v cell list option \<Rightarrow> 'v row list" where
  "cohort_hospitalizations clif_instance hospitalization_ids =
     [h \<leftarrow> rows (hospitalization clif_instance).
        (case hospitalization_ids of
           None \<Rightarrow> True
         | Some ids \<Rightarrow> h ''hospitalization_id'' \<in> set ids)]"

definition has_patient :: "'v clif \<Rightarrow> 'v row \<Rightarrow> bool" where
  "has_patient clif_instance h =
     (\<exists>pr \<in> set (rows (patient clif_instance)). pr ''patient_id'' = h ''patient_id'')"

definition event_source :: "'v clif \<Rightarrow> string \<Rightarrow> (string \<times> 'v frame) option" where
  "event_source clif_instance table_name =
     (case tables clif_instance (if table_name \<noteq> ''labs'' then table_name else ''lab'') of
        None \<Rightarrow> None
      | Some table_obj \<Rightarrow>
          (case resolve_timestamp table_name (columns table_obj) of
             None \<Rightarrow> None
           | Some timestamp_col \<Rightarrow>
               if timestamp_col \<in> set (columns table_obj)
               then Some (timestamp_col, table_obj) else None))"

definition event_sources :: "'v clif \<Rightarrow> string list \<Rightarrow> string list" where
  "event_sources clif_instance optional_tables =
     (if ''in_dttm'' \<in> set (columns (adt clif_instance)) then [''adt''] else []) @
     [table_name \<leftarrow> optional_tables.
        (case event_source clif_instance table_name of None \<Rightarrow> False | Some src \<Rightarrow> True)]"

definition event_timestamps :: "'v clif \<Rightarrow> string list \<Rightarrow> 'v cell \<Rightarrow> 'v cell list" where
  "event_timestamps clif_instance optional_tables h =
     (if h = NaN then []
      else
        (if ''in_dttm'' \<in> set (columns (adt clif_instance))
         then [r ''in_dttm''. r \<leftarrow> rows (adt clif_instance),
                              r ''hospitalization_id'' = h, r ''in_dttm'' \<noteq> NaN]
         else []) @
        concat (map (\<lambda>table_name.
                       case event_source clif_instance table_name of
                         None \<Rightarrow> []
                       | Some (timestamp_col, table_obj) \<Rightarrow>
                           [r timestamp_col. r \<leftarrow> rows table_obj,
                                             r ''hospitalization_id'' = h,
                                             r timestamp_col \<noteq> NaN])
                    optional_tables))"

definition wide_keys ::
  "'v clif \<Rightarrow> string list \<Rightarrow> 'v cell list option \<Rightarrow> 'v cell list list" where
  "wide_keys clif_instance optional_tables hospitalization_ids =
     concat (map (\<lambda>h. map (\<lambda>e. [h ''hospitalization_id'', e])
                          (event_timestamps clif_instance optional_tables
                             (h ''hospitalization_id'')))
                 [h \<leftarrow> cohort_hospitalizations clif_instance hospitalization_ids.
                    has_patient clif_instance h])"

text \<open>Event times of one minute: every row has, at each event time of its hospitalization in
  the same minute (an event time of some row of the frame), a row that agrees with it in
  every column but \<open>event_time\<close>.\<close>

definition minute_rows :: "'v frame \<Rightarrow> bool" where
  "minute_rows df =
     (\<forall>r \<in> set (rows df). \<forall>x \<in> set (rows df). \<forall>t t'.
        r ''event_time'' = TimeC t \<and> x ''event_time'' = TimeC t' \<and>
        x ''hospitalization_id'' = r ''hospitalization_id'' \<and> t div 60 = t' div 60 \<longrightarrow>
        (\<exists>r' \<in> set (rows df). r' ''event_time'' = TimeC t' \<and>
           (\<forall>c \<in> set (columns df). c \<noteq> ''event_time'' \<longrightarrow> r' c = r c)))"


section \<open>Concrete tables\<close>

text \<open>The exception of a result, and the cells of one column of a result, top to bottom
  (no cells when the call raised).\<close>

definition error_of :: "error + 'a \<Rightarrow> error option" where
  "error_of res = (case res of Inl e \<Rightarrow> Some e | Inr x \<Rightarrow> None)"


definition result_column :: "string \<Rightarrow> error + 'v frame \<Rightarrow> 'v cell list" where
  "result_column c res = (case res of Inl e \<Rightarrow> [] | Inr df \<Rightarrow> map (\<lambda>r. r c) (rows df))"

definition result_columns :: "error + 'v frame \<Rightarrow> string list" where
  "result_columns res = (case res of Inl e \<Rightarrow> [] | Inr df \<Rightarrow> columns df)"

text \<open>
  An instance of the library parameters for the concrete tables below, which hold texts,
  integers and timestamps only: \<open>str\<close> of a text is the text and of an integer its
  decimal digits, \<open>max\<close> and \<open>min\<close> of integers are taken as integers, and the other
  operations are not used. The engine of the concrete runs names a second column \<open>c\<close> as
  \<open>c_1\<close> and rejects a query text with a pasted apostrophe.
\<close>

fun decimal :: "nat \<Rightarrow> nat \<Rightarrow> string" where
  "decimal 0 n = []"
| "decimal (Suc fuel) n =
     (if n < 10 then [digit (int n)] else decimal fuel (n div 10) @ [digit (int (n mod 10))])"

definition str_int :: "int \<Rightarrow> string" where
  "str_int n = (if n < 0 then ''-'' @ decimal (Suc (nat (- n))) (nat (- n))
                else decimal (Suc (nat n)) (nat n))"

definition ints_of :: "'v cell list \<Rightarrow> int list" where
  "ints_of cs = List.map_filter int_of cs"

definition test_pandas :: "unit pandas" where
  "test_pandas =
     \<lparr>series_max = (\<lambda>cs. case ints_of cs of [] \<Rightarrow> NaN | x # xs \<Rightarrow> IntC (fold max xs x)),
      series_min = (\<lambda>cs. case ints_of cs of [] \<Rightarrow> NaN | x # xs \<Rightarrow> IntC (fold min xs x)),
      series_mean = (\<lambda>cs. NaN),
      series_median = (\<lambda>cs. NaN),
      py_str = (\<lambda>c. case c of StrC s \<Rightarrow> s | IntC n \<Rightarrow> str_int n | _ \<Rightarrow> []),
      astype_int = (\<lambda>c. None)\<rparr>"

definition test_engine :: "unit engine" where
  "test_engine =
     \<lparr>unique_name = (\<lambda>taken c. c @ ''_1''), pivot_empty_fails = False,
      pasted_pivot = (\<lambda>table_name timestamp_col categories raw. None)\<rparr>"


text \<open>Hospitalization \<open>H1\<close> with events at 2024-01-01 10:50 and 13:10 (UTC).\<close>

definition wide_two_hours :: "unit frame" where
  "wide_two_hours =
     \<lparr>columns = [''hospitalization_id'', ''event_time'', ''day_number'', ''heart_rate'', ''sbp''],
      rows = [row_of_dict [(''hospitalization_id'', StrC ''H1''), (''event_time'', TimeC 1704106200),
                           (''day_number'', IntC 1), (''heart_rate'', IntC 80)],
              row_of_dict [(''hospitalization_id'', StrC ''H1''), (''event_time'', TimeC 1704114600),
                           (''day_number'', IntC 1), (''sbp'', IntC 120)]]\<rparr>"

text \<open>Hospitalization \<open>H1\<close>: two events in the hour from 10:00 and one in the next;
  norepinephrine is recorded once, the device under two spellings.\<close>

definition wide_devices :: "unit frame" where
  "wide_devices =
     \<lparr>columns = [''hospitalization_id'', ''event_time'', ''day_number'', ''norepinephrine'',
                 ''device''],
      rows = [row_of_dict [(''hospitalization_id'', StrC ''H1''), (''event_time'', TimeC 1704103200),
                           (''day_number'', IntC 1), (''norepinephrine'', IntC 5),
                           (''device'', StrC ''nasal cannula'')],
              row_of_dict [(''hospitalization_id'', StrC ''H1''), (''event_time'', TimeC 1704104400),
                           (''day_number'', IntC 1), (''device'', StrC ''nasal-cannula'')],
              row_of_dict [(''hospitalization_id'', StrC ''H1''), (''event_time'', TimeC 1704107100),
                           (''day_number'', IntC 1)]]\<rparr>"

definition devices_config :: agg_config where
  "devices_config = [(''boolean'', [''norepinephrine'']), (''one_hot_encode'', [''device''])]"




text \<open>Scenario S2 of the specification: two hospitalizations, vitals of \<open>H1\<close> at 10:00:00
  and 10:00:45 on 2024-01-01, location transfers at 09:00.\<close>

definition s2_clif :: "unit clif" where
  "s2_clif =
     \<lparr>patient = \<lparr>columns = [''patient_id''],
                  rows = [row_of_dict [(''patient_id'', StrC ''P1'')],
                          row_of_dict [(''patient_id'', StrC ''P2'')]]\<rparr>,
      hospitalization = \<lparr>columns = [''hospitalization_id'', ''patient_id''],
                  rows = [row_of_dict [(''hospitalization_id'', StrC ''H1''), (''patient_id'', StrC ''P1'')],
                          row_of_dict [(''hospitalization_id'', StrC ''H2''), (''patient_id'', StrC ''P2'')]]\<rparr>,
      adt = \<lparr>columns = [''hospitalization_id'', ''in_dttm'', ''location_category''],
                  rows = [row_of_dict [(''hospitalization_id'', StrC ''H1''), (''in_dttm'', TimeC 1704099600),
                                       (''location_category'', StrC ''icu'')],
                          row_of_dict [(''hospitalization_id'', StrC ''H2''), (''in_dttm'', TimeC 1704099600),
                                       (''location_category'', StrC ''ward'')]]\<rparr>,
      tables = (\<lambda>name. if name = ''vitals'' then Some
                 \<lparr>columns = [''hospitalization_id'', ''recorded_dttm'', ''vital_category'', ''vital_value''],
                  rows = [row_of_dict [(''hospitalization_id'', StrC ''H1''), (''recorded_dttm'', TimeC 1704103200),
                                       (''vital_category'', StrC ''heart_rate''), (''vital_value'', IntC 80)],
                          row_of_dict [(''hospitalization_id'', StrC ''H1''), (''recorded_dttm'', TimeC 1704103245),
                                       (''vital_category'', StrC ''sbp''), (''vital_value'', IntC 120)]]\<rparr>
               else None)\<rparr>"


text \<open>One hospitalization with a location transfer, and a \<open>lab\<close> table that has none of
  \<open>lab_result_dttm\<close>, \<open>lab_collect_dttm\<close>, \<open>recorded_dttm\<close>, \<open>lab_order_dttm\<close>.\<close>

definition labs_clif :: "unit clif" where
  "labs_clif =
     \<lparr>patient = \<lparr>columns = [''patient_id''],
                  rows = [row_of_dict [(''patient_id'', StrC ''P1'')]]\<rparr>,
      hospitalization = \<lparr>columns = [''hospitalization_id'', ''patient_id''],
                  rows = [row_of_dict [(''hospitalization_id'', StrC ''H1''), (''patient_id'', StrC ''P1'')]]\<rparr>,
      adt = \<lparr>columns = [''hospitalization_id'', ''in_dttm'', ''location_category''],
                  rows = [row_of_dict [(''hospitalization_id'', StrC ''H1''), (''in_dttm'', TimeC 1704099600),
                                       (''location_category'', StrC ''icu'')]]\<rparr>,
      tables = (\<lambda>name. if name = ''lab'' then Some
                 \<lparr>columns = [''hospitalization_id'', ''lab_category'', ''lab_value_numeric''],
                  rows = [row_of_dict [(''hospitalization_id'', StrC ''H1''), (''lab_category'', StrC ''sodium''),
                                       (''lab_value_numeric'', IntC 140)]]\<rparr>
               else None)\<rparr>"

text \<open>Scenario S2 without the location transfer of \<open>H2\<close>: \<open>H2\<close> has no event.\<close>

definition quiet_clif :: "unit clif" where
  "quiet_clif =
     s2_clif\<lparr>adt := \<lparr>columns = [''hospitalization_id'', ''in_dttm'', ''location_category''],
                     rows = [row_of_dict [(''hospitalization_id'', StrC ''H1''), (''in_dttm'', TimeC 1704099600),
                                          (''location_category'', StrC ''icu'')]]\<rparr>\<rparr>"


text \<open>Filters that request a vital category without rows (\<open>map\<close>, scenario S3) and a
  category of a table that is not asked for.\<close>

definition ghost_filters :: filters where
  "ghost_filters = [(''vitals'', [''heart_rate'', ''map'']), (''labs'', [''sodium''])]"


text \<open>Hospitalization \<open>H2\<close> without an event, first without a patient row, then with one
  and beside a \<open>lab\<close> table that has no timestamp column.\<close>

definition orphan_clif :: "unit clif" where
  "orphan_clif =
     quiet_clif\<lparr>patient := \<lparr>columns = [''patient_id''],
                             rows = [row_of_dict [(''patient_id'', StrC ''P1'')]]\<rparr>\<rparr>"

definition quiet_labs_clif :: "unit clif" where
  "quiet_labs_clif =
     labs_clif\<lparr>patient := patient s2_clif, hospitalization := hospitalization s2_clif\<rparr>"


section \<open>Properties of the hourly aggregator\<close>

lemma hour_rows_Nil: "hour_rows [] = Some []"
  by (simp add: hour_rows_def)

lemma data_frame_Nil: "data_frame [] = \<lparr>columns = [], rows = []\<rparr>"
  by (simp add: data_frame_def unique_def)

text \<open>
  C3. A wide table with the required columns and zero rows: the spec promises an empty
  result with the output schema. The aggregated list is empty, \<open>pd.DataFrame([])\<close> has no
  columns, and \<open>sort_values\<close> raises \<open>KeyError\<close> on \<open>hospitalization_id\<close>.
\<close>

theorem empty_wide_raises_KeyError:
  "snd (convert_wide_to_hourly P
          \<lparr>columns = [''hospitalization_id'', ''event_time'', ''day_number'', ''heart_rate''],
           rows = []\<rparr>
          [(''mean'', [''heart_rate''])]) = Inl KeyError"
  by (simp add: convert_wide_to_hourly_def hour_rows_Nil aggregated_data_def group_keys_def
      data_frame_Nil sort_values_def Let_def)

subsection \<open>What a returning call went through\<close>

lemma convert_Inr_D:
  assumes "convert_wide_to_hourly P w cfg = (cfg', Inr out)"
  obtains krs sorted_df where
    "''event_time'' \<in> set (columns w)" "''hospitalization_id'' \<in> set (columns w)"
    "''day_number'' \<in> set (columns w)" "''first_event_hour'' \<notin> set (columns w)"
    "hour_rows (rows w) = Some krs"
    "cfg' = extend_first (non_agg_columns (df_columns (columns w)) cfg) cfg"
    "sort_values (data_frame (aggregated_data P (df_columns (columns w))
        (non_agg_columns (df_columns (columns w)) cfg) cfg' krs)) = Inr sorted_df"
    "fill_one_hot P cfg' sorted_df = Inr out"
proof -
  from assms have c: "''event_time'' \<in> set (columns w)" "''hospitalization_id'' \<in> set (columns w)"
    "''day_number'' \<in> set (columns w)" "''first_event_hour'' \<notin> set (columns w)"
    unfolding convert_wide_to_hourly_def by (simp_all split: if_splits)
  with assms obtain krs where k: "hour_rows (rows w) = Some krs"
    unfolding convert_wide_to_hourly_def by (simp split: option.splits)
  from assms c k have cfg': "cfg' = extend_first (non_agg_columns (df_columns (columns w)) cfg) cfg"
    unfolding convert_wide_to_hourly_def by (simp add: Let_def)
  from assms c k cfg' obtain sorted_df where
    "sort_values (data_frame (aggregated_data P (df_columns (columns w))
        (non_agg_columns (df_columns (columns w)) cfg) cfg' krs)) = Inr sorted_df"
    "fill_one_hot P cfg' sorted_df = Inr out"
    unfolding convert_wide_to_hourly_def by (simp add: Let_def split: sum.splits)
  with c k cfg' show thesis using that by blast
qed

lemma Inr_collapse: "\<not> isl (snd x) \<Longrightarrow> x = (fst x, Inr (projr (snd x)))"
  by (cases x) (auto simp: isl_def)

text \<open>
  C4. The claim: the call aborts exactly when a required column is missing. On a wide
  table that has all three required columns and no rows the call aborts all the same,
  here with a configuration that also names an unknown method and an absent column.
\<close>

theorem abort_with_all_required_columns:
  "snd (convert_wide_to_hourly P
          \<lparr>columns = [''hospitalization_id'', ''event_time'', ''day_number'', ''norepinephrine''],
           rows = []\<rparr>
          [(''boolean'', [''norepinephrine'']), (''mode'', [''sbp''])]) = Inl KeyError"
  by (simp add: convert_wide_to_hourly_def hour_rows_Nil aggregated_data_def group_keys_def
      data_frame_Nil sort_values_def Let_def)

subsection \<open>The configuration after the call\<close>

lemma filter_add_col: "\<not> Q c \<Longrightarrow> filter Q (add_col c cols) = filter Q cols"
  by (simp add: add_col_def)

lemma non_agg_columns_wide:
  "non_agg_columns (df_columns cols) cfg =
     [col \<leftarrow> cols. col \<notin> \<Union> (set ` snd ` set cfg) \<and>
        col \<notin> {''hospitalization_id'', ''event_time_hour'', ''nth_hour'', ''patient_id'',
                ''day_number'', ''first_event_hour'', ''hour_bucket'', ''event_time''}]"
proof -
  have "non_agg_columns (df_columns cols) cfg = non_agg_columns cols cfg"
    unfolding non_agg_columns_def df_columns_def
    by (simp add: filter_add_col group_cols_def)
  also have "\<dots> = [col \<leftarrow> cols. col \<notin> \<Union> (set ` snd ` set cfg) \<and>
        col \<notin> {''hospitalization_id'', ''event_time_hour'', ''nth_hour'', ''patient_id'',
                ''day_number'', ''first_event_hour'', ''hour_bucket'', ''event_time''}]"
    unfolding non_agg_columns_def all_agg_columns_def group_cols_def
    by (rule filter_cong) auto
  finally show ?thesis .
qed

lemma extend_first_Nil: "extend_first [] cfg = cfg"
  by (simp add: extend_first_def)

lemma extend_first_lookup:
  "extra \<noteq> [] \<Longrightarrow>
   map_of (extend_first extra cfg) ''first'' =
     Some ((case map_of cfg ''first'' of None \<Rightarrow> [] | Some l \<Rightarrow> l) @ extra)"
  by (simp add: extend_first_def update_conv')

lemma extend_first_others:
  "m \<noteq> ''first'' \<Longrightarrow> map_of (extend_first extra cfg) m = map_of cfg m"
  by (simp add: extend_first_def update_conv')

lemma extend_first_differs: "extra \<noteq> [] \<Longrightarrow> extend_first extra cfg \<noteq> cfg"
proof
  assume ne: "extra \<noteq> []" and eq: "extend_first extra cfg = cfg"
  from extend_first_lookup[OF ne, of cfg] eq
  have "map_of cfg ''first'' =
          Some ((case map_of cfg ''first'' of None \<Rightarrow> [] | Some l \<Rightarrow> l) @ extra)"
    by simp
  with ne show False by (cases "map_of cfg ''first''") auto
qed

text \<open>
  C9. A call that returns leaves the caller's \<open>aggregation_config\<close> changed in place: the
  columns of the wide table that the configuration does not name and that are neither
  grouping nor carried columns are appended to the list under \<open>'first'\<close> (created when
  absent), every other entry is as it was, and the dictionary differs from the one passed
  whenever there is such a column.
\<close>

theorem config_extended_in_place:
  assumes "convert_wide_to_hourly P wide_df cfg = (cfg', Inr hourly_df)"
  shows "let named = \<Union> (set ` snd ` set cfg);
             carried = {''hospitalization_id'', ''event_time_hour'', ''nth_hour'', ''patient_id'',
                        ''day_number'', ''first_event_hour'', ''hour_bucket'', ''event_time''};
             extra = [col \<leftarrow> columns wide_df. col \<notin> named \<and> col \<notin> carried];
             old = (case map_of cfg ''first'' of None \<Rightarrow> [] | Some l \<Rightarrow> l)
         in (extra = [] \<longrightarrow> cfg' = cfg) \<and>
            (extra \<noteq> [] \<longrightarrow>
               map_of cfg' ''first'' = Some (old @ extra) \<and>
               (\<forall>m. m \<noteq> ''first'' \<longrightarrow> map_of cfg' m = map_of cfg m) \<and>
               cfg' \<noteq> cfg)"
proof -
  from assms obtain krs where
    cfg': "cfg' = extend_first (non_agg_columns (df_columns (columns wide_df)) cfg) cfg"
    by (rule convert_Inr_D)
  define extra where "extra = non_agg_columns (df_columns (columns wide_df)) cfg"
  have "(extra = [] \<longrightarrow> extend_first extra cfg = cfg) \<and>
        (extra \<noteq> [] \<longrightarrow>
           map_of (extend_first extra cfg) ''first'' =
             Some ((case map_of cfg ''first'' of None \<Rightarrow> [] | Some l \<Rightarrow> l) @ extra) \<and>
           (\<forall>m. m \<noteq> ''first'' \<longrightarrow> map_of (extend_first extra cfg) m = map_of cfg m) \<and>
           extend_first extra cfg \<noteq> cfg)"
    using extend_first_Nil extend_first_lookup extend_first_others extend_first_differs
    by blast
  then show ?thesis
    unfolding Let_def cfg' extra_def non_agg_columns_wide .
qed

theorem config_extended_in_place_witness:
  "map_of (fst (convert_wide_to_hourly test_pandas wide_two_hours [(''boolean'', [''heart_rate''])]))
     ''first'' = Some [''sbp''] \<and>
   fst (convert_wide_to_hourly test_pandas wide_two_hours [(''boolean'', [''heart_rate''])])
     \<noteq> [(''boolean'', [''heart_rate''])]"
proof -
  have "\<not> isl (snd (convert_wide_to_hourly test_pandas wide_two_hours
                        [(''boolean'', [''heart_rate''])]))"
    by code_simp
  from config_extended_in_place[OF Inr_collapse[OF this]]
  show ?thesis
    by (simp add: Let_def wide_two_hours_def)
qed

subsection \<open>The rows of the hourly frame\<close>

lemma assign_Nil: "assign [] rd = rd"
  by (simp add: assign_def)

lemma assign_append: "assign (ws @ ws') rd = assign ws' (assign ws rd)"
  by (simp add: assign_def)

lemma assign_single: "assign [(k, v)] rd = AList.update k v rd"
  by (simp add: assign_def)

lemma map_of_assign: "map_of (assign ws rd) = map_of rd ++ map_of (rev ws)"
proof (induction ws arbitrary: rd)
  case Nil
  show ?case by (simp add: assign_def)
next
  case (Cons w ws)
  obtain k v where w: "w = (k, v)" by (cases w)
  have "assign (w # ws) rd = assign ws (AList.update k v rd)"
    by (simp add: assign_def w)
  then show ?case
    by (simp add: Cons.IH update_conv' w map_add_def fun_eq_iff split: option.splits)
qed

lemma agg_entry_assign:
  "agg_entry P non_agg m col vals rd = assign (entry_writes P non_agg m col vals) rd"
proof -
  have oh: "fold (\<lambda>val. AList.update (one_hot_name P col val) (IntC 1)) xs rd =
        assign (map (\<lambda>val. (one_hot_name P col val, IntC 1)) xs) rd" for xs
    by (simp add: assign_def fold_map comp_def)
  show ?thesis
    unfolding agg_entry_def entry_writes_def
    by (simp add: assign_single assign_Nil oh)
qed

lemma agg_column_assign:
  "agg_column P dfcols non_agg g m col rd = assign (column_writes P dfcols non_agg g m col) rd"
  by (simp add: agg_column_def column_writes_def agg_entry_assign assign_Nil)

lemma fold_agg_column:
  "fold (agg_column P dfcols non_agg g m) cols rd =
     assign (concat (map (column_writes P dfcols non_agg g m) cols)) rd"
  by (induction cols arbitrary: rd) (simp_all add: assign_Nil assign_append agg_column_assign)

lemma row_data_assign:
  "row_data P dfcols non_agg cfg k g =
     assign (all_writes P dfcols non_agg cfg g) (base_info dfcols k g)"
proof -
  have "fold (\<lambda>(m, cols) rd. fold (agg_column P dfcols non_agg g m) cols rd) cfg rd =
        assign (all_writes P dfcols non_agg cfg g) rd" for rd
    by (induction cfg arbitrary: rd)
       (simp_all add: all_writes_def assign_Nil assign_append fold_agg_column split: prod.splits)
  then show ?thesis by (simp add: row_data_def)
qed

lemma map_of_rev_const:
  assumes "k \<in> fst ` set ws" and "\<And>v. (k, v) \<in> set ws \<Longrightarrow> v = V"
  shows "map_of (rev ws) k = Some V"
proof -
  from assms(1) have "k \<in> fst ` set (rev ws)" by simp
  then obtain v where v: "map_of (rev ws) k = Some v"
    by (metis domD dom_map_of_conv_image_fst)
  then have "(k, v) \<in> set ws" using map_of_SomeD by fastforce
  with assms(2) v show ?thesis by simp
qed

lemma map_of_rev_none: "k \<notin> fst ` set ws \<Longrightarrow> map_of (rev ws) k = None"
  by (simp add: map_of_eq_None_iff)

lemma row_data_const:
  assumes "k \<in> fst ` set (all_writes P dfcols non_agg cfg g)"
      and "\<And>v. (k, v) \<in> set (all_writes P dfcols non_agg cfg g) \<Longrightarrow> v = V"
  shows "row_of_dict (row_data P dfcols non_agg cfg key g) k = V"
  using map_of_rev_const[OF assms]
  by (simp add: row_of_dict_def row_data_assign map_of_assign map_add_def)

lemma row_data_untouched:
  assumes "k \<notin> fst ` set (all_writes P dfcols non_agg cfg g)"
  shows "row_of_dict (row_data P dfcols non_agg cfg key g) k = row_of_dict (base_info dfcols key g) k"
  using map_of_rev_none[OF assms]
  by (simp add: row_of_dict_def row_data_assign map_of_assign map_add_def)

lemma fill_cell_IntC: "fill_cell P (IntC n) = Some n"
  by (simp add: fill_cell_def)

lemma fill_cell_NaN: "fill_cell P NaN = Some 0"
  by (simp add: fill_cell_def)

lemma fill_row_empty: "fill_row P {} r = r"
  by (simp add: fill_row_def)

lemma fill_row_comp: "fill_row P A (fill_row P B r) = fill_row P (A \<union> B) r"
  by (auto simp: fill_row_def fun_eq_iff fill_cell_IntC)

lemma fill_row_IntC: "r k = IntC n \<Longrightarrow> fill_row P S r k = IntC n"
  by (simp add: fill_row_def fill_cell_IntC)

lemma fill_row_outside: "k \<notin> S \<Longrightarrow> fill_row P S r k = r k"
  by (simp add: fill_row_def)

lemma fill_row_NaN: "k \<in> S \<Longrightarrow> r k = NaN \<Longrightarrow> fill_row P S r k = IntC 0"
  by (simp add: fill_row_def fill_cell_NaN)

lemma fillna_astype_int_D:
  assumes "fillna_astype_int P c df = Inr df'"
  shows "columns df' = columns df" and "rows df' = map (fill_row P {c}) (rows df)"
proof -
  from assms have df': "df' = df\<lparr>rows := map (\<lambda>r. r(c := IntC (the (fill_cell P (r c))))) (rows df)\<rparr>"
    by (simp add: fillna_astype_int_def split: if_splits)
  show "columns df' = columns df" by (simp add: df')
  have "(\<lambda>r. r(c := IntC (the (fill_cell P (r c))))) = fill_row P {c}"
    by (auto simp: fill_row_def fun_eq_iff)
  then show "rows df' = map (fill_row P {c}) (rows df)" by (simp add: df')
qed

lemma fill_columns_D:
  assumes "fill_columns P cs df = Inr df'"
  shows "columns df' = columns df \<and> rows df' = map (fill_row P (set cs)) (rows df)"
  using assms
proof (induction cs arbitrary: df)
  case Nil
  then show ?case by (simp add: fill_row_empty)
next
  case (Cons c cs)
  from Cons.prems obtain d where d: "fillna_astype_int P c df = Inr d"
    and rest: "fill_columns P cs d = Inr df'"
    by (simp split: sum.splits)
  from Cons.IH[OF rest] fillna_astype_int_D[OF d]
  show ?case by (simp add: fill_row_comp comp_def Un_commute)
qed

lemma fill_one_hot_cols_D:
  assumes "fill_one_hot_cols P cols df = Inr df'"
  shows "columns df' = columns df \<and>
         rows df' = map (fill_row P {k \<in> set (columns df). \<exists>c \<in> set cols. prefix (c @ ''_'') k})
                        (rows df)"
  using assms
proof (induction cols arbitrary: df)
  case Nil
  then show ?case by (simp add: fill_row_empty)
next
  case (Cons c cols)
  from Cons.prems obtain d where d: "fill_columns P (one_hot_cols c df) df = Inr d"
    and rest: "fill_one_hot_cols P cols d = Inr df'"
    by (simp split: sum.splits)
  have "set (one_hot_cols c df) = {k \<in> set (columns df). prefix (c @ ''_'') k}"
    by (auto simp: one_hot_cols_def)
  moreover have "{k \<in> set (columns df). \<exists>c' \<in> set cols. prefix (c' @ ''_'') k} \<union>
                 {k \<in> set (columns df). prefix (c @ ''_'') k} =
                 {k \<in> set (columns df). \<exists>c' \<in> set (c # cols). prefix (c' @ ''_'') k}"
    by auto
  ultimately show ?case
    using Cons.IH[OF rest] fill_columns_D[OF d]
    by (simp add: fill_row_comp comp_def)
qed

lemma fill_one_hot_D:
  assumes "fill_one_hot P cfg df = Inr df'"
  shows "columns df' = columns df \<and>
         rows df' = map (fill_row P (filled_names cfg (columns df))) (rows df)"
  using assms
proof (induction cfg arbitrary: df)
  case Nil
  then show ?case by (simp add: fill_row_empty filled_names_def one_hot_columns_def)
next
  case (Cons e cfg)
  obtain m cols where e: "e = (m, cols)" by (cases e)
  show ?case
  proof (cases "m = ''one_hot_encode''")
    case False
    with Cons.prems e have "fill_one_hot P cfg df = Inr df'" by simp
    from Cons.IH[OF this] False e show ?thesis
      by (simp add: filled_names_def one_hot_columns_def)
  next
    case True
    with Cons.prems e obtain d where d: "fill_one_hot_cols P cols df = Inr d"
      and rest: "fill_one_hot P cfg d = Inr df'"
      by (simp split: sum.splits)
    have "filled_names cfg (columns df) \<union>
            {k \<in> set (columns df). \<exists>c \<in> set cols. prefix (c @ ''_'') k} =
          filled_names (e # cfg) (columns df)"
      using True e by (auto simp: filled_names_def one_hot_columns_def)
    then show ?thesis
      using Cons.IH[OF rest] fill_one_hot_cols_D[OF d]
      by (simp add: fill_row_comp comp_def)
  qed
qed

lemma those_map_Some:
  "those (map f xs) = Some ys \<Longrightarrow> list_all2 (\<lambda>x y. f x = Some y) xs ys"
  by (induction xs arbitrary: ys) (auto split: option.splits)

lemma hour_rows_D:
  "hour_rows rs = Some krs \<Longrightarrow> list_all2 (\<lambda>r kr. hour_row rs r = Some kr) rs krs"
  unfolding hour_rows_def by (rule those_map_Some)

lemma id_of_Some: "id_of c = Some h \<longleftrightarrow> c = StrC h"
  by (cases c) (auto simp: id_of_def)

lemma ts_of_Some: "ts_of c = Some t \<longleftrightarrow> c = TimeC t"
  by (cases c) (auto simp: ts_of_def)

lemma int_of_Some: "int_of c = Some n \<longleftrightarrow> c = IntC n"
  by (cases c) (auto simp: int_of_def)

lemma hour_row_D:
  assumes "hour_row rs r = Some (k, r')"
  obtains h t f where "r ''hospitalization_id'' = StrC h" "r ''event_time'' = TimeC t"
    "first_event_hour rs h = Some f"
    "k = (h, floor_hour t, (floor_hour t - f) div 3600)"
    "r' = r(''event_time_hour'' := TimeC (floor_hour t), ''first_event_hour'' := TimeC f,
            ''nth_hour'' := IntC ((floor_hour t - f) div 3600),
            ''hour_bucket'' := IntC (hour_of_day (floor_hour t)))"
proof -
  from assms obtain h t where ht: "id_of (r ''hospitalization_id'') = Some h"
    "ts_of (r ''event_time'') = Some t"
    by (auto simp: hour_row_def split: option.splits)
  with assms obtain f where f: "first_event_hour rs h = Some f"
    by (auto simp: hour_row_def split: option.splits)
  from assms ht f have "k = (h, floor_hour t, (floor_hour t - f) div 3600)"
    "r' = r(''event_time_hour'' := TimeC (floor_hour t), ''first_event_hour'' := TimeC f,
            ''nth_hour'' := IntC ((floor_hour t - f) div 3600),
            ''hour_bucket'' := IntC (hour_of_day (floor_hour t)))"
    by (simp_all add: hour_row_def Let_def)
  with ht f that show thesis by (simp add: id_of_Some ts_of_Some)
qed

lemma set_map_filter: "set (List.map_filter f xs) = {y. \<exists>x \<in> set xs. f x = Some y}"
  by (induction xs) (auto split: option.splits)

lemma set_hours_of:
  "set (hours_of rs h) =
     {floor_hour t |t r. r \<in> set rs \<and> r ''hospitalization_id'' = StrC h \<and> r ''event_time'' = TimeC t}"
  by (auto simp: hours_of_def set_map_filter id_of_Some ts_of_Some split: if_splits)

lemma first_event_hour_Min:
  assumes "first_event_hour rs h = Some f"
  shows "hours_of rs h \<noteq> []" and "f = Min (set (hours_of rs h))"
proof -
  from assms show ne: "hours_of rs h \<noteq> []"
    by (auto simp: first_event_hour_def)
  then obtain x xs where c: "hours_of rs h = x # xs" by (cases "hours_of rs h") auto
  with assms have "f = fold min xs x" by (simp add: first_event_hour_def)
  then show "f = Min (set (hours_of rs h))" unfolding c Min.set_eq_fold by simp
qed

lemma filter_update_other:
  "k \<noteq> a \<Longrightarrow> filter (\<lambda>e. fst e = a) (AList.update k v al) = filter (\<lambda>e. fst e = a) al"
  by (induction al) auto

lemma one_hot_columns_extend_first:
  "one_hot_columns (extend_first extra cfg) = one_hot_columns cfg"
  by (simp add: one_hot_columns_def extend_first_def filter_update_other)

lemma all_writes_D:
  assumes "(k, v) \<in> set (all_writes P dfcols na cfg g)"
  obtains m cols col where "(m, cols) \<in> set cfg" "col \<in> set cols" "col \<in> set dfcols"
    "(k, v) \<in> set (entry_writes P na m col (dropna (map (\<lambda>r. r col) g)))"
  using assms
  by (auto simp: all_writes_def column_writes_def split: if_splits)

lemma all_writes_I:
  assumes "(m, cols) \<in> set cfg" "col \<in> set cols" "col \<in> set dfcols"
    "(k, v) \<in> set (entry_writes P na m col (dropna (map (\<lambda>r. r col) g)))"
  shows "(k, v) \<in> set (all_writes P dfcols na cfg g)"
  using assms
  by (force simp: all_writes_def column_writes_def)

lemma set_unique: "set (unique xs) = set xs"
  by (simp add: unique_def)

lemma distinct_unique: "distinct (unique xs)"
  by (simp add: unique_def)

lemma entry_writes_one_hot:
  "(k, v) \<in> set (entry_writes P na ''one_hot_encode'' col vals) \<longleftrightarrow>
     v = IntC 1 \<and> (\<exists>val \<in> set vals. k = one_hot_name P col val)"
  by (auto simp: entry_writes_def set_unique)


lemma entry_writes_suffix:
  assumes "(k, v) \<in> set (entry_writes P na m col vals)" "m \<noteq> ''one_hot_encode''"
  shows "\<exists>s \<in> set suffixes. k = col @ s \<and> (s = ''_boolean'' \<longrightarrow> m = ''boolean'')"
  using assms
  by (auto simp: entry_writes_def suffixes_def split: if_splits)

lemma rev_append_eq: "xs @ s = ys \<Longrightarrow> rev s @ rev xs = rev ys"
  by (metis rev_append)

lemma suffix_not_key:
  assumes "s \<in> set suffixes"
  shows "col @ s \<noteq> ''hospitalization_id''" "col @ s \<noteq> ''event_time_hour''"
    "col @ s \<noteq> ''nth_hour''"
proof -
  show "col @ s \<noteq> ''hospitalization_id''"
  proof
    assume "col @ s = ''hospitalization_id''"
    from rev_append_eq[OF this] assms show False by (auto simp: suffixes_def)
  qed
  show "col @ s \<noteq> ''event_time_hour''"
  proof
    assume "col @ s = ''event_time_hour''"
    from rev_append_eq[OF this] assms show False by (auto simp: suffixes_def)
  qed
  show "col @ s \<noteq> ''nth_hour''"
  proof
    assume "col @ s = ''nth_hour''"
    from rev_append_eq[OF this] assms show False by (auto simp: suffixes_def)
  qed
qed


lemma list_all2_setD1: "list_all2 Q xs ys \<Longrightarrow> x \<in> set xs \<Longrightarrow> \<exists>y \<in> set ys. Q x y"
  by (induction rule: list_all2_induct) auto

lemma list_all2_setD2: "list_all2 Q xs ys \<Longrightarrow> y \<in> set ys \<Longrightarrow> \<exists>x \<in> set xs. Q x y"
  by (induction rule: list_all2_induct) auto

lemma hour_rows_set:
  assumes "hour_rows rs = Some krs"
  shows "kr \<in> set krs \<longleftrightarrow> (\<exists>r \<in> set rs. hour_row rs r = Some kr)"
proof
  assume "kr \<in> set krs"
  with list_all2_setD2[OF hour_rows_D[OF assms]] show "\<exists>r \<in> set rs. hour_row rs r = Some kr"
    by blast
next
  assume "\<exists>r \<in> set rs. hour_row rs r = Some kr"
  then obtain r where r: "r \<in> set rs" "hour_row rs r = Some kr" by blast
  from list_all2_setD1[OF hour_rows_D[OF assms] r(1)] r(2) show "kr \<in> set krs" by auto
qed

lemma set_group_keys: "set (group_keys krs) = fst ` set krs"
  by (simp add: group_keys_def)

lemma sorted_group_keys: "sorted (group_keys krs)" "distinct (group_keys krs)"
  by (simp_all add: group_keys_def)

lemma floor_hour_mod: "floor_hour t mod 3600 = 0"
  by (simp add: floor_hour_def)

text \<open>Every group key has the form (h, e, (e - f) div 3600) with e and f whole hours,
  f the first hour of h, and a source row of h in hour e.\<close>

lemma group_key_form:
  assumes hr: "hour_rows rs = Some krs" and k: "(h, e, n) \<in> fst ` set krs"
  obtains f t r where "first_event_hour rs h = Some f" "f \<le> e" "e = f + 3600 * n" "0 \<le> n"
    "r \<in> set rs" "r ''hospitalization_id'' = StrC h" "r ''event_time'' = TimeC t"
    "e = floor_hour t"
proof -
  from k obtain r' where "((h, e, n), r') \<in> set krs" by auto
  with hour_rows_set[OF hr] obtain r where r: "r \<in> set rs"
    and hrow: "hour_row rs r = Some ((h, e, n), r')" by blast
  from hrow obtain h' t f where d: "r ''hospitalization_id'' = StrC h'" "r ''event_time'' = TimeC t"
    "first_event_hour rs h' = Some f" "(h, e, n) = (h', floor_hour t, (floor_hour t - f) div 3600)"
    by (rule hour_row_D)
  from d(4) have eq: "h' = h" "e = floor_hour t" "n = (e - f) div 3600" by simp_all
  from first_event_hour_Min[OF d(3)] have fmin: "f = Min (set (hours_of rs h'))"
    and ne: "hours_of rs h' \<noteq> []" by simp_all
  have "e \<in> set (hours_of rs h')" using r d(1,2) eq by (auto simp: set_hours_of)
  then have le: "f \<le> e" using fmin by simp
  have "f \<in> set (hours_of rs h')" using fmin ne by simp
  then have fm: "f mod 3600 = 0" by (auto simp: set_hours_of floor_hour_mod)
  have em: "e mod 3600 = 0" using eq by (simp add: floor_hour_mod)
  from fm em have "(e - f) mod 3600 = 0" by (simp add: mod_diff_eq[symmetric])
  then have "e - f = 3600 * ((e - f) div 3600)" by (simp add: mod_eq_0_iff_dvd)
  then have e: "e = f + 3600 * n" using eq by simp
  from le e have "0 \<le> n" by simp
  with d eq le e r that show thesis by blast
qed

lemma base_info_keys:
  "row_of_dict (base_info dfcols (h, e, n) g) ''hospitalization_id'' = StrC h"
  "row_of_dict (base_info dfcols (h, e, n) g) ''event_time_hour'' = TimeC e"
  "row_of_dict (base_info dfcols (h, e, n) g) ''nth_hour'' = IntC n"
  by (simp_all add: base_info_def row_of_dict_def Let_def update_conv' split: list.splits)

lemma group_of_subset: "set (group_of krs k) \<subseteq> snd ` set krs"
  by (auto simp: group_of_def)

lemma dropna_set: "set (dropna cs) = {c \<in> set cs. c \<noteq> NaN}"
  by (auto simp: dropna_def)

lemma one_hot_columns_mem:
  "col \<in> set (one_hot_columns cfg) \<longleftrightarrow>
     (\<exists>cols. (''one_hot_encode'', cols) \<in> set cfg \<and> col \<in> set cols)"
  by (force simp: one_hot_columns_def)

text \<open>A name that no one-hot entry writes and that is no suffixed name keeps its base value.\<close>

lemma key_column_value:
  assumes hr: "hour_rows (rows wide_df) = Some krs"
    and nw: "\<not> written_by_one_hot P wide_df cfg k0"
    and ns: "\<And>col s. s \<in> set suffixes \<Longrightarrow> col @ s \<noteq> k0"
  shows "hourly_row P wide_df cfg krs k k0 =
         row_of_dict (base_info (df_columns (columns wide_df)) k (group_of krs k)) k0"
proof -
  let ?dfcols = "df_columns (columns wide_df)"
  let ?na = "non_agg_columns ?dfcols cfg"
  let ?cfg = "extend_first ?na cfg"
  have "k0 \<notin> fst ` set (all_writes P ?dfcols ?na ?cfg (group_of krs k))"
  proof
    assume "k0 \<in> fst ` set (all_writes P ?dfcols ?na ?cfg (group_of krs k))"
    then obtain v where "(k0, v) \<in> set (all_writes P ?dfcols ?na ?cfg (group_of krs k))" by auto
    then obtain m cols col where e: "(m, cols) \<in> set ?cfg" "col \<in> set cols" "col \<in> set ?dfcols"
      "(k0, v) \<in> set (entry_writes P ?na m col (dropna (map (\<lambda>r. r col) (group_of krs k))))"
      by (rule all_writes_D)
    show False
    proof (cases "m = ''one_hot_encode''")
      case True
      with e(4) obtain val where val: "val \<in> set (dropna (map (\<lambda>r. r col) (group_of krs k)))"
        "k0 = one_hot_name P col val"
        by (auto simp: entry_writes_one_hot)
      then obtain r where r: "r \<in> set (group_of krs k)" "val = r col" "r col \<noteq> NaN"
        by (auto simp: dropna_set)
      with group_of_subset[of krs k] have "r \<in> set (df_rows (rows wide_df))"
        by (auto simp: df_rows_def hr)
      moreover have "col \<in> set (one_hot_columns ?cfg)"
        using e(1,2) True by (auto simp: one_hot_columns_mem)
      then have "col \<in> set (one_hot_columns cfg)"
        by (simp add: one_hot_columns_extend_first)
      ultimately have "written_by_one_hot P wide_df cfg k0"
        using e(3) r val by (auto simp: written_by_one_hot_def)
      with nw show False by simp
    next
      case False
      from entry_writes_suffix[OF e(4) False] ns show False by blast
    qed
  qed
  from row_data_untouched[OF this] show ?thesis
    by (simp add: hourly_row_def Let_def)
qed

lemma kept_rows:
  assumes hr: "hour_rows (rows wide_df) = Some krs"
    and kept: "key_columns_kept P wide_df cfg"
  shows "hourly_row P wide_df cfg krs (h, e, n) ''hospitalization_id'' = StrC h"
    "hourly_row P wide_df cfg krs (h, e, n) ''event_time_hour'' = TimeC e"
    "hourly_row P wide_df cfg krs (h, e, n) ''nth_hour'' = IntC n"
  using key_column_value[OF hr, of P cfg] kept suffix_not_key
  by (simp_all add: key_columns_kept_def base_info_keys)

lemma sort_values_D:
  assumes "sort_values df = Inr df'"
  shows "columns df' = columns df" "rows df' = sort_key sort_cell_key (rows df)"
  using assms by (auto simp: sort_values_def split: if_splits)

lemma aggregated_rows:
  "rows (data_frame (aggregated_data P (df_columns (columns wide_df))
           (non_agg_columns (df_columns (columns wide_df)) cfg)
           (extend_first (non_agg_columns (df_columns (columns wide_df)) cfg) cfg) krs)) =
   map (hourly_row P wide_df cfg krs) (group_keys krs)"
  by (simp add: data_frame_def aggregated_data_def hourly_row_def Let_def comp_def)

lemma sort_cell_key_kept:
  assumes "hour_rows (rows wide_df) = Some krs" "key_columns_kept P wide_df cfg"
  shows "sort_cell_key (hourly_row P wide_df cfg krs (h, e, n)) = ((False, h), (False, n))"
  using kept_rows[OF assms]
  by (simp add: sort_cell_key_def id_of_def int_of_def)

lemma sorted_map_mono:
  assumes "sorted xs" "\<And>x y. x \<in> set xs \<Longrightarrow> y \<in> set xs \<Longrightarrow> x \<le> y \<Longrightarrow> f x \<le> f y"
  shows "sorted (map f xs)"
  unfolding sorted_map
  by (rule sorted_wrt_mono_rel[OF _ assms(1)]) (use assms(2) in blast)

lemma keys_monotone:
  assumes hr: "hour_rows rs = Some krs"
    and k: "(h, e, n) \<in> fst ` set krs" and k': "(h', e', n') \<in> fst ` set krs"
    and le: "(h, e, n) \<le> (h', e', n')"
  shows "((False, h), (False, n)) \<le> ((False, h'), (False, n'))"
proof (cases "h = h'")
  case False
  with le show ?thesis by auto
next
  case True
  from group_key_form[OF hr k] obtain f where f: "first_event_hour rs h = Some f" "e = f + 3600 * n"
    by metis
  from group_key_form[OF hr k'] obtain f' where f': "first_event_hour rs h' = Some f'"
    "e' = f' + 3600 * n'"
    by metis
  from f f' True have "f' = f" by simp
  moreover from le True have "e \<le> e'" by auto
  ultimately have "n \<le> n'" using f f' by simp
  with True show ?thesis by simp
qed

lemma already_sorted:
  assumes hr: "hour_rows (rows wide_df) = Some krs" and kept: "key_columns_kept P wide_df cfg"
  shows "sort_key sort_cell_key (map (hourly_row P wide_df cfg krs) (group_keys krs)) =
         map (hourly_row P wide_df cfg krs) (group_keys krs)"
proof (rule sort_key_id_if_sorted)
  have "sorted (map (\<lambda>k. sort_cell_key (hourly_row P wide_df cfg krs k)) (group_keys krs))"
  proof (rule sorted_map_mono[OF sorted_group_keys(1)])
    fix x y :: group_key
    assume x: "x \<in> set (group_keys krs)" and y: "y \<in> set (group_keys krs)" and le: "x \<le> y"
    obtain h e n where xe: "x = (h, e, n)" by (cases x)
    obtain h' e' n' where ye: "y = (h', e', n')" by (cases y)
    from keys_monotone[OF hr, of h e n h' e' n'] x y le
    show "sort_cell_key (hourly_row P wide_df cfg krs x) \<le>
          sort_cell_key (hourly_row P wide_df cfg krs y)"
      unfolding xe ye sort_cell_key_kept[OF hr kept]
      by (simp add: set_group_keys)
  qed
  then show "sorted (map sort_cell_key (map (hourly_row P wide_df cfg krs) (group_keys krs)))"
    by (simp add: comp_def)
qed

lemma filled_names_subset:
  "k \<in> filled_names (extend_first extra cfg) cols \<longleftrightarrow> k \<in> set cols \<and> filled_by_one_hot cfg k"
  by (auto simp: filled_names_def filled_by_one_hot_def one_hot_columns_extend_first)

text \<open>The rows of a returned hourly frame when no one-hot entry touches the key columns:
  one row per group, in the order of the group keys, each the dictionary of the group
  with the one-hot columns filled.\<close>

lemma hourly_anatomy:
  assumes conv: "convert_wide_to_hourly P wide_df cfg = (cfg', Inr out)"
    and kept: "key_columns_kept P wide_df cfg"
  obtains krs where "hour_rows (rows wide_df) = Some krs"
    "rows out = map (\<lambda>k. fill_row P {c \<in> set (columns out). filled_by_one_hot cfg c}
                            (hourly_row P wide_df cfg krs k)) (group_keys krs)"
    "columns out = unique (concat (map (map fst)
        (aggregated_data P (df_columns (columns wide_df))
           (non_agg_columns (df_columns (columns wide_df)) cfg) cfg' krs)))"
proof -
  let ?dfcols = "df_columns (columns wide_df)"
  let ?na = "non_agg_columns ?dfcols cfg"
  from conv obtain krs sorted_df where
    hr: "hour_rows (rows wide_df) = Some krs" and
    cfg': "cfg' = extend_first ?na cfg" and
    sv: "sort_values (data_frame (aggregated_data P ?dfcols ?na cfg' krs)) = Inr sorted_df" and
    fl: "fill_one_hot P cfg' sorted_df = Inr out"
    by (rule convert_Inr_D)
  from sort_values_D[OF sv] have
    sc: "columns sorted_df = columns (data_frame (aggregated_data P ?dfcols ?na cfg' krs))" and
    sr: "rows sorted_df = map (hourly_row P wide_df cfg krs) (group_keys krs)"
    by (simp_all add: cfg' aggregated_rows already_sorted[OF hr kept])
  from fill_one_hot_D[OF fl] have
    oc: "columns out = columns sorted_df" and
    orows: "rows out = map (fill_row P (filled_names cfg' (columns sorted_df))) (rows sorted_df)"
    by simp_all
  have "filled_names cfg' (columns sorted_df) = {c \<in> set (columns out). filled_by_one_hot cfg c}"
    unfolding cfg' oc using filled_names_subset by blast
  with orows sr have
    "rows out = map (\<lambda>k. fill_row P {c \<in> set (columns out). filled_by_one_hot cfg c}
                            (hourly_row P wide_df cfg krs k)) (group_keys krs)"
    by (simp add: comp_def)
  moreover have "columns out = unique (concat (map (map fst)
        (aggregated_data P ?dfcols ?na cfg' krs)))"
    by (simp add: oc sc data_frame_def)
  ultimately show thesis using hr that by blast
qed

lemma out_row_keys:
  assumes hr: "hour_rows (rows wide_df) = Some krs" and kept: "key_columns_kept P wide_df cfg"
    and S: "S \<subseteq> {c. filled_by_one_hot cfg c}"
  shows "fill_row P S (hourly_row P wide_df cfg krs (h, e, n)) ''hospitalization_id'' = StrC h"
    "fill_row P S (hourly_row P wide_df cfg krs (h, e, n)) ''event_time_hour'' = TimeC e"
    "fill_row P S (hourly_row P wide_df cfg krs (h, e, n)) ''nth_hour'' = IntC n"
proof -
  from kept S have "''hospitalization_id'' \<notin> S" "''event_time_hour'' \<notin> S"
    by (auto simp: key_columns_kept_def)
  then show "fill_row P S (hourly_row P wide_df cfg krs (h, e, n)) ''hospitalization_id'' = StrC h"
    "fill_row P S (hourly_row P wide_df cfg krs (h, e, n)) ''event_time_hour'' = TimeC e"
    by (simp_all add: fill_row_outside kept_rows[OF hr kept])
  show "fill_row P S (hourly_row P wide_df cfg krs (h, e, n)) ''nth_hour'' = IntC n"
    by (simp add: fill_row_IntC kept_rows[OF hr kept])
qed

lemma set_event_times_of:
  "set (event_times_of rs h) =
     {t. \<exists>r \<in> set rs. r ''hospitalization_id'' = StrC h \<and> r ''event_time'' = TimeC t}"
  by (auto simp: event_times_of_def set_map_filter ts_of_Some split: if_splits)

lemma set_hours_of_times: "set (hours_of rs h) = floor_hour ` set (event_times_of rs h)"
  by (auto simp: set_hours_of set_event_times_of)

lemma mono_floor_hour: "mono floor_hour"
proof (rule monoI)
  fix x y :: int
  assume "x \<le> y"
  then have "x div 3600 \<le> y div 3600" by (simp add: zdiv_mono1)
  moreover have "floor_hour t = 3600 * (t div 3600)" for t
    by (simp add: floor_hour_def minus_mod_eq_mult_div)
  ultimately show "floor_hour x \<le> floor_hour y" by simp
qed

lemma hour_row_I:
  assumes "r ''hospitalization_id'' = StrC h" "r ''event_time'' = TimeC t"
    "first_event_hour rs h = Some f"
  shows "\<exists>r'. hour_row rs r = Some ((h, floor_hour t, (floor_hour t - f) div 3600), r')"
  using assms by (simp add: hour_row_def id_of_def ts_of_def Let_def)

text \<open>The keys of one hospitalization are the hours of its event times, counted from the
  first.\<close>

lemma keys_of_hospitalization:
  assumes hr: "hour_rows rs = Some krs" and f: "first_event_hour rs H = Some f"
  shows "{k \<in> fst ` set krs. fst k = H} =
         (\<lambda>t. (H, floor_hour t, (floor_hour t - f) div 3600)) ` set (event_times_of rs H)"
proof (intro set_eqI iffI)
  fix k assume "k \<in> {k \<in> fst ` set krs. fst k = H}"
  then obtain e n where k: "k = (H, e, n)" "(H, e, n) \<in> fst ` set krs" by (cases k) auto
  from k(2) obtain r' where "((H, e, n), r') \<in> set krs" by auto
  with hour_rows_set[OF hr] obtain r where r: "r \<in> set rs"
    "hour_row rs r = Some ((H, e, n), r')" by blast
  from r(2) obtain h' t f' where d: "r ''hospitalization_id'' = StrC h'" "r ''event_time'' = TimeC t"
    "first_event_hour rs h' = Some f'" "(H, e, n) = (h', floor_hour t, (floor_hour t - f') div 3600)"
    by (rule hour_row_D)
  from d f have "h' = H" "f' = f" "e = floor_hour t" "n = (floor_hour t - f) div 3600" by auto
  moreover from r(1) d(1,2) \<open>h' = H\<close> have "t \<in> set (event_times_of rs H)"
    by (auto simp: set_event_times_of)
  ultimately show "k \<in> (\<lambda>t. (H, floor_hour t, (floor_hour t - f) div 3600)) ` set (event_times_of rs H)"
    using k(1) by auto
next
  fix k assume "k \<in> (\<lambda>t. (H, floor_hour t, (floor_hour t - f) div 3600)) ` set (event_times_of rs H)"
  then obtain t where t: "t \<in> set (event_times_of rs H)"
    "k = (H, floor_hour t, (floor_hour t - f) div 3600)" by auto
  from t(1) obtain r where r: "r \<in> set rs" "r ''hospitalization_id'' = StrC H"
    "r ''event_time'' = TimeC t" by (auto simp: set_event_times_of)
  from hour_row_I[OF r(2,3) f] obtain r' where
    "hour_row rs r = Some ((H, floor_hour t, (floor_hour t - f) div 3600), r')" by blast
  with hour_rows_set[OF hr] r(1) have "((H, floor_hour t, (floor_hour t - f) div 3600), r') \<in> set krs"
    by blast
  then have "(H, floor_hour t, (floor_hour t - f) div 3600) \<in> fst ` set krs" by force
  with t(2) show "k \<in> {k \<in> fst ` set krs. fst k = H}" by simp
qed

lemma nth_hours_strict:
  assumes hr: "hour_rows rs = Some krs"
  shows "sorted_wrt (<) (map (\<lambda>k. snd (snd k)) [k \<leftarrow> group_keys krs. fst k = H])"
proof -
  have "sorted_wrt (<) (group_keys krs)"
    using sorted_group_keys[of krs] by (simp add: strict_sorted_iff)
  then have s: "sorted_wrt (<) [k \<leftarrow> group_keys krs. fst k = H]"
    by (rule sorted_wrt_filter)
  have "sorted_wrt (\<lambda>x y. snd (snd x) < snd (snd y)) [k \<leftarrow> group_keys krs. fst k = H]"
  proof (rule sorted_wrt_mono_rel[OF _ s])
    fix x y :: group_key
    assume xin: "x \<in> set [k \<leftarrow> group_keys krs. fst k = H]"
      and yin: "y \<in> set [k \<leftarrow> group_keys krs. fst k = H]" and lt: "x < y"
    have fx: "fst x = H" and fy: "fst y = H" using xin yin by simp_all
    obtain e n where xe: "x = (H, e, n)" by (metis fx prod.collapse)
    obtain e' n' where ye: "y = (H, e', n')" by (metis fy prod.collapse)
    from xin xe have kx: "(H, e, n) \<in> fst ` set krs" by (simp add: set_group_keys)
    from yin ye have ky: "(H, e', n') \<in> fst ` set krs" by (simp add: set_group_keys)
    from group_key_form[OF hr kx] obtain f where f: "first_event_hour rs H = Some f"
      "e = f + 3600 * n" by metis
    from group_key_form[OF hr ky] obtain f' where f': "first_event_hour rs H = Some f'"
      "e' = f' + 3600 * n'" by metis
    from f f' have "f' = f" by simp
    moreover from lt xe ye have "e < e' \<or> e = e' \<and> n < n'" by auto
    ultimately have "n < n'" using f f' by auto
    then show "snd (snd x) < snd (snd y)" by (simp add: xe ye)
  qed
  then show ?thesis by (simp add: sorted_wrt_map)
qed

text \<open>
  C2, as the code has it. For a call that returns, with the key columns kept, and a
  hospitalization \<open>H\<close> of the hourly output: the \<open>nth_hour\<close> cells of its rows, in row
  order, are integers that increase strictly, the least is 0, and the greatest is the
  number of hours from the hour of the first event to the hour of the last,
  \<open>(floor(max, 1h) - floor(min, 1h)) / 1h\<close>; the claim has \<open>floor((max - min) / 1h)\<close>,
  which is one less whenever the last event lies earlier within its hour than the first.
\<close>

theorem nth_hour_of_hospitalization:
  assumes conv: "convert_wide_to_hourly P wide_df cfg = (cfg', Inr out)"
    and kept: "key_columns_kept P wide_df cfg"
    and H: "StrC H \<in> (\<lambda>r. r ''hospitalization_id'') ` set (rows out)"
  shows "\<exists>ns. map (\<lambda>r. r ''nth_hour'') [r \<leftarrow> rows out. r ''hospitalization_id'' = StrC H]
                = map IntC ns \<and>
              sorted_wrt (<) ns \<and> Min (set ns) = 0 \<and>
              Max (set ns) =
                (floor_hour (Max (set (event_times_of (rows wide_df) H))) -
                 floor_hour (Min (set (event_times_of (rows wide_df) H)))) div 3600"
proof -
  let ?rs = "rows wide_df"
  let ?T = "set (event_times_of ?rs H)"
  from conv kept obtain krs where hr: "hour_rows ?rs = Some krs"
    and out: "rows out = map (\<lambda>k. fill_row P {c \<in> set (columns out). filled_by_one_hot cfg c}
                            (hourly_row P wide_df cfg krs k)) (group_keys krs)"
    by (rule hourly_anatomy)
  let ?F = "\<lambda>k. fill_row P {c \<in> set (columns out). filled_by_one_hot cfg c}
                   (hourly_row P wide_df cfg krs k)"
  have Fh: "?F k ''hospitalization_id'' = StrC (fst k)"
    and Fn: "?F k ''nth_hour'' = IntC (snd (snd k))" for k
    using out_row_keys[OF hr kept, where S="{c \<in> set (columns out). filled_by_one_hot cfg c}"
        and h="fst k" and e="fst (snd k)" and n="snd (snd k)"]
    by auto
  let ?ksH = "[k \<leftarrow> group_keys krs. fst k = H]"
  let ?ns = "map (\<lambda>k. snd (snd k)) ?ksH"
  have filt: "[r \<leftarrow> rows out. r ''hospitalization_id'' = StrC H] = map ?F ?ksH"
    unfolding out filter_map by (simp add: comp_def Fh)
  have cells: "map (\<lambda>r. r ''nth_hour'') [r \<leftarrow> rows out. r ''hospitalization_id'' = StrC H]
                = map IntC ?ns"
    unfolding filt by (simp add: comp_def Fn)
  have strict: "sorted_wrt (<) ?ns" by (rule nth_hours_strict[OF hr])
  from H obtain k where k: "k \<in> set (group_keys krs)" "fst k = H"
    unfolding out by (auto simp: Fh)
  then have "(H, fst (snd k), snd (snd k)) \<in> fst ` set krs"
    by (metis prod.collapse set_group_keys)
  from group_key_form[OF hr this] obtain f where f: "first_event_hour ?rs H = Some f"
    by metis
  let ?g = "\<lambda>t. (floor_hour t - f) div 3600"
  have "set ?ksH = {k \<in> fst ` set krs. fst k = H}"
    by (auto simp: set_group_keys)
  then have "set ?ns = (\<lambda>k. snd (snd k)) ` ((\<lambda>t. (H, floor_hour t, ?g t)) ` ?T)"
    by (simp add: keys_of_hospitalization[OF hr f])
  then have setns: "set ?ns = ?g ` ?T"
    by (simp add: image_image)
  have Tne: "?T \<noteq> {}"
    using first_event_hour_Min(1)[OF f] set_hours_of_times[of ?rs H]
    by (metis image_is_empty set_empty)
  have fin: "finite ?T" by simp
  have fmin: "f = floor_hour (Min ?T)"
    using first_event_hour_Min(2)[OF f] mono_Min_commute[OF mono_floor_hour fin Tne]
    by (simp add: set_hours_of_times)
  have monog: "mono ?g"
  proof (rule monoI)
    fix x y :: int assume "x \<le> y"
    then have "floor_hour x \<le> floor_hour y" using mono_floor_hour by (simp add: monoD)
    then show "?g x \<le> ?g y" by (simp add: zdiv_mono1)
  qed
  have "Min (set ?ns) = ?g (Min ?T)"
    unfolding setns using mono_Min_commute[OF monog fin Tne] by simp
  then have min0: "Min (set ?ns) = 0" by (simp add: fmin)
  have "Max (set ?ns) = ?g (Max ?T)"
    unfolding setns using mono_Max_commute[OF monog fin Tne] by simp
  then have maxn: "Max (set ?ns) = (floor_hour (Max ?T) - floor_hour (Min ?T)) div 3600"
    by (simp add: fmin)
  from cells strict min0 maxn show ?thesis by blast
qed

lemma extend_first_mem:
  "m \<noteq> ''first'' \<Longrightarrow> (m, cs) \<in> set (extend_first extra cfg) \<longleftrightarrow> (m, cs) \<in> set cfg"
proof -
  have "m \<noteq> k \<Longrightarrow> (m, cs) \<in> set (AList.update k v al) \<longleftrightarrow> (m, cs) \<in> set al" for k v al
    by (induction al) auto
  then show "m \<noteq> ''first'' \<Longrightarrow> ?thesis" by (simp add: extend_first_def)
qed

lemma df_columns_superset: "c \<in> set cols \<Longrightarrow> c \<in> set (df_columns cols)"
  by (simp add: df_columns_def add_col_def)

text \<open>The cells of a column in one group are the cells of the wide rows of that
  hospitalization and hour, for every column but the four the aggregator adds.\<close>

lemma group_cells:
  assumes hr: "hour_rows rs = Some krs" and k: "(h, e, n) \<in> fst ` set krs"
    and b: "b \<notin> {''event_time_hour'', ''first_event_hour'', ''nth_hour'', ''hour_bucket''}"
  shows "set (map (\<lambda>r. r b) (group_of krs (h, e, n))) =
         (\<lambda>w. w b) ` {w \<in> set rs. w ''hospitalization_id'' = StrC h \<and>
                        (\<exists>t. w ''event_time'' = TimeC t \<and> floor_hour t = e)}"
proof (intro set_eqI iffI)
  fix c assume "c \<in> set (map (\<lambda>r. r b) (group_of krs (h, e, n)))"
  then obtain r' where r': "((h, e, n), r') \<in> set krs" "c = r' b"
    by (auto simp: group_of_def)
  with hour_rows_set[OF hr] obtain w where w: "w \<in> set rs" "hour_row rs w = Some ((h, e, n), r')"
    by blast
  from w(2) obtain h' t f where d: "w ''hospitalization_id'' = StrC h'" "w ''event_time'' = TimeC t"
    "(h, e, n) = (h', floor_hour t, (floor_hour t - f) div 3600)"
    "r' = w(''event_time_hour'' := TimeC (floor_hour t), ''first_event_hour'' := TimeC f,
            ''nth_hour'' := IntC ((floor_hour t - f) div 3600),
            ''hour_bucket'' := IntC (hour_of_day (floor_hour t)))"
    by (rule hour_row_D)
  from d(4) b have "r' b = w b" by simp
  with w(1) d r'(2)
  show "c \<in> (\<lambda>w. w b) ` {w \<in> set rs. w ''hospitalization_id'' = StrC h \<and>
                        (\<exists>t. w ''event_time'' = TimeC t \<and> floor_hour t = e)}"
    by auto
next
  fix c assume "c \<in> (\<lambda>w. w b) ` {w \<in> set rs. w ''hospitalization_id'' = StrC h \<and>
                        (\<exists>t. w ''event_time'' = TimeC t \<and> floor_hour t = e)}"
  then obtain w t where w: "w \<in> set rs" "w ''hospitalization_id'' = StrC h"
    "w ''event_time'' = TimeC t" "floor_hour t = e" "c = w b" by auto
  from group_key_form[OF hr k] obtain f where f: "first_event_hour rs h = Some f"
    "e = f + 3600 * n" by metis
  from f(2) have n: "(e - f) div 3600 = n" by simp
  define w' where "w' = w(''event_time_hour'' := TimeC e, ''first_event_hour'' := TimeC f,
            ''nth_hour'' := IntC n, ''hour_bucket'' := IntC (hour_of_day e))"
  have "hour_row rs w = Some ((h, e, n), w')"
    using w(2,3,4) f(1) n by (simp add: hour_row_def id_of_def ts_of_def Let_def w'_def)
  with hour_rows_set[OF hr] w(1) have "((h, e, n), w') \<in> set krs"
    by blast
  then have "w' \<in> set (group_of krs (h, e, n))"
    unfolding group_of_def set_map set_filter by (intro image_eqI[where x="((h, e, n), w')"]) simp_all
  then have "w' b \<in> set (map (\<lambda>r. r b) (group_of krs (h, e, n)))"
    unfolding set_map by (rule imageI)
  moreover have "w' b = w b" using b by (simp add: w'_def)
  ultimately show "c \<in> set (map (\<lambda>r. r b) (group_of krs (h, e, n)))"
    using w(5) by simp
qed







theorem nth_hour_of_hospitalization_counterexample:
  "result_column ''nth_hour'' (snd (convert_wide_to_hourly test_pandas wide_two_hours [])) =
     [IntC 0, IntC 3] \<and>
   event_times_of (rows wide_two_hours) ''H1'' = [1704106200, 1704114600] \<and>
   (1704114600 - 1704106200) div 3600 = (2 :: int)"
  by code_simp

theorem nth_hour_of_hospitalization_witness:
  "\<exists>ns. map (\<lambda>r. r ''nth_hour'')
            [r \<leftarrow> rows (projr (snd (convert_wide_to_hourly test_pandas wide_devices devices_config))).
               r ''hospitalization_id'' = StrC ''H1'']
          = map IntC ns \<and>
        sorted_wrt (<) ns \<and> Min (set ns) = 0 \<and> Max (set ns) = 1"
proof -
  let ?X = "convert_wide_to_hourly test_pandas wide_devices devices_config"
  have ok: "\<not> isl (snd ?X)" by code_simp
  have kept: "key_columns_kept test_pandas wide_devices devices_config" by code_simp
  have H: "StrC ''H1'' \<in> (\<lambda>r. r ''hospitalization_id'') ` set (rows (projr (snd ?X)))"
    by code_simp
  have ts: "(floor_hour (Max (set (event_times_of (rows wide_devices) ''H1''))) -
             floor_hour (Min (set (event_times_of (rows wide_devices) ''H1'')))) div 3600 = 1"
    by code_simp
  from nth_hour_of_hospitalization[OF Inr_collapse[OF ok] kept H]
  show ?thesis unfolding ts .
qed

subsection \<open>One-hot columns\<close>

lemma keys_assign: "fst ` set (assign ws rd) = fst ` set ws \<union> fst ` set rd"
proof (induction ws arbitrary: rd)
  case Nil
  show ?case by (simp add: assign_Nil)
next
  case (Cons w ws)
  obtain k v where w: "w = (k, v)" by (cases w)
  have "assign (w # ws) rd = assign ws (AList.update k v rd)"
    by (simp add: assign_def w)
  then show ?case by (auto simp: Cons.IH dom_update w)
qed

lemma base_info_names: "fst ` set (base_info dfcols k g) \<subseteq> set base_names"
  by (cases k) (auto simp: base_info_def base_names_def Let_def dom_update split: list.splits)

lemma entry_names_mono:
  assumes "set vals \<subseteq> set vals'"
  shows "fst ` set (entry_writes P na m col vals) \<subseteq> fst ` set (entry_writes P na m col vals')"
proof (cases "m = ''one_hot_encode''")
  case True
  then show ?thesis using assms by (auto simp: entry_writes_def set_unique)
next
  case False
  then show ?thesis by (auto simp: entry_writes_def)
qed

lemma sanitize_append: "sanitize (xs @ ys) = sanitize xs @ sanitize ys"
  by (simp add: sanitize_def)

text \<open>A character outside ASCII becomes one underscore: \<open>caf\<close> and U+00E9, bytes \<open>0xC3\<close>
  \<open>0xA9\<close>.\<close>

lemma sanitize_non_ascii:
  "sanitize [CHR ''c'', CHR ''a'', CHR ''f'', CHR 0xC3, CHR 0xA9, CHR '' '', CHR ''1''] = ''caf__1''"
  by code_simp

lemma one_hot_name_prefix: "sanitize c = c \<Longrightarrow> prefix (c @ ''_'') (one_hot_name P c v)"
  by (simp add: one_hot_name_def sanitize_append sanitize_def keep_char_def)

text \<open>Every wide row lies in the group of its key.\<close>

lemma row_in_group:
  assumes hr: "hour_rows rs = Some krs" and w: "w \<in> set rs"
    and b: "b \<notin> {''event_time_hour'', ''first_event_hour'', ''nth_hour'', ''hour_bucket''}"
  obtains k where "k \<in> set (group_keys krs)" "w b \<in> set (map (\<lambda>r. r b) (group_of krs k))"
proof -
  from list_all2_setD1[OF hour_rows_D[OF hr] w] obtain kr where kr: "kr \<in> set krs"
    "hour_row rs w = Some kr" by blast
  obtain k r' where kre: "kr = (k, r')" by (cases kr)
  obtain h e n where ke: "k = (h, e, n)" by (cases k)
  from kr(2) kre obtain h' t f where d: "w ''hospitalization_id'' = StrC h'"
    "w ''event_time'' = TimeC t" "k = (h', floor_hour t, (floor_hour t - f) div 3600)"
    by (auto elim: hour_row_D)
  from kr(1) kre ke have kin: "(h, e, n) \<in> fst ` set krs" by force
  from d ke have "w ''hospitalization_id'' = StrC h" "floor_hour t = e" by simp_all
  with w d(2) have "w b \<in> (\<lambda>w. w b) ` {w \<in> set rs. w ''hospitalization_id'' = StrC h \<and>
                        (\<exists>t. w ''event_time'' = TimeC t \<and> floor_hour t = e)}"
    by blast
  then have "w b \<in> set (map (\<lambda>r. r b) (group_of krs k))"
    unfolding ke group_cells[OF hr kin b] .
  moreover from kin ke have "k \<in> set (group_keys krs)" by (simp add: set_group_keys)
  ultimately show thesis using that by blast
qed

lemma row_of_dict_absent: "k \<notin> fst ` set d \<Longrightarrow> row_of_dict d k = NaN"
proof -
  assume "k \<notin> fst ` set d"
  then have "map_of d k = None" by (simp add: map_of_eq_None_iff)
  then show ?thesis by (simp add: row_of_dict_def)
qed

lemma one_hot_cell:
  assumes hr: "hour_rows (rows wide_df) = Some krs"
    and c: "c \<in> set (one_hot_columns cfg)" "c \<in> set (df_columns (columns wide_df))"
    and own: "\<not> written_by_other P wide_df cfg c name"
  shows "hourly_row P wide_df cfg krs k name =
         (if name \<in> one_hot_name P c ` set (dropna (map (\<lambda>r. r c) (group_of krs k)))
          then IntC 1 else NaN)"
proof -
  let ?dfcols = "df_columns (columns wide_df)"
  let ?na = "non_agg_columns ?dfcols cfg"
  let ?cfg = "extend_first ?na cfg"
  let ?g = "group_of krs k"
  let ?W = "all_writes P ?dfcols ?na ?cfg ?g"
  let ?N = "one_hot_name P c ` set (dropna (map (\<lambda>r. r c) ?g))"
  have sub: "set (dropna (map (\<lambda>r. r col) ?g)) \<subseteq>
             set (dropna (map (\<lambda>r. r col) (df_rows (rows wide_df))))" for col
    using group_of_subset[of krs k] by (auto simp: dropna_set df_rows_def hr)
  have A: "v = IntC 1 \<and> name \<in> ?N" if "(name, v) \<in> set ?W" for v
  proof -
    from that obtain m cols col where e: "(m, cols) \<in> set ?cfg" "col \<in> set cols"
      "col \<in> set ?dfcols"
      "(name, v) \<in> set (entry_writes P ?na m col (dropna (map (\<lambda>r. r col) ?g)))"
      by (rule all_writes_D)
    show ?thesis
    proof (cases "(m, col) = (''one_hot_encode'', c)")
      case True
      with e(4) show ?thesis by (auto simp: entry_writes_one_hot)
    next
      case False
      from e(4) have "name \<in> fst ` set (entry_writes P ?na m col (dropna (map (\<lambda>r. r col) ?g)))"
        by force
      with entry_names_mono[OF sub] have
        "name \<in> fst ` set (entry_writes P ?na m col
                   (dropna (map (\<lambda>r. r col) (df_rows (rows wide_df)))))"
        by blast
      with e(1,2,3) False have "written_by_other P wide_df cfg c name"
        unfolding written_by_other_def Let_def
        by (intro disjI2 bexI[of _ "(m, cols)"] bexI[of _ col]) simp_all
      with own show ?thesis by simp
    qed
  qed
  from c(1) obtain cols where cols: "(''one_hot_encode'', cols) \<in> set cfg" "c \<in> set cols"
    by (auto simp: one_hot_columns_mem)
  then have mem: "(''one_hot_encode'', cols) \<in> set ?cfg" by (simp add: extend_first_mem)
  show ?thesis
  proof (cases "name \<in> ?N")
    case True
    then have "(name, IntC 1) \<in> set ?W"
      by (intro all_writes_I[OF mem cols(2) c(2)]) (auto simp: entry_writes_one_hot)
    then have "name \<in> fst ` set ?W" by force
    from row_data_const[OF this, of "IntC 1"] A True show ?thesis
      by (simp add: hourly_row_def Let_def)
  next
    case False
    with A have "name \<notin> fst ` set ?W" by fastforce
    from row_data_untouched[OF this]
    have "hourly_row P wide_df cfg krs k name = row_of_dict (base_info ?dfcols k ?g) name"
      by (simp add: hourly_row_def Let_def)
    moreover from own have "name \<notin> set base_names"
      by (simp add: written_by_other_def Let_def)
    with base_info_names[of ?dfcols k ?g] have "name \<notin> fst ` set (base_info ?dfcols k ?g)"
      by blast
    ultimately show ?thesis using False by (simp add: row_of_dict_absent)
  qed
qed

lemma one_hot_column_present:
  assumes hr: "hour_rows (rows wide_df) = Some krs"
    and c: "c \<in> set (one_hot_columns cfg)" "c \<in> set (df_columns (columns wide_df))"
    and k: "k \<in> set (group_keys krs)"
    and v: "v \<in> set (dropna (map (\<lambda>r. r c) (group_of krs k)))"
  shows "one_hot_name P c v \<in> set (unique (concat (map (map fst)
           (aggregated_data P (df_columns (columns wide_df))
              (non_agg_columns (df_columns (columns wide_df)) cfg)
              (extend_first (non_agg_columns (df_columns (columns wide_df)) cfg) cfg) krs))))"
proof -
  let ?dfcols = "df_columns (columns wide_df)"
  let ?na = "non_agg_columns ?dfcols cfg"
  let ?cfg = "extend_first ?na cfg"
  let ?g = "group_of krs k"
  from c(1) obtain cols where cols: "(''one_hot_encode'', cols) \<in> set cfg" "c \<in> set cols"
    by (auto simp: one_hot_columns_mem)
  then have mem: "(''one_hot_encode'', cols) \<in> set ?cfg" by (simp add: extend_first_mem)
  have "(one_hot_name P c v, IntC 1) \<in> set (all_writes P ?dfcols ?na ?cfg ?g)"
    by (intro all_writes_I[OF mem cols(2) c(2)]) (use v in \<open>auto simp: entry_writes_one_hot\<close>)
  then have "one_hot_name P c v \<in> fst ` set (all_writes P ?dfcols ?na ?cfg ?g)" by force
  then have "one_hot_name P c v \<in> fst ` set (row_data P ?dfcols ?na ?cfg k ?g)"
    by (simp add: row_data_assign keys_assign)
  with k show ?thesis
    by (auto simp: set_unique aggregated_data_def)
qed

text \<open>
  C6, as the code has it. Output names are sanitized (\<open>re.sub\<close>), so distinct values
  can share one output column, and the row sum counts names, not values. For a call that
  returns, with the key columns kept (no one-hot entry writes or converts
  \<open>hospitalization_id\<close>, \<open>event_time_hour\<close> or \<open>nth_hour\<close>), a one-hot column \<open>c\<close> of the
  wide table that is not one of the hour columns the aggregator computes
  (\<open>event_time_hour\<close>, \<open>nth_hour\<close>, \<open>hour_bucket\<close>), whose own name needs no sanitizing,
  and whose output names no other entry writes: every output
  name of a non-null value of \<open>c\<close> anywhere in the input is a column of the result; in
  every output row such a cell is 1 if the name is that of a value observed in the row's
  hospitalization and hour and 0 otherwise; and the row sum over these columns is the
  number of distinct output names observed in that hour.
\<close>

theorem one_hot_reduction:
  assumes conv: "convert_wide_to_hourly P wide_df cfg = (cfg', Inr out)"
    and kept: "key_columns_kept P wide_df cfg"
    and c: "c \<in> set (one_hot_columns cfg)" "c \<in> set (columns wide_df)"
      "c \<notin> {''event_time_hour'', ''nth_hour'', ''hour_bucket''}" "sanitize c = c"
    and own: "\<forall>w \<in> set (rows wide_df). w c \<noteq> NaN \<longrightarrow>
                \<not> written_by_other P wide_df cfg c (one_hot_name P c (w c))"
    and r: "r \<in> set (rows out)"
  shows "let names = {one_hot_name P c (w c) |w. w \<in> set (rows wide_df) \<and> w c \<noteq> NaN};
             here = {one_hot_name P c (w c) |w. w \<in> set (rows wide_df) \<and> w c \<noteq> NaN \<and>
                       w ''hospitalization_id'' = r ''hospitalization_id'' \<and>
                       (\<exists>t. w ''event_time'' = TimeC t \<and>
                            r ''event_time_hour'' = TimeC (floor_hour t))}
         in names \<subseteq> set (columns out) \<and>
            (\<forall>name \<in> names. r name = IntC (if name \<in> here then 1 else 0)) \<and>
            (\<Sum>name \<in> names. case r name of IntC i \<Rightarrow> i | _ \<Rightarrow> 0) = int (card here)"
proof -
  let ?rs = "rows wide_df"
  let ?dfcols = "df_columns (columns wide_df)"
  let ?S = "{c \<in> set (columns out). filled_by_one_hot cfg c}"
  define names where "names = {one_hot_name P c (w c) |w. w \<in> set ?rs \<and> w c \<noteq> NaN}"
  define here where "here = {one_hot_name P c (w c) |w. w \<in> set ?rs \<and> w c \<noteq> NaN \<and>
                       w ''hospitalization_id'' = r ''hospitalization_id'' \<and>
                       (\<exists>t. w ''event_time'' = TimeC t \<and>
                            r ''event_time_hour'' = TimeC (floor_hour t))}"
  from conv obtain nf: "''first_event_hour'' \<notin> set (columns wide_df)"
    and cfg': "cfg' = extend_first (non_agg_columns ?dfcols cfg) cfg"
    by (rule convert_Inr_D)
  from conv kept obtain krs where hr: "hour_rows ?rs = Some krs"
    and out: "rows out = map (\<lambda>k. fill_row P ?S (hourly_row P wide_df cfg krs k)) (group_keys krs)"
    and cols: "columns out = unique (concat (map (map fst)
        (aggregated_data P ?dfcols (non_agg_columns ?dfcols cfg) cfg' krs)))"
    by (rule hourly_anatomy)
  from r out obtain k where k: "k \<in> set (group_keys krs)"
    and rk: "r = fill_row P ?S (hourly_row P wide_df cfg krs k)" by auto
  obtain h e n where ke: "k = (h, e, n)" by (cases k)
  from k ke have kin: "(h, e, n) \<in> fst ` set krs" by (simp add: set_group_keys)
  have S: "?S \<subseteq> {c. filled_by_one_hot cfg c}" by blast
  have rh: "r ''hospitalization_id'' = StrC h" and re: "r ''event_time_hour'' = TimeC e"
    unfolding rk ke using out_row_keys[OF hr kept S] by simp_all
  from c(2,3) nf have c4: "c \<notin> {''event_time_hour'', ''first_event_hour'', ''nth_hour'', ''hour_bucket''}"
    by auto
  have cdf: "c \<in> set ?dfcols" by (rule df_columns_superset[OF c(2)])
  have vals: "set (dropna (map (\<lambda>r. r c) (group_of krs k))) =
        {w c |w. w \<in> set ?rs \<and> w c \<noteq> NaN \<and> w ''hospitalization_id'' = StrC h \<and>
                 (\<exists>t. w ''event_time'' = TimeC t \<and> floor_hour t = e)}"
    unfolding dropna_set ke group_cells[OF hr kin c4] by auto
  have Nk: "one_hot_name P c ` set (dropna (map (\<lambda>r. r c) (group_of krs k))) = here"
    unfolding vals here_def rh re by auto
  have present: "name \<in> set (columns out)" if "name \<in> names" for name
  proof -
    from that obtain w where w: "w \<in> set ?rs" "w c \<noteq> NaN" "name = one_hot_name P c (w c)"
      by (auto simp: names_def)
    from row_in_group[OF hr w(1) c4] obtain k0 where k0: "k0 \<in> set (group_keys krs)"
      "w c \<in> set (map (\<lambda>r. r c) (group_of krs k0))" by blast
    with w(2) have "w c \<in> set (dropna (map (\<lambda>r. r c) (group_of krs k0)))"
      by (simp add: dropna_set)
    from one_hot_column_present[OF hr c(1) cdf k0(1) this, of P] show ?thesis
      by (simp add: cols cfg' w(3))
  qed
  have cell: "r name = IntC (if name \<in> here then 1 else 0)" if "name \<in> names" for name
  proof -
    from that obtain w where w: "w \<in> set ?rs" "w c \<noteq> NaN" "name = one_hot_name P c (w c)"
      by (auto simp: names_def)
    with own have "\<not> written_by_other P wide_df cfg c name" by blast
    from one_hot_cell[OF hr c(1) cdf this, of k]
    have hv: "hourly_row P wide_df cfg krs k name = (if name \<in> here then IntC 1 else NaN)"
      by (simp add: Nk)
    show ?thesis
    proof (cases "name \<in> here")
      case True
      with hv have "hourly_row P wide_df cfg krs k name = IntC 1" by simp
      then have "r name = IntC 1" unfolding rk by (rule fill_row_IntC)
      with True show ?thesis by simp
    next
      case False
      with hv have nan: "hourly_row P wide_df cfg krs k name = NaN" by simp
      have "prefix (c @ ''_'') name" unfolding w(3) by (rule one_hot_name_prefix[OF c(4)])
      with c(1) have "filled_by_one_hot cfg name" by (auto simp: filled_by_one_hot_def)
      with present[OF that] have "name \<in> ?S" by simp
      from fill_row_NaN[where r="hourly_row P wide_df cfg krs k" and P=P, OF this nan]
      have "r name = IntC 0" by (simp add: rk)
      with False show ?thesis by simp
    qed
  qed
  have fin: "finite names"
  proof -
    have "names = (\<lambda>w. one_hot_name P c (w c)) ` {w \<in> set ?rs. w c \<noteq> NaN}"
      by (auto simp: names_def)
    then show ?thesis by simp
  qed
  have sub: "here \<subseteq> names" by (auto simp: here_def names_def)
  have "(\<Sum>name \<in> names. case r name of IntC i \<Rightarrow> i | _ \<Rightarrow> 0) =
        (\<Sum>name \<in> names. if name \<in> here then 1 else 0)"
    by (rule sum.cong) (simp_all add: cell)
  also have "\<dots> = int (card (names \<inter> here))"
    using fin by (simp add: sum.If_cases)
  also have "names \<inter> here = here" using sub by blast
  finally have total: "(\<Sum>name \<in> names. case r name of IntC i \<Rightarrow> i | _ \<Rightarrow> 0) = int (card here)" .
  from present cell total show ?thesis
    unfolding Let_def names_def[symmetric] here_def[symmetric] by blast
qed

theorem one_hot_reduction_counterexample:
  "[c \<leftarrow> result_columns (snd (convert_wide_to_hourly test_pandas wide_devices devices_config)).
      prefix ''device_'' c] = [''device_nasal_cannula''] \<and>
   result_column ''device_nasal_cannula''
     (snd (convert_wide_to_hourly test_pandas wide_devices devices_config)) = [IntC 1, IntC 0] \<and>
   map (\<lambda>w. w ''device'') (rows wide_devices) =
     [StrC ''nasal cannula'', StrC ''nasal-cannula'', NaN] \<and>
   map floor_hour (event_times_of (rows wide_devices) ''H1'') =
     [1704103200, 1704103200, 1704106800]"
  by code_simp

theorem one_hot_reduction_witness:
  "''device_nasal_cannula'' \<in>
     set (columns (projr (snd (convert_wide_to_hourly test_pandas wide_devices devices_config)))) \<and>
   hd (rows (projr (snd (convert_wide_to_hourly test_pandas wide_devices devices_config))))
     ''device_nasal_cannula'' = IntC 1"
proof -
  let ?X = "convert_wide_to_hourly test_pandas wide_devices devices_config"
  let ?out = "projr (snd ?X)"
  let ?w = "hd (rows wide_devices)"
  have ok: "\<not> isl (snd ?X)" by code_simp
  have kept: "key_columns_kept test_pandas wide_devices devices_config" by code_simp
  have c: "''device'' \<in> set (one_hot_columns devices_config)"
    "''device'' \<in> set (columns wide_devices)"
    "''device'' \<notin> {''event_time_hour'', ''nth_hour'', ''hour_bucket''}"
    "sanitize ''device'' = ''device''"
    by code_simp+
  have own: "\<forall>w \<in> set (rows wide_devices). w ''device'' \<noteq> NaN \<longrightarrow>
      \<not> written_by_other test_pandas wide_devices devices_config ''device''
          (one_hot_name test_pandas ''device'' (w ''device''))"
    by code_simp
  have len: "length (rows ?out) = 2" by code_simp
  then have r0: "hd (rows ?out) \<in> set (rows ?out)"
    by (auto simp: length_0_conv[symmetric] simp del: length_0_conv)
  have keys: "hd (rows ?out) ''hospitalization_id'' = StrC ''H1''"
    "hd (rows ?out) ''event_time_hour'' = TimeC 1704103200"
    by code_simp+
  have w: "one_hot_name test_pandas ''device'' (?w ''device'') = ''device_nasal_cannula''"
    "?w ''device'' \<noteq> NaN" "?w ''hospitalization_id'' = StrC ''H1''"
    "?w ''event_time'' = TimeC 1704103200" "floor_hour 1704103200 = 1704103200"
    by code_simp+
  have win: "?w \<in> set (rows wide_devices)" by (simp add: wide_devices_def)
  have names: "''device_nasal_cannula'' \<in>
      {one_hot_name test_pandas ''device'' (w ''device'') |w.
         w \<in> set (rows wide_devices) \<and> w ''device'' \<noteq> NaN}"
    using w(1,2) win by (intro CollectI exI[of _ ?w]) simp
  have here: "''device_nasal_cannula'' \<in>
      {one_hot_name test_pandas ''device'' (w ''device'') |w.
         w \<in> set (rows wide_devices) \<and> w ''device'' \<noteq> NaN \<and>
         w ''hospitalization_id'' = hd (rows ?out) ''hospitalization_id'' \<and>
         (\<exists>t. w ''event_time'' = TimeC t \<and>
              hd (rows ?out) ''event_time_hour'' = TimeC (floor_hour t))}"
    using w win keys by (intro CollectI exI[of _ ?w]) simp
  from one_hot_reduction[OF Inr_collapse[OF ok] kept c own r0, unfolded Let_def] names here
  show ?thesis by auto
qed

section \<open>Properties of the wide-dataset builder\<close>

subsection \<open>The rows of the join query\<close>

lemma set_events_for:
  "set (events_for events a) =
     {e. (a ''hospitalization_id'', e) \<in> set events \<and> a ''hospitalization_id'' \<noteq> NaN}"
  by (auto simp: events_for_def)

lemma expanded_rows:
  "rows (expanded_df cohort events) =
     distinct_on (add_col ''combo_id'' (add_col ''event_time'' (columns cohort))) []
       (concat (map (expand_row events) (rows cohort)))"
  by (simp add: expanded_df_def Let_def)

lemma expand_row_keys:
  assumes "r \<in> set (expand_row events a)"
  shows "r ''hospitalization_id'' = a ''hospitalization_id''"
    and "(r ''event_time'' \<in> set (events_for events a)) \<or>
         (events_for events a = [] \<and> r ''event_time'' = NaN)"
proof -
  show "r ''hospitalization_id'' = a ''hospitalization_id''"
    using assms by (cases "events_for events a") (auto simp: expand_row_def)
  show "(r ''event_time'' \<in> set (events_for events a)) \<or>
         (events_for events a = [] \<and> r ''event_time'' = NaN)"
    using assms by (cases "events_for events a") (auto simp: expand_row_def)
qed

lemma expand_row_event:
  assumes "e \<in> set (events_for events a)"
  shows "\<exists>r \<in> set (expand_row events a).
           r ''hospitalization_id'' = a ''hospitalization_id'' \<and> r ''event_time'' = e"
proof (cases "events_for events a")
  case Nil
  with assms show ?thesis by simp
next
  case (Cons x xs)
  let ?r = "a(''event_time'' := e, ''combo_id'' := combo_id (a ''hospitalization_id'') e)"
  have "?r \<in> set (expand_row events a)"
    using assms Cons by (simp add: expand_row_def image_iff) blast
  moreover have "?r ''hospitalization_id'' = a ''hospitalization_id''" "?r ''event_time'' = e"
    by simp_all
  ultimately show ?thesis by blast
qed

lemma expand_row_none:
  assumes "events_for events a = []"
  shows "\<exists>r \<in> set (expand_row events a).
           r ''hospitalization_id'' = a ''hospitalization_id'' \<and> r ''event_time'' = NaN"
  using assms by (simp add: expand_row_def)

lemma distinct_on_sound:
  "r \<in> set (distinct_on cols seen rs) \<Longrightarrow> r \<in> set rs"
  by (induction rs arbitrary: seen) (auto split: if_splits)

lemma distinct_on_complete:
  "r \<in> set rs \<Longrightarrow> map r cols \<notin> set seen \<Longrightarrow>
   \<exists>r' \<in> set (distinct_on cols seen rs). map r' cols = map r cols"
proof (induction rs arbitrary: seen)
  case Nil
  then show ?case by simp
next
  case (Cons x rs)
  show ?case
  proof (cases "map x cols \<in> set seen")
    case True
    with Cons.prems have "r \<in> set rs" by auto
    from Cons.IH[OF this Cons.prems(2)] True show ?thesis by simp
  next
    case False
    show ?thesis
    proof (cases "map r cols = map x cols")
      case True
      with False show ?thesis by auto
    next
      case neq: False
      with Cons.prems have "r \<in> set rs" "map r cols \<notin> set (map x cols # seen)" by auto
      from Cons.IH[OF this] False show ?thesis by auto
    qed
  qed
qed

lemma map_eq_sub: "map r cols = map r' cols \<Longrightarrow> set K \<subseteq> set cols \<Longrightarrow> map r K = map r' K"
  by (auto simp: map_eq_conv)

lemma proj_distinct_on:
  assumes "set K \<subseteq> set cols"
  shows "(\<lambda>r. map r K) ` set (distinct_on cols [] rs) = (\<lambda>r. map r K) ` set rs"
proof (intro set_eqI iffI)
  fix x assume "x \<in> (\<lambda>r. map r K) ` set (distinct_on cols [] rs)"
  then show "x \<in> (\<lambda>r. map r K) ` set rs" using distinct_on_sound by fastforce
next
  fix x assume "x \<in> (\<lambda>r. map r K) ` set rs"
  then obtain r where r: "r \<in> set rs" "x = map r K" by auto
  from distinct_on_complete[OF r(1), of cols "[]"] obtain r' where
    r': "r' \<in> set (distinct_on cols [] rs)" "map r' cols = map r cols" by auto
  from map_eq_sub[OF r'(2) assms] have eq: "map r' K = map r K" .
  from r'(1) have "map r' K \<in> (\<lambda>r. map r K) ` set (distinct_on cols [] rs)"
    by (rule imageI)
  then show "x \<in> (\<lambda>r. map r K) ` set (distinct_on cols [] rs)" unfolding r(2) eq .
qed

lemma proj_drop_duplicates:
  "set K \<subseteq> set (columns df) \<Longrightarrow> proj K (drop_duplicates df) = proj K df"
  by (simp add: proj_def drop_duplicates_def proj_distinct_on)

lemma columns_drop_duplicates: "columns (drop_duplicates df) = columns df"
  by (simp add: drop_duplicates_def)

lemma columns_left_join: "set (columns left) \<subseteq> set (columns (left_join E left right))"
  by (simp add: left_join_def Let_def)

lemma left_join_sound:
  assumes "r \<in> set (rows (left_join E left right))"
  shows "\<exists>l \<in> set (rows left). \<forall>c \<in> set (columns left). r c = l c"
proof -
  from assms obtain l where l: "l \<in> set (rows left)"
    and r: "r \<in> set (case [r \<leftarrow> rows right. l ''combo_id'' \<noteq> NaN \<and> r ''combo_id'' = l ''combo_id''] of
          [] \<Rightarrow> [\<lambda>c. if c \<in> set (columns left) then l c
                     else row_of_dict (zip (join_names E (columns left) [c \<leftarrow> columns right. c \<noteq> ''combo_id''])
                            (map (\<lambda>c. NaN) [c \<leftarrow> columns right. c \<noteq> ''combo_id''])) c]
        | ms \<Rightarrow> map (\<lambda>r c. if c \<in> set (columns left) then l c
                     else row_of_dict (zip (join_names E (columns left) [c \<leftarrow> columns right. c \<noteq> ''combo_id''])
                            (map r [c \<leftarrow> columns right. c \<noteq> ''combo_id''])) c) ms)"
    unfolding left_join_def Let_def by auto
  from r have "\<forall>c \<in> set (columns left). r c = l c"
    by (cases "[r \<leftarrow> rows right. l ''combo_id'' \<noteq> NaN \<and> r ''combo_id'' = l ''combo_id'']") auto
  with l show ?thesis by blast
qed

lemma left_join_complete:
  assumes "l \<in> set (rows left)"
  shows "\<exists>r \<in> set (rows (left_join E left right)). \<forall>c \<in> set (columns left). r c = l c"
proof -
  let ?case = "case [r \<leftarrow> rows right. l ''combo_id'' \<noteq> NaN \<and> r ''combo_id'' = l ''combo_id''] of
          [] \<Rightarrow> [\<lambda>c. if c \<in> set (columns left) then l c
                     else row_of_dict (zip (join_names E (columns left) [c \<leftarrow> columns right. c \<noteq> ''combo_id''])
                            (map (\<lambda>c. NaN) [c \<leftarrow> columns right. c \<noteq> ''combo_id''])) c]
        | ms \<Rightarrow> map (\<lambda>r c. if c \<in> set (columns left) then l c
                     else row_of_dict (zip (join_names E (columns left) [c \<leftarrow> columns right. c \<noteq> ''combo_id''])
                            (map r [c \<leftarrow> columns right. c \<noteq> ''combo_id''])) c) ms"
  have "\<exists>r \<in> set ?case. \<forall>c \<in> set (columns left). r c = l c"
    by (cases "[r \<leftarrow> rows right. l ''combo_id'' \<noteq> NaN \<and> r ''combo_id'' = l ''combo_id'']") auto
  then obtain r where r: "r \<in> set ?case" "\<forall>c \<in> set (columns left). r c = l c" by blast
  from r(1) assms have "r \<in> set (rows (left_join E left right))"
    unfolding left_join_def Let_def by auto
  with r(2) show ?thesis by blast
qed

lemma proj_left_join:
  assumes "set K \<subseteq> set (columns left)"
  shows "proj K (left_join E left right) = proj K left"
proof (intro set_eqI iffI)
  fix x assume "x \<in> proj K (left_join E left right)"
  then obtain r where r: "r \<in> set (rows (left_join E left right))" "x = map r K"
    by (auto simp: proj_def)
  from left_join_sound[OF r(1)] obtain l where l: "l \<in> set (rows left)"
    "\<forall>c \<in> set (columns left). r c = l c" by blast
  with assms have "map r K = map l K" by auto
  with l(1) r(2) show "x \<in> proj K left" by (auto simp: proj_def)
next
  fix x assume "x \<in> proj K left"
  then obtain l where l: "l \<in> set (rows left)" "x = map l K" by (auto simp: proj_def)
  from left_join_complete[OF l(1), of E right] obtain r where
    r: "r \<in> set (rows (left_join E left right))" "\<forall>c \<in> set (columns left). r c = l c" by blast
  with assms have eq: "map r K = map l K" by auto
  from r(1) have "map r K \<in> proj K (left_join E left right)"
    unfolding proj_def by (rule imageI)
  then show "x \<in> proj K (left_join E left right)" unfolding l(2) eq .
qed

lemma proj_fold_left_join:
  assumes "set K \<subseteq> set (columns left)"
  shows "proj K (fold (\<lambda>right left. left_join E left right) rights left) = proj K left \<and>
         set (columns left) \<subseteq>
           set (columns (fold (\<lambda>right left. left_join E left right) rights left))"
  using assms
proof (induction rights arbitrary: left)
  case Nil
  then show ?case by simp
next
  case (Cons right rights)
  from Cons.prems columns_left_join[of left E right]
  have sub: "set K \<subseteq> set (columns (left_join E left right))" by blast
  from Cons.IH[OF sub] proj_left_join[OF Cons.prems] columns_left_join[of left E right]
  show ?case by auto
qed

lemma columns_expanded:
  "set (columns (expanded_df cohort events)) =
     set (columns cohort) \<union> {''event_time'', ''combo_id''}"
  by (auto simp: expanded_df_def Let_def add_col_def)

lemma event_key_expanded:
  "''hospitalization_id'' \<in> set (columns cohort) \<Longrightarrow>
   set event_key \<subseteq> set (columns (expanded_df cohort events))"
  by (simp add: columns_expanded event_key_def)

lemma proj_expanded:
  assumes "''hospitalization_id'' \<in> set (columns cohort)"
  shows "proj event_key (expanded_df cohort events) =
         (\<lambda>r. map r event_key) ` set (concat (map (expand_row events) (rows cohort)))"
proof -
  have "set event_key \<subseteq> set (add_col ''combo_id'' (add_col ''event_time'' (columns cohort)))"
    using assms by (auto simp: event_key_def add_col_def)
  then show ?thesis
    by (simp add: proj_def expanded_rows proj_distinct_on)
qed

text \<open>What a successful join query returns, up to the other columns.\<close>

lemma join_all_D:
  assumes "join_all E cohort adt_f events reg optional_tables = Inr joined"
  shows "proj event_key joined =
           (\<lambda>r. map r event_key) ` set (concat (map (expand_row events) (rows cohort)))"
    and "set (columns (expanded_df cohort events)) \<subseteq> set (columns joined)"
proof -
  from assms have h: "''hospitalization_id'' \<in> set (columns cohort)"
    by (auto simp: join_all_def Let_def split: if_splits)
  define rights where "rights = with_combo ''in_dttm'' adt_f # map snd (pivoted_tables reg) @
      map (\<lambda>(table_name, timestamp_col, raw). with_combo timestamp_col raw)
        (raw_joins reg optional_tables)"
  from assms have
    j: "joined = fold (\<lambda>right left. left_join E left right) rights (expanded_df cohort events)"
    by (simp add: join_all_def Let_def rights_def split: if_splits)
  from proj_fold_left_join[OF event_key_expanded[OF h], of E rights events]
  show "proj event_key joined =
           (\<lambda>r. map r event_key) ` set (concat (map (expand_row events) (rows cohort)))"
    and "set (columns (expanded_df cohort events)) \<subseteq> set (columns joined)"
    by (simp_all add: j proj_expanded[OF h])
qed

subsection \<open>The timestamp column of labs\<close>

lemma resolve_timestamp_labs:
  "resolve_timestamp ''labs'' cols =
     Some (if ''lab_result_dttm'' \<in> set cols then ''lab_result_dttm''
           else if ''lab_collect_dttm'' \<in> set cols then ''lab_collect_dttm''
           else if ''recorded_dttm'' \<in> set cols then ''recorded_dttm''
           else if ''lab_order_dttm'' \<in> set cols then ''lab_order_dttm''
           else ''lab_result_dttm'')"
  by (simp add: resolve_timestamp_def get_timestamp_column_def)

text \<open>
  C8. The order of the fallbacks is as claimed (\<open>resolve_timestamp_labs\<close>). With none of
  the four columns in the loaded table, the first loop skips labs, but the second loop
  (lines 198 to 232) finds \<open>labs_raw\<close> registered and not pivoted, and adds the CTE
  \<open>labs_with_combo\<close> over \<open>lab_result_dttm\<close>, which the table does not have: the engine
  rejects the join query and the build aborts. Without labs among the optional tables the
  same input builds.
\<close>

theorem labs_without_timestamp_aborts:
  "error_of (create_wide_dataset test_pandas test_engine labs_clif (Some [''labs'']) None None) =
     Some BinderError \<and>
   error_of (create_wide_dataset test_pandas test_engine labs_clif (Some []) None None) = None"
  by code_simp

subsection \<open>A row with a null event time\<close>

lemma Inr_projr: "\<not> isl x \<Longrightarrow> x = Inr (projr x)"
  by (cases x) simp_all

lemma those_None: "None \<in> set xs \<Longrightarrow> those xs = None"
  by (induction xs) (auto split: option.splits)

lemma those_length: "those xs = Some ys \<Longrightarrow> length ys = length xs"
  by (induction xs arbitrary: ys) (auto split: option.splits)

lemma day_numbering_null:
  assumes "r \<in> set (rows df)" and "r ''event_time'' = NaN"
  shows "day_numbering P df = Inl IntCastingNaNError"
proof -
  let ?S = "sort_key event_sort_key (rows df)"
  from assms(1) have "r \<in> set ?S" by simp
  moreover from assms(2) have "dense_rank ?S r = None"
    by (simp add: dense_rank_def ts_of_def split: option.splits)
  ultimately have "None \<in> set (map (dense_rank ?S) ?S)" by force
  then have "those (map (dense_rank ?S) ?S) = None" by (rule those_None)
  then show ?thesis by (simp add: day_numbering_def Let_def)
qed

lemma join_all_null_row:
  assumes j: "join_all E cohort adt_f events reg optional_tables = Inr joined"
    and a: "a \<in> set (rows cohort)" and e: "events_for events a = []"
  shows "\<exists>r \<in> set (rows (drop_duplicates joined)). r ''event_time'' = NaN"
proof -
  from j have h: "''hospitalization_id'' \<in> set (columns cohort)"
    by (auto simp: join_all_def Let_def split: if_splits)
  from expand_row_none[OF e] obtain x where x: "x \<in> set (expand_row events a)"
    "x ''event_time'' = NaN" by blast
  from x(1) a have "x \<in> set (concat (map (expand_row events) (rows cohort)))" by auto
  then have "map x event_key \<in> proj event_key joined"
    unfolding join_all_D(1)[OF j] by (rule imageI)
  moreover have "set event_key \<subseteq> set (columns joined)"
    using event_key_expanded[OF h, of events] join_all_D(2)[OF j] by blast
  ultimately have "map x event_key \<in> proj event_key (drop_duplicates joined)"
    by (simp add: proj_drop_duplicates)
  then obtain r where r: "r \<in> set (rows (drop_duplicates joined))"
    "map r event_key = map x event_key" by (auto simp: proj_def)
  from r(2) x(2) have "r ''event_time'' = NaN" by (simp add: event_key_def)
  with r(1) show ?thesis by blast
qed

subsection \<open>The requested columns\<close>

lemma add_categories_columns:
  "\<exists>new. columns (add_categories cats df) = columns df @ new \<and>
         set new = set cats - set (columns df)"
proof (induction cats arbitrary: df)
  case Nil
  then show ?case by simp
next
  case (Cons category cats)
  show ?case
  proof (cases "category \<in> set (columns df)")
    case True
    from Cons.IH[of df] True show ?thesis by auto
  next
    case False
    let ?df = "\<lparr>columns = columns df @ [category],
                rows = map (\<lambda>r. r(category := NaN)) (rows df)\<rparr>"
    from Cons.IH[of ?df] obtain new where
      new: "columns (add_categories cats ?df) = columns ?df @ new"
      "set new = set cats - set (columns ?df)" by blast
    from new False have "columns (add_categories (category # cats) df) =
        columns df @ (category # new)" by simp
    moreover from new(2) False have "set (category # new) =
        set (category # cats) - set (columns df)" by auto
    ultimately show ?thesis by blast
  qed
qed

lemma add_categories_rows:
  "rows (add_categories cats df) =
     map (\<lambda>r c. if c \<in> set cats \<and> c \<notin> set (columns df) then NaN else r c) (rows df)"
proof (induction cats arbitrary: df)
  case Nil
  then show ?case by (simp add: map_idI)
next
  case (Cons category cats)
  show ?case
  proof (cases "category \<in> set (columns df)")
    case True
    from Cons.IH[of df] True show ?thesis by (auto simp: fun_eq_iff)
  next
    case False
    let ?df = "\<lparr>columns = columns df @ [category],
                rows = map (\<lambda>r. r(category := NaN)) (rows df)\<rparr>"
    from Cons.IH[of ?df] False show ?thesis by (auto simp: fun_eq_iff)
  qed
qed

lemma requested_Cons:
  "requested ((t, cats) # f) ots = (if t \<in> set ots then set cats else {}) \<union> requested f ots"
  by (simp add: requested_def)

lemma add_missing_filters_columns:
  "\<exists>new. columns (add_missing_filters f ots df) = columns df @ new \<and>
         set new = requested f ots - set (columns df)"
proof (induction f arbitrary: df)
  case Nil
  then show ?case by (simp add: requested_def)
next
  case (Cons e f)
  obtain t cats where e: "e = (t, cats)" by (cases e)
  show ?case
  proof (cases "t \<in> set ots")
    case False
    from Cons.IH[of df] False show ?thesis by (simp add: e requested_Cons)
  next
    case True
    from add_categories_columns[of cats df] obtain n1 where
      n1: "columns (add_categories cats df) = columns df @ n1"
      "set n1 = set cats - set (columns df)" by blast
    from Cons.IH[of "add_categories cats df"] obtain n2 where
      n2: "columns (add_missing_filters f ots (add_categories cats df)) =
             columns (add_categories cats df) @ n2"
      "set n2 = requested f ots - set (columns (add_categories cats df))" by blast
    from n1 n2 True have "columns (add_missing_filters (e # f) ots df) = columns df @ (n1 @ n2)"
      by (simp add: e)
    moreover from n1 n2 True have "set (n1 @ n2) = requested (e # f) ots - set (columns df)"
      by (auto simp: e requested_Cons)
    ultimately show ?thesis by blast
  qed
qed

lemma add_missing_filters_rows:
  "rows (add_missing_filters f ots df) =
     map (\<lambda>r c. if c \<in> requested f ots \<and> c \<notin> set (columns df) then NaN else r c) (rows df)"
proof (induction f arbitrary: df)
  case Nil
  then show ?case by (simp add: requested_def map_idI)
next
  case (Cons e f)
  obtain t cats where e: "e = (t, cats)" by (cases e)
  show ?case
  proof (cases "t \<in> set ots")
    case False
    from Cons.IH[of df] False show ?thesis by (simp add: e requested_Cons)
  next
    case True
    from add_categories_columns[of cats df] obtain n1 where
      n1: "columns (add_categories cats df) = columns df @ n1"
      "set n1 = set cats - set (columns df)" by blast
    from Cons.IH[of "add_categories cats df"] True n1
    show ?thesis
      by (auto simp: e requested_Cons add_categories_rows fun_eq_iff)
  qed
qed

lemma day_numbering_D:
  assumes "day_numbering P df = Inr out"
  shows "columns out = add_col ''hosp_id_day_key'' (add_col ''day_number''
                         (add_col ''date'' (columns df)))"
    and "\<lbrakk>''date'' \<notin> set K; ''day_number'' \<notin> set K; ''hosp_id_day_key'' \<notin> set K\<rbrakk>
         \<Longrightarrow> proj K out = proj K df"
proof -
  let ?S = "sort_key event_sort_key (rows df)"
  from assms obtain ranks where ranks: "those (map (dense_rank ?S) ?S) = Some ranks"
    by (auto simp: day_numbering_def Let_def split: option.splits)
  define upd where "upd = (\<lambda>(r :: 'a row, n :: int).
      r(''date'' := (case ts_of (r ''event_time'') of
                      Some t \<Rightarrow> TimeC (86400 * (t div 86400)) | None \<Rightarrow> NaN),
        ''day_number'' := IntC n,
        ''hosp_id_day_key'' := StrC (py_str P (r ''hospitalization_id'') @ ''_day_'' @
                                     py_str P (IntC n))))"
  from assms ranks have out: "out = \<lparr>columns = add_col ''hosp_id_day_key'' (add_col ''day_number''
                         (add_col ''date'' (columns df))), rows = map upd (zip ?S ranks)\<rparr>"
    by (simp add: day_numbering_def Let_def upd_def)
  show "columns out = add_col ''hosp_id_day_key'' (add_col ''day_number''
                         (add_col ''date'' (columns df)))"
    by (simp add: out)
  assume K: "''date'' \<notin> set K" "''day_number'' \<notin> set K" "''hosp_id_day_key'' \<notin> set K"
  have len: "length ranks = length ?S" using those_length[OF ranks] by simp
  have same: "map (upd x) K = map (fst x) K" for x
    using K by (cases x) (auto simp: upd_def)
  have "proj K out = (\<lambda>x. map (fst x) K) ` set (zip ?S ranks)"
    by (simp add: proj_def out image_image same)
  also have "\<dots> = (\<lambda>r. map r K) ` fst ` set (zip ?S ranks)"
    by (simp add: image_image)
  also have "fst ` set (zip ?S ranks) = set ?S"
    using len by (metis map_fst_zip set_map)
  also have "(\<lambda>r. map r K) ` set ?S = proj K df"
    by (simp add: proj_def)
  finally show "proj K out = proj K df" .
qed

lemma final_df_D:
  assumes "final_df P E p ots = Inr df"
  shows "''combo_id'' \<in> set (columns df)" and "''date'' \<in> set (columns df)"
    and "set event_key \<subseteq> set (columns df)"
    and "proj event_key df =
           (\<lambda>r. map r event_key) `
             set (concat (map (expand_row (all_event_times p)) (rows (base_cohort p))))"
    and "\<forall>a \<in> set (rows (base_cohort p)). events_for (all_event_times p) a \<noteq> []"
proof -
  from assms obtain joined where
    j: "join_all E (base_cohort p) (adt_df p) (all_event_times p) (registry p) ots = Inr joined"
    and d: "day_numbering P (drop_duplicates joined) = Inr df"
    by (auto simp: final_df_def split: sum.splits)
  from j have h: "''hospitalization_id'' \<in> set (columns (base_cohort p))"
    by (auto simp: join_all_def Let_def split: if_splits)
  have cols: "set (columns (expanded_df (base_cohort p) (all_event_times p)))
                \<subseteq> set (columns joined)"
    by (rule join_all_D(2)[OF j])
  have sub: "set (columns joined) \<subseteq> set (columns df)"
    by (auto simp: day_numbering_D(1)[OF d] columns_drop_duplicates add_col_def)
  from cols sub show "''combo_id'' \<in> set (columns df)"
    by (auto simp: columns_expanded)
  show "''date'' \<in> set (columns df)"
    by (auto simp: day_numbering_D(1)[OF d] add_col_def)
  have ek: "set event_key \<subseteq> set (columns joined)"
    using event_key_expanded[OF h, of "all_event_times p"] cols by blast
  with sub show "set event_key \<subseteq> set (columns df)" by blast
  have "proj event_key df = proj event_key (drop_duplicates joined)"
    by (rule day_numbering_D(2)[OF d]) (simp_all add: event_key_def)
  also have "\<dots> = proj event_key joined"
    using ek by (simp add: proj_drop_duplicates)
  finally show "proj event_key df =
           (\<lambda>r. map r event_key) `
             set (concat (map (expand_row (all_event_times p)) (rows (base_cohort p))))"
    by (simp add: join_all_D(1)[OF j])
  show "\<forall>a \<in> set (rows (base_cohort p)). events_for (all_event_times p) a \<noteq> []"
  proof (intro ballI notI)
    fix a assume a: "a \<in> set (rows (base_cohort p))" "events_for (all_event_times p) a = []"
    from join_all_null_row[OF j a] obtain r where
      "r \<in> set (rows (drop_duplicates joined))" "r ''event_time'' = NaN" by blast
    then have "day_numbering P (drop_duplicates joined) = Inl IntCastingNaNError"
      by (rule day_numbering_null)
    with d show False by simp
  qed
qed

lemma map_of_filter_fst:
  "k \<noteq> t \<Longrightarrow> map_of [e \<leftarrow> f. fst e \<noteq> t] k = map_of f k"
  by (induction f) auto

lemma pivot_filters_other:
  "table_name \<noteq> t \<Longrightarrow>
   pivot_table_duckdb E table_name ts (Some [e \<leftarrow> f. fst e \<noteq> t]) raw =
   pivot_table_duckdb E table_name ts (Some f) raw"
  by (simp add: pivot_table_duckdb_def map_of_filter_fst
      cong: option.case_cong if_cong prod.case_cong)

lemma process_table_other:
  "table_name \<noteq> t \<Longrightarrow>
   process_table E clif (Some [e \<leftarrow> f. fst e \<noteq> t]) req table_name reg =
   process_table E clif (Some f) req table_name reg"
  by (simp add: process_table_def pivot_filters_other
      cong: option.case_cong sum.case_cong if_cong)

lemma process_tables_other:
  "t \<notin> set ots \<Longrightarrow>
   process_tables E clif (Some [e \<leftarrow> f. fst e \<noteq> t]) req ots reg =
   process_tables E clif (Some f) req ots reg"
  by (induction ots arbitrary: reg) (auto simp: process_table_other split: sum.splits)

lemma prepare_other:
  "t \<notin> set (optional_list ot) \<Longrightarrow>
   prepare E clif ot (Some [e \<leftarrow> f. fst e \<noteq> t]) ids = prepare E clif ot (Some f) ids"
  by (simp add: prepare_def process_tables_other Let_def split: sum.splits)

lemma add_missing_filters_other:
  "t \<notin> set ots \<Longrightarrow>
   add_missing_filters [e \<leftarrow> f. fst e \<noteq> t] ots df = add_missing_filters f ots df"
  by (induction f arbitrary: df) auto

text \<open>A filter entry for a table that is not among the optional tables changes nothing.\<close>

lemma unrequested_filter_ignored:
  assumes "t \<notin> set (optional_list ot)"
  shows "create_wide_dataset P E clif ot (Some [e \<leftarrow> f. fst e \<noteq> t]) ids =
         create_wide_dataset P E clif ot (Some f) ids"
proof -
  have "add_missing_columns df (Some [e \<leftarrow> f. fst e \<noteq> t]) ot =
        add_missing_columns df (Some f) ot" for df :: "'a frame"
    by (simp add: add_missing_columns_def add_missing_filters_other[OF assms])
  then show ?thesis
    by (simp add: create_wide_dataset_def prepare_other[OF assms] split: sum.splits)
qed

lemma requested_I:
  "(t, cats) \<in> set f \<Longrightarrow> c \<in> set cats \<Longrightarrow> t \<in> set ots \<Longrightarrow> c \<in> requested f ots"
  by (force simp: requested_def)

text \<open>
  C7. The call goes through the join and \<open>df\<close> is the joined output as it is handed to
  \<open>_add_missing_columns\<close>. For an entry \<open>(t, cats)\<close> of the filters and a category \<open>c\<close> of
  it: if \<open>t\<close> is among the optional tables and \<open>df\<close> has no column \<open>c\<close>, the result has the
  columns of \<open>df\<close> (but \<open>combo_id\<close> and \<open>date\<close>) followed by new ones, \<open>c\<close> is among the new
  ones and every row is null there; if \<open>t\<close> is not among the optional tables, the call gives
  what it gives without the entry.
\<close>

theorem ghost_columns:
  assumes prep: "prepare E clif ot (Some f) ids = Inr p"
    and q: "all_queries p \<noteq> []"
    and fin: "final_df P E p (optional_list ot) = Inr df"
    and entry: "(t, cats) \<in> set f" "c \<in> set cats"
  shows "(t \<in> set (optional_list ot) \<and> c \<notin> set (columns df) \<longrightarrow>
            (\<exists>out new. create_wide_dataset P E clif ot (Some f) ids = Inr out \<and>
               columns out = [x \<leftarrow> columns df. x \<notin> set [''combo_id'', ''date'']] @ new \<and>
               c \<in> set new \<and> (\<forall>r \<in> set (rows out). r c = NaN))) \<and>
         (t \<notin> set (optional_list ot) \<longrightarrow>
            create_wide_dataset P E clif ot (Some [e \<leftarrow> f. fst e \<noteq> t]) ids =
            create_wide_dataset P E clif ot (Some f) ids)"
proof (intro conjI impI)
  assume "t \<notin> set (optional_list ot)"
  then show "create_wide_dataset P E clif ot (Some [e \<leftarrow> f. fst e \<noteq> t]) ids =
             create_wide_dataset P E clif ot (Some f) ids"
    by (rule unrequested_filter_ignored)
next
  assume a: "t \<in> set (optional_list ot) \<and> c \<notin> set (columns df)"
  let ?ots = "optional_list ot"
  let ?amf = "add_missing_filters f ?ots df"
  let ?out = "drop_columns [''combo_id'', ''date''] ?amf"
  from prep q fin have res: "create_wide_dataset P E clif ot (Some f) ids = Inr ?out"
    by (simp add: create_wide_dataset_def add_missing_columns_def)
  from add_missing_filters_columns[of f ?ots df] obtain new where
    new: "columns ?amf = columns df @ new" "set new = requested f ?ots - set (columns df)"
    by blast
  from a entry have creq: "c \<in> requested f ?ots" by (auto intro: requested_I)
  from a final_df_D(1,2)[OF fin] have cne: "c \<noteq> ''combo_id''" "c \<noteq> ''date''" by auto
  let ?new = "[x \<leftarrow> new. x \<notin> set [''combo_id'', ''date'']]"
  have "columns ?out = [x \<leftarrow> columns df. x \<notin> set [''combo_id'', ''date'']] @ ?new"
    by (simp add: drop_columns_def new(1))
  moreover from creq a cne new(2) have "c \<in> set ?new" by simp
  moreover have "\<forall>r \<in> set (rows ?out). r c = NaN"
    using creq a by (auto simp: drop_columns_def add_missing_filters_rows)
  ultimately show "\<exists>out new. create_wide_dataset P E clif ot (Some f) ids = Inr out \<and>
               columns out = [x \<leftarrow> columns df. x \<notin> set [''combo_id'', ''date'']] @ new \<and>
               c \<in> set new \<and> (\<forall>r \<in> set (rows out). r c = NaN)"
    using res by blast
qed

theorem ghost_columns_witness:
  "(\<exists>out new. create_wide_dataset test_pandas test_engine s2_clif (Some [''vitals''])
                 (Some ghost_filters) None = Inr out \<and>
      columns out = [''hospitalization_id'', ''patient_id'', ''event_time'',
                     ''hospitalization_id_1'', ''in_dttm'', ''location_category'',
                     ''heart_rate'', ''day_number'', ''hosp_id_day_key''] @ new \<and>
      ''map'' \<in> set new \<and> list_all (\<lambda>r. r ''map'' = NaN) (rows out)) \<and>
   create_wide_dataset test_pandas test_engine s2_clif (Some [''vitals''])
     (Some [e \<leftarrow> ghost_filters. fst e \<noteq> ''labs'']) None =
   create_wide_dataset test_pandas test_engine s2_clif (Some [''vitals''])
     (Some ghost_filters) None"
proof -
  let ?p = "prepare test_engine s2_clif (Some [''vitals'']) (Some ghost_filters) None"
  let ?df = "final_df test_pandas test_engine (projr ?p) (optional_list (Some [''vitals'']))"
  have ok: "\<not> isl ?p" by code_simp
  have q: "all_queries (projr ?p) \<noteq> []" by code_simp
  have fin: "\<not> isl ?df" by code_simp
  have e1: "(''vitals'', [''heart_rate'', ''map'']) \<in> set ghost_filters" by code_simp
  have e2: "(''labs'', [''sodium'']) \<in> set ghost_filters" by code_simp
  have c1: "''vitals'' \<in> set (optional_list (Some [''vitals''])) \<and>
            ''map'' \<notin> set (columns (projr ?df))" by code_simp
  have c2: "''labs'' \<notin> set (optional_list (Some [''vitals'']))" by code_simp
  have cols: "[x \<leftarrow> columns (projr ?df). x \<notin> set [''combo_id'', ''date'']] =
      [''hospitalization_id'', ''patient_id'', ''event_time'',
       ''hospitalization_id_1'', ''in_dttm'', ''location_category'',
       ''heart_rate'', ''day_number'', ''hosp_id_day_key'']" by code_simp
  from ghost_columns[OF Inr_projr[OF ok] q Inr_projr[OF fin] e1, where c = "''map''"] c1
  have "\<exists>out new. create_wide_dataset test_pandas test_engine s2_clif (Some [''vitals''])
                 (Some ghost_filters) None = Inr out \<and>
      columns out = [''hospitalization_id'', ''patient_id'', ''event_time'',
                     ''hospitalization_id_1'', ''in_dttm'', ''location_category'',
                     ''heart_rate'', ''day_number'', ''hosp_id_day_key''] @ new \<and>
      ''map'' \<in> set new \<and> list_all (\<lambda>r. r ''map'' = NaN) (rows out)"
    unfolding cols list_all_iff by simp
  moreover
  from ghost_columns[OF Inr_projr[OF ok] q Inr_projr[OF fin] e2, where c = "''sodium''"] c2
  have "create_wide_dataset test_pandas test_engine s2_clif (Some [''vitals''])
     (Some [e \<leftarrow> ghost_filters. fst e \<noteq> ''labs'']) None =
   create_wide_dataset test_pandas test_engine s2_clif (Some [''vitals''])
     (Some ghost_filters) None" by simp
  ultimately show ?thesis by (rule conjI)
qed

subsection \<open>The key columns through the last steps\<close>

lemma expand_row_proj:
  assumes "events_for events a \<noteq> []"
  shows "(\<lambda>r. map r event_key) ` set (expand_row events a) =
         (\<lambda>e. [a ''hospitalization_id'', e]) ` set (events_for events a)"
proof (cases "events_for events a")
  case Nil
  with assms show ?thesis by simp
next
  case (Cons x xs)
  then show ?thesis
    by (simp add: expand_row_def event_key_def image_image)
qed

lemma proj_add_missing_filters:
  assumes "set K \<subseteq> set (columns df)"
  shows "proj K (add_missing_filters f ots df) = proj K df"
proof -
  have eq: "(\<lambda>r :: 'a row. map (\<lambda>c. if c \<in> requested f ots \<and> c \<notin> set (columns df)
                                        then NaN else r c) K) = (\<lambda>r. map r K)"
    using assms by (auto simp: fun_eq_iff)
  show ?thesis
    unfolding proj_def add_missing_filters_rows set_map image_image eq ..
qed

lemma proj_add_missing_columns:
  "set K \<subseteq> set (columns df) \<Longrightarrow> proj K (add_missing_columns df cf ot) = proj K df"
  by (simp add: add_missing_columns_def proj_add_missing_filters split: option.splits)

lemma proj_drop_columns:
  assumes "set K \<inter> set cs = {}"
  shows "proj K (drop_columns cs df) = proj K df"
proof -
  have eq: "(\<lambda>r :: 'a row. map (\<lambda>c. if c \<in> set cs then NaN else r c) K) = (\<lambda>r. map r K)"
    using assms by (auto simp: fun_eq_iff)
  have rs: "rows (drop_columns cs df) = map (\<lambda>r c. if c \<in> set cs then NaN else r c) (rows df)"
    by (simp add: drop_columns_def)
  show ?thesis
    unfolding proj_def rs set_map image_image eq ..
qed

subsection \<open>What the preparation leaves\<close>

lemma isin_filter_D:
  assumes "isin_filter ids df = Inr out"
  shows "''hospitalization_id'' \<in> set (columns df)"
    and "columns out = columns df"
    and "rows out = [r \<leftarrow> rows df. r ''hospitalization_id'' \<in> set ids]"
  using assms by (auto simp: isin_filter_def split: if_splits)

lemma filter_hospitalizations_D:
  assumes "filter_hospitalizations ids (hospitalization clif_instance) = Inr hdf"
  shows "''hospitalization_id'' \<in> set (columns hdf)"
    and "rows hdf = cohort_hospitalizations clif_instance ids"
  using assms
  by (auto simp: filter_hospitalizations_def isin_filter_def cohort_hospitalizations_def
      split: option.splits if_splits)

text \<open>The event-time query that one pass of the first loop appends.\<close>

lemma process_table_queries:
  assumes "process_table E clif_instance cf req table_name reg = Inr reg'"
  shows "event_time_queries reg' = event_time_queries reg @
           (case event_source clif_instance table_name of
              None \<Rightarrow> []
            | Some (timestamp_col, table_obj) \<Rightarrow>
                [event_query timestamp_col
                   (table_obj\<lparr>rows := [r \<leftarrow> rows table_obj. r ''hospitalization_id'' \<in> set req]\<rparr>)])"
proof (cases "tables clif_instance (if table_name \<noteq> ''labs'' then table_name else ''lab'')")
  case None
  with assms show ?thesis by (simp add: process_table_def event_source_def Let_def)
next
  case (Some table_obj)
  with assms obtain table_df where f: "isin_filter req table_obj = Inr table_df"
    by (auto simp: process_table_def Let_def split: sum.splits)
  from f have df: "table_df = table_obj\<lparr>rows := [r \<leftarrow> rows table_obj. r ''hospitalization_id'' \<in> set req]\<rparr>"
    by (auto simp: isin_filter_def split: if_splits)
  have cols: "columns table_df = columns table_obj" by (simp add: df)
  show ?thesis
  proof (cases "resolve_timestamp table_name (columns table_obj)")
    case None
    with assms Some f cols show ?thesis
      by (auto simp: process_table_def event_source_def Let_def)
  next
    case ts: (Some timestamp_col)
    show ?thesis
    proof (cases "timestamp_col \<in> set (columns table_obj)")
      case False
      with assms Some f cols ts show ?thesis
        by (auto simp: process_table_def event_source_def Let_def)
    next
      case True
      with assms Some f cols ts show ?thesis
        by (auto simp: process_table_def event_source_def Let_def df
            split: option.splits if_splits)
    qed
  qed
qed

lemma process_tables_queries:
  assumes "process_tables E clif_instance cf req ots reg = Inr reg'"
  shows "event_time_queries reg' = event_time_queries reg @
           concat (map (\<lambda>table_name.
             case event_source clif_instance table_name of
               None \<Rightarrow> []
             | Some (timestamp_col, table_obj) \<Rightarrow>
                 [event_query timestamp_col
                    (table_obj\<lparr>rows := [r \<leftarrow> rows table_obj. r ''hospitalization_id'' \<in> set req]\<rparr>)])
             ots)"
  using assms
proof (induction ots arbitrary: reg)
  case Nil
  then show ?case by simp
next
  case (Cons table_name ots)
  from Cons.prems obtain reg1 where
    r1: "process_table E clif_instance cf req table_name reg = Inr reg1"
    and r2: "process_tables E clif_instance cf req ots reg1 = Inr reg'"
    by (auto split: sum.splits)
  from Cons.IH[OF r2] process_table_queries[OF r1] show ?case by simp
qed

lemma prepare_D:
  assumes "prepare E clif_instance ot cf ids = Inr p"
  obtains hdf where
    "''hospitalization_id'' \<in> set (columns hdf)"
    "rows hdf = cohort_hospitalizations clif_instance ids"
    "adt_df p = (adt clif_instance)\<lparr>rows :=
        [r \<leftarrow> rows (adt clif_instance).
           r ''hospitalization_id'' \<in>
             (\<lambda>h. h ''hospitalization_id'') ` set (cohort_hospitalizations clif_instance ids)]\<rparr>"
    "merge_inner ''patient_id'' hdf (patient clif_instance) = Inr (base_cohort p)"
    "process_tables E clif_instance cf
       (unique (map (\<lambda>r. r ''hospitalization_id'') (cohort_hospitalizations clif_instance ids)))
       (optional_list ot) \<lparr>event_time_queries = [], pivoted_tables = [], raw_tables = []\<rparr> =
     Inr (registry p)"
proof -
  from assms obtain hdf where
    h: "filter_hospitalizations ids (hospitalization clif_instance) = Inr hdf"
    by (auto simp: prepare_def split: sum.splits)
  let ?req = "unique (map (\<lambda>r. r ''hospitalization_id'') (rows hdf))"
  from assms h obtain adt_f where a: "isin_filter ?req (adt clif_instance) = Inr adt_f"
    by (auto simp: prepare_def Let_def split: sum.splits)
  from assms h a obtain cohort where
    m: "merge_inner ''patient_id'' hdf (patient clif_instance) = Inr cohort"
    by (auto simp: prepare_def Let_def split: sum.splits)
  from assms h a m obtain reg where
    r: "process_tables E clif_instance cf ?req (optional_list ot)
          \<lparr>event_time_queries = [], pivoted_tables = [], raw_tables = []\<rparr> = Inr reg"
    by (auto simp: prepare_def Let_def split: sum.splits)
  from assms h a m r have p: "p = \<lparr>base_cohort = cohort, adt_df = adt_f, registry = reg\<rparr>"
    by (simp add: prepare_def Let_def)
  note hd = filter_hospitalizations_D[OF h]
  from a have "adt_f = (adt clif_instance)\<lparr>rows :=
      [r \<leftarrow> rows (adt clif_instance). r ''hospitalization_id'' \<in> set ?req]\<rparr>"
    by (auto simp: isin_filter_def split: if_splits)
  then have adt: "adt_df p = (adt clif_instance)\<lparr>rows :=
        [r \<leftarrow> rows (adt clif_instance).
           r ''hospitalization_id'' \<in>
             (\<lambda>h. h ''hospitalization_id'') ` set (cohort_hospitalizations clif_instance ids)]\<rparr>"
    by (simp add: p set_unique hd(2))
  show thesis
    by (rule that[OF hd(1) hd(2) adt]) (use m r in \<open>simp_all add: p hd(2)\<close>)
qed

subsection \<open>The rows of the cohort\<close>

lemma not_x_suffix: "c @ ''_x'' \<noteq> ''hospitalization_id''"
proof
  assume "c @ ''_x'' = ''hospitalization_id''"
  then have "last (c @ ''_x'') = last ''hospitalization_id''" by simp
  then show False by simp
qed

lemma not_y_suffix: "c @ ''_y'' \<noteq> ''hospitalization_id''"
proof
  assume "c @ ''_y'' = ''hospitalization_id''"
  then have "last (c @ ''_y'') = last ''hospitalization_id''" by simp
  then show False by simp
qed

lemma map_of_renamed:
  assumes "k \<in> set cols" and "f k = k" and "\<forall>c \<in> set cols. f c = k \<longrightarrow> c = k"
  shows "map_of (map (\<lambda>c. (f c, l c)) cols @ rest) k = Some (l k)"
  using assms by (induction cols) auto

text \<open>The inner merge keeps a hospitalization once for each of its patient rows. When the
  cohort has a column \<open>hospitalization_id\<close>, the patient table has none and the column is
  the one of the hospitalization table.\<close>

lemma merge_inner_ids:
  assumes m: "merge_inner ''patient_id'' hdf pat = Inr cohort"
    and h: "''hospitalization_id'' \<in> set (columns hdf)"
    and c: "''hospitalization_id'' \<in> set (columns cohort)"
  shows "(\<lambda>a. a ''hospitalization_id'') ` set (rows cohort) =
         (\<lambda>l. l ''hospitalization_id'') `
           {l \<in> set (rows hdf). \<exists>pr \<in> set (rows pat). pr ''patient_id'' = l ''patient_id''}"
proof -
  let ?key = "''patient_id''"
  let ?hid = "''hospitalization_id''"
  let ?rcols = "[c \<leftarrow> columns pat. c \<noteq> ?key]"
  let ?lname = "\<lambda>c. if c \<noteq> ?key \<and> c \<in> set (columns pat) then c @ ''_x'' else c"
  let ?rname = "\<lambda>c. if c \<in> set (columns hdf) then c @ ''_y'' else c"
  from m have cols: "columns cohort = map ?lname (columns hdf) @ map ?rname ?rcols"
    and rows: "rows cohort = concat (map (\<lambda>l. map (\<lambda>r. row_of_dict
                                  (map (\<lambda>c. (?lname c, l c)) (columns hdf) @
                                   map (\<lambda>c. (?rname c, r c)) ?rcols))
                                [r \<leftarrow> rows pat. r ?key = l ?key]) (rows hdf))"
    by (auto simp: merge_inner_def Let_def split: if_splits)
  have np: "?hid \<notin> set (columns pat)"
  proof
    assume inp: "?hid \<in> set (columns pat)"
    from c cols have "?hid \<in> ?lname ` set (columns hdf) \<or> ?hid \<in> ?rname ` set ?rcols"
      by auto
    then show False
    proof
      assume "?hid \<in> ?lname ` set (columns hdf)"
      then obtain x where x: "x \<in> set (columns hdf)" "?hid = ?lname x" by blast
      show False
      proof (cases "x \<noteq> ?key \<and> x \<in> set (columns pat)")
        case True
        with x(2) have "x @ ''_x'' = ?hid" by simp
        with not_x_suffix show False by blast
      next
        case False
        with x(2) have "x = ?hid" by (simp split: if_splits)
        with False inp show False by simp
      qed
    next
      assume "?hid \<in> ?rname ` set ?rcols"
      then obtain x where x: "x \<in> set ?rcols" "?hid = ?rname x" by blast
      show False
      proof (cases "x \<in> set (columns hdf)")
        case True
        with x(2) have "x @ ''_y'' = ?hid" by simp
        with not_y_suffix show False by blast
      next
        case False
        with x(2) have "x = ?hid" by simp
        with False h show False by simp
      qed
    qed
  qed
  have val: "row_of_dict (map (\<lambda>c. (?lname c, l c)) (columns hdf) @ rest) ?hid = l ?hid"
    for l :: "'a row" and rest
  proof -
    have "map_of (map (\<lambda>c. (?lname c, l c)) (columns hdf) @ rest) ?hid = Some (l ?hid)"
    proof (rule map_of_renamed[OF h])
      show "?lname ?hid = ?hid" using np by simp
      show "\<forall>c \<in> set (columns hdf). ?lname c = ?hid \<longrightarrow> c = ?hid"
        using not_x_suffix by (auto split: if_splits)
    qed
    then show ?thesis by (simp add: row_of_dict_def)
  qed
  show ?thesis
  proof (intro set_eqI iffI)
    fix v assume "v \<in> (\<lambda>a. a ?hid) ` set (rows cohort)"
    then obtain a where a: "a \<in> set (rows cohort)" "v = a ?hid" by blast
    from a(1) obtain l r where lr: "l \<in> set (rows hdf)" "r \<in> set (rows pat)" "r ?key = l ?key"
      "a = row_of_dict (map (\<lambda>c. (?lname c, l c)) (columns hdf) @
                        map (\<lambda>c. (?rname c, r c)) ?rcols)"
      unfolding rows by auto
    from lr(4) have "a ?hid = l ?hid" by (simp only: val)
    with a(2) lr(1,2,3) show "v \<in> (\<lambda>l. l ?hid) `
           {l \<in> set (rows hdf). \<exists>pr \<in> set (rows pat). pr ?key = l ?key}" by blast
  next
    fix v assume "v \<in> (\<lambda>l. l ?hid) `
           {l \<in> set (rows hdf). \<exists>pr \<in> set (rows pat). pr ?key = l ?key}"
    then obtain l r where lr: "l \<in> set (rows hdf)" "r \<in> set (rows pat)" "r ?key = l ?key"
      "v = l ?hid" by blast
    define a where "a = row_of_dict (map (\<lambda>c. (?lname c, l c)) (columns hdf) @
                           map (\<lambda>c. (?rname c, r c)) ?rcols)"
    from lr(1,2,3) have "a \<in> set (rows cohort)" unfolding rows a_def by auto
    then have "a ?hid \<in> (\<lambda>a. a ?hid) ` set (rows cohort)" by (rule imageI)
    moreover have "a ?hid = l ?hid" unfolding a_def by (simp only: val)
    ultimately show "v \<in> (\<lambda>a. a ?hid) ` set (rows cohort)" unfolding lr(4) by simp
  qed
qed

subsection \<open>The event times of a hospitalization\<close>

lemma set_event_query:
  "set (event_query timestamp_col df) =
     {(r ''hospitalization_id'', r timestamp_col) |r. r \<in> set (rows df) \<and> r timestamp_col \<noteq> NaN}"
  by (auto simp: event_query_def set_unique)

lemma all_queries_D:
  assumes "prepare E clif_instance ot cf ids = Inr p"
  shows "all_queries p =
     (if ''in_dttm'' \<in> set (columns (adt clif_instance))
      then [event_query ''in_dttm'' (adt_df p)] else []) @
     concat (map (\<lambda>table_name.
             case event_source clif_instance table_name of
               None \<Rightarrow> []
             | Some (timestamp_col, table_obj) \<Rightarrow>
                 [event_query timestamp_col
                    (table_obj\<lparr>rows := [r \<leftarrow> rows table_obj. r ''hospitalization_id'' \<in>
                       set (unique (map (\<lambda>r. r ''hospitalization_id'')
                              (cohort_hospitalizations clif_instance ids)))]\<rparr>)])
             (optional_list ot))"
proof -
  from assms obtain hdf where
    adt: "adt_df p = (adt clif_instance)\<lparr>rows :=
        [r \<leftarrow> rows (adt clif_instance).
           r ''hospitalization_id'' \<in>
             (\<lambda>h. h ''hospitalization_id'') ` set (cohort_hospitalizations clif_instance ids)]\<rparr>"
    and reg: "process_tables E clif_instance cf
       (unique (map (\<lambda>r. r ''hospitalization_id'') (cohort_hospitalizations clif_instance ids)))
       (optional_list ot) \<lparr>event_time_queries = [], pivoted_tables = [], raw_tables = []\<rparr> =
     Inr (registry p)"
    by (rule prepare_D)
  have cols: "columns (adt_df p) = columns (adt clif_instance)" by (simp add: adt)
  show ?thesis
    unfolding all_queries_def cols process_tables_queries[OF reg] by simp
qed

text \<open>At least one source contributes an event-time query.\<close>

lemma all_queries_sources:
  assumes "prepare E clif_instance ot cf ids = Inr p"
  shows "all_queries p \<noteq> [] \<longleftrightarrow> event_sources clif_instance (optional_list ot) \<noteq> []"
  unfolding all_queries_D[OF assms] event_sources_def
  by (auto simp: filter_empty_conv split: option.splits)

lemma in_case_source:
  "y \<in> set (case x of None \<Rightarrow> [] | Some (a, b) \<Rightarrow> F a b) \<longleftrightarrow>
     (\<exists>a b. x = Some (a, b) \<and> y \<in> set (F a b))"
  by (cases x) auto

lemma table_events:
  "(hv, e) \<in> \<Union> (set ` set (concat (map (\<lambda>table_name.
             case event_source clif_instance table_name of
               None \<Rightarrow> []
             | Some (timestamp_col, table_obj) \<Rightarrow>
                 [event_query timestamp_col
                    (table_obj\<lparr>rows := [r \<leftarrow> rows table_obj. r ''hospitalization_id'' \<in> R]\<rparr>)])
             ots))) \<longleftrightarrow>
   (\<exists>table_name \<in> set ots. \<exists>timestamp_col table_obj.
      event_source clif_instance table_name = Some (timestamp_col, table_obj) \<and>
      (\<exists>r \<in> set (rows table_obj). r ''hospitalization_id'' \<in> R \<and>
         r ''hospitalization_id'' = hv \<and> r timestamp_col = e \<and> e \<noteq> NaN))"
proof -
  define G where "G = (\<lambda>timestamp_col (table_obj :: 'a frame).
      [event_query timestamp_col
         (table_obj\<lparr>rows := [r \<leftarrow> rows table_obj. r ''hospitalization_id'' \<in> R]\<rparr>)])"
  have "(hv, e) \<in> \<Union> (set ` set (concat (map (\<lambda>table_name.
             case event_source clif_instance table_name of
               None \<Rightarrow> [] | Some (timestamp_col, table_obj) \<Rightarrow> G timestamp_col table_obj)
             ots))) \<longleftrightarrow>
        (\<exists>table_name \<in> set ots. \<exists>q. q \<in> set (case event_source clif_instance table_name of
               None \<Rightarrow> [] | Some (timestamp_col, table_obj) \<Rightarrow> G timestamp_col table_obj) \<and>
            (hv, e) \<in> set q)"
    by auto
  also have "\<dots> \<longleftrightarrow> (\<exists>table_name \<in> set ots. \<exists>timestamp_col table_obj.
      event_source clif_instance table_name = Some (timestamp_col, table_obj) \<and>
      (hv, e) \<in> set (event_query timestamp_col
         (table_obj\<lparr>rows := [r \<leftarrow> rows table_obj. r ''hospitalization_id'' \<in> R]\<rparr>)))"
    unfolding in_case_source by (auto simp: G_def)
  also have "\<dots> \<longleftrightarrow> (\<exists>table_name \<in> set ots. \<exists>timestamp_col table_obj.
      event_source clif_instance table_name = Some (timestamp_col, table_obj) \<and>
      (\<exists>r \<in> set (rows table_obj). r ''hospitalization_id'' \<in> R \<and>
         r ''hospitalization_id'' = hv \<and> r timestamp_col = e \<and> e \<noteq> NaN))"
    unfolding set_event_query by (simp add: Bex_def) blast+
  finally show ?thesis unfolding G_def .
qed

lemma event_timestamps_iff:
  "e \<in> set (event_timestamps clif_instance ots hv) \<longleftrightarrow>
     hv \<noteq> NaN \<and>
     ((''in_dttm'' \<in> set (columns (adt clif_instance)) \<and>
       (\<exists>r \<in> set (rows (adt clif_instance)).
          r ''hospitalization_id'' = hv \<and> r ''in_dttm'' = e \<and> e \<noteq> NaN)) \<or>
      (\<exists>table_name \<in> set ots. \<exists>timestamp_col table_obj.
         event_source clif_instance table_name = Some (timestamp_col, table_obj) \<and>
         (\<exists>r \<in> set (rows table_obj).
            r ''hospitalization_id'' = hv \<and> r timestamp_col = e \<and> e \<noteq> NaN)))"
proof -
  define F where "F = (\<lambda>timestamp_col (table_obj :: 'a frame).
      [r timestamp_col. r \<leftarrow> rows table_obj, r ''hospitalization_id'' = hv,
                        r timestamp_col \<noteq> NaN])"
  have tab: "e \<in> set (concat (map (\<lambda>table_name.
                   case event_source clif_instance table_name of
                     None \<Rightarrow> [] | Some (timestamp_col, table_obj) \<Rightarrow> F timestamp_col table_obj)
                 ots)) \<longleftrightarrow>
      (\<exists>table_name \<in> set ots. \<exists>timestamp_col table_obj.
         event_source clif_instance table_name = Some (timestamp_col, table_obj) \<and>
         (\<exists>r \<in> set (rows table_obj).
            r ''hospitalization_id'' = hv \<and> r timestamp_col = e \<and> e \<noteq> NaN))"
  proof -
    have "e \<in> set (concat (map (\<lambda>table_name.
                   case event_source clif_instance table_name of
                     None \<Rightarrow> [] | Some (timestamp_col, table_obj) \<Rightarrow> F timestamp_col table_obj)
                 ots)) \<longleftrightarrow>
          (\<exists>table_name \<in> set ots. e \<in> set (case event_source clif_instance table_name of
                     None \<Rightarrow> [] | Some (timestamp_col, table_obj) \<Rightarrow> F timestamp_col table_obj))"
      by auto
    also have "\<dots> \<longleftrightarrow> (\<exists>table_name \<in> set ots. \<exists>timestamp_col table_obj.
         event_source clif_instance table_name = Some (timestamp_col, table_obj) \<and>
         e \<in> set (F timestamp_col table_obj))"
      unfolding in_case_source ..
    also have "\<dots> \<longleftrightarrow> (\<exists>table_name \<in> set ots. \<exists>timestamp_col table_obj.
         event_source clif_instance table_name = Some (timestamp_col, table_obj) \<and>
         (\<exists>r \<in> set (rows table_obj).
            r ''hospitalization_id'' = hv \<and> r timestamp_col = e \<and> e \<noteq> NaN))"
      unfolding F_def by (simp add: Bex_def) blast+
    finally show ?thesis .
  qed
  have adt: "e \<in> set [r ''in_dttm''. r \<leftarrow> rows (adt clif_instance),
                         r ''hospitalization_id'' = hv, r ''in_dttm'' \<noteq> NaN] \<longleftrightarrow>
       (\<exists>r \<in> set (rows (adt clif_instance)).
          r ''hospitalization_id'' = hv \<and> r ''in_dttm'' = e \<and> e \<noteq> NaN)"
    by auto
  show ?thesis
    unfolding event_timestamps_def F_def[symmetric]
    using tab adt by (simp del: set_concat)
qed

lemma events_of_hospitalization:
  assumes prep: "prepare E clif_instance ot cf ids = Inr p"
    and hv: "hv \<in> (\<lambda>h. h ''hospitalization_id'') ` set (cohort_hospitalizations clif_instance ids)"
  shows "{e. (hv, e) \<in> set (all_event_times p) \<and> hv \<noteq> NaN} =
         set (event_timestamps clif_instance (optional_list ot) hv)"
proof -
  let ?R = "(\<lambda>h. h ''hospitalization_id'') ` set (cohort_hospitalizations clif_instance ids)"
  from prep obtain hdf where
    adt: "adt_df p = (adt clif_instance)\<lparr>rows :=
        [r \<leftarrow> rows (adt clif_instance). r ''hospitalization_id'' \<in> ?R]\<rparr>"
    by (rule prepare_D)
  have R: "set (unique (map (\<lambda>r. r ''hospitalization_id'')
                   (cohort_hospitalizations clif_instance ids))) = ?R"
    by (simp add: set_unique)
  have mem: "(hv, e) \<in> set (all_event_times p) \<longleftrightarrow>
      (''in_dttm'' \<in> set (columns (adt clif_instance)) \<and>
       (\<exists>r \<in> set (rows (adt clif_instance)).
          r ''hospitalization_id'' = hv \<and> r ''in_dttm'' = e \<and> e \<noteq> NaN)) \<or>
      (\<exists>table_name \<in> set (optional_list ot). \<exists>timestamp_col table_obj.
         event_source clif_instance table_name = Some (timestamp_col, table_obj) \<and>
         (\<exists>r \<in> set (rows table_obj).
            r ''hospitalization_id'' = hv \<and> r timestamp_col = e \<and> e \<noteq> NaN))" for e
  proof -
    have "(hv, e) \<in> set (all_event_times p) \<longleftrightarrow>
        (hv, e) \<in> \<Union> (set ` set (if ''in_dttm'' \<in> set (columns (adt clif_instance))
                                  then [event_query ''in_dttm'' (adt_df p)] else [])) \<or>
        (hv, e) \<in> \<Union> (set ` set (concat (map (\<lambda>table_name.
             case event_source clif_instance table_name of
               None \<Rightarrow> []
             | Some (timestamp_col, table_obj) \<Rightarrow>
                 [event_query timestamp_col
                    (table_obj\<lparr>rows := [r \<leftarrow> rows table_obj. r ''hospitalization_id'' \<in> ?R]\<rparr>)])
             (optional_list ot))))"
      unfolding all_event_times_def set_unique all_queries_D[OF prep] R by auto
    also have "(hv, e) \<in> \<Union> (set ` set (if ''in_dttm'' \<in> set (columns (adt clif_instance))
                                  then [event_query ''in_dttm'' (adt_df p)] else [])) \<longleftrightarrow>
       (''in_dttm'' \<in> set (columns (adt clif_instance)) \<and>
       (\<exists>r \<in> set (rows (adt clif_instance)).
          r ''hospitalization_id'' = hv \<and> r ''in_dttm'' = e \<and> e \<noteq> NaN))"
      using hv by (simp add: set_event_query adt) blast
    finally show ?thesis unfolding table_events using hv by blast
  qed
  show ?thesis
  proof (rule set_eqI)
    fix e
    show "e \<in> {e. (hv, e) \<in> set (all_event_times p) \<and> hv \<noteq> NaN} \<longleftrightarrow>
          e \<in> set (event_timestamps clif_instance (optional_list ot) hv)"
      unfolding event_timestamps_iff mem_Collect_eq mem by blast
  qed
qed

subsection \<open>A hospitalization without an event time\<close>

lemma cohort_ids:
  assumes prep: "prepare E clif_instance ot cf ids = Inr p"
    and c: "''hospitalization_id'' \<in> set (columns (base_cohort p))"
  shows "(\<lambda>a. a ''hospitalization_id'') ` set (rows (base_cohort p)) =
         (\<lambda>h. h ''hospitalization_id'') `
           {h \<in> set (cohort_hospitalizations clif_instance ids). has_patient clif_instance h}"
proof -
  from prep obtain hdf where h: "''hospitalization_id'' \<in> set (columns hdf)"
    and r: "rows hdf = cohort_hospitalizations clif_instance ids"
    and m: "merge_inner ''patient_id'' hdf (patient clif_instance) = Inr (base_cohort p)"
    by (rule prepare_D)
  from merge_inner_ids[OF m h c] show ?thesis
    by (simp add: r has_patient_def)
qed

lemma cohort_events_keys:
  assumes prep: "prepare E clif_instance ot cf ids = Inr p"
    and c: "''hospitalization_id'' \<in> set (columns (base_cohort p))"
  shows "set (cohort_events p) = set (wide_keys clif_instance (optional_list ot) ids)"
proof -
  let ?H = "{h \<in> set (cohort_hospitalizations clif_instance ids). has_patient clif_instance h}"
  let ?ev = "\<lambda>v. set (event_timestamps clif_instance (optional_list ot) v)"
  have ev: "set (events_for (all_event_times p) a) = ?ev (a ''hospitalization_id'')"
    if "a ''hospitalization_id'' \<in> (\<lambda>h. h ''hospitalization_id'') ` ?H" for a
  proof -
    from that have "a ''hospitalization_id'' \<in>
        (\<lambda>h. h ''hospitalization_id'') ` set (cohort_hospitalizations clif_instance ids)"
      by blast
    from events_of_hospitalization[OF prep this] show ?thesis
      by (simp add: set_events_for)
  qed
  have "set (cohort_events p) =
        (\<Union>a \<in> set (rows (base_cohort p)).
           (\<lambda>e. [a ''hospitalization_id'', e]) ` set (events_for (all_event_times p) a))"
    by (auto simp: cohort_events_def)
  also have "\<dots> = (\<Union>a \<in> set (rows (base_cohort p)).
           (\<lambda>e. [a ''hospitalization_id'', e]) ` ?ev (a ''hospitalization_id''))"
  proof (rule SUP_cong[OF refl])
    fix a assume "a \<in> set (rows (base_cohort p))"
    then have "a ''hospitalization_id'' \<in> (\<lambda>h. h ''hospitalization_id'') ` ?H"
      unfolding cohort_ids[OF prep c, symmetric] by (rule imageI)
    then show "(\<lambda>e. [a ''hospitalization_id'', e]) ` set (events_for (all_event_times p) a) =
               (\<lambda>e. [a ''hospitalization_id'', e]) ` ?ev (a ''hospitalization_id'')"
      by (simp only: ev)
  qed
  also have "\<dots> = (\<Union>v \<in> (\<lambda>a. a ''hospitalization_id'') ` set (rows (base_cohort p)).
                      (\<lambda>e. [v, e]) ` ?ev v)"
    by blast
  also have "\<dots> = (\<Union>v \<in> (\<lambda>h. h ''hospitalization_id'') ` ?H. (\<lambda>e. [v, e]) ` ?ev v)"
    unfolding cohort_ids[OF prep c] ..
  also have "\<dots> = set (wide_keys clif_instance (optional_list ot) ids)"
    by (auto simp: wide_keys_def)
  finally show ?thesis .
qed

text \<open>
  C10, as the code has it. At least one source contributes an event-time query, the
  preparation raises nothing, and a hospitalization of the cohort that has a patient row
  (the inner merge of line 70 drops a hospitalization without one) has no event time in
  any source: the call does not return a wide table. When the engine rejects the join
  query (line 236), that is the error; otherwise the left join keeps the row of the
  hospitalization with a null \<open>event_time\<close>, its rank is null, and the cast of
  \<open>day_number\<close> to \<open>int\<close> raises (line 242).
\<close>

theorem hospitalization_without_event_time:
  assumes prep: "prepare E clif_instance optional_tables category_filters hospitalization_ids = Inr p"
    and src: "event_sources clif_instance (optional_list optional_tables) \<noteq> []"
    and h: "\<exists>h \<in> set (cohort_hospitalizations clif_instance hospitalization_ids).
              has_patient clif_instance h \<and>
              event_timestamps clif_instance (optional_list optional_tables)
                (h ''hospitalization_id'') = []"
  shows "create_wide_dataset P E clif_instance optional_tables category_filters hospitalization_ids =
           (case join_all E (base_cohort p) (adt_df p) (all_event_times p) (registry p)
                   (optional_list optional_tables) of
              Inl e \<Rightarrow> Inl e
            | Inr joined \<Rightarrow> Inl IntCastingNaNError)"
proof (cases "join_all E (base_cohort p) (adt_df p) (all_event_times p) (registry p)
                (optional_list optional_tables)")
  case (Inl e)
  from src have q: "all_queries p \<noteq> []" by (simp add: all_queries_sources[OF prep])
  with Inl prep show ?thesis by (simp add: create_wide_dataset_def final_df_def)
next
  case (Inr joined)
  from src have q: "all_queries p \<noteq> []" by (simp add: all_queries_sources[OF prep])
  from Inr have c: "''hospitalization_id'' \<in> set (columns (base_cohort p))"
    by (auto simp: join_all_def Let_def split: if_splits)
  from h obtain h0 where h0: "h0 \<in> set (cohort_hospitalizations clif_instance hospitalization_ids)"
    "has_patient clif_instance h0"
    "event_timestamps clif_instance (optional_list optional_tables)
       (h0 ''hospitalization_id'') = []" by blast
  from h0(1,2) have "h0 ''hospitalization_id'' \<in> (\<lambda>h. h ''hospitalization_id'') `
      {h \<in> set (cohort_hospitalizations clif_instance hospitalization_ids).
         has_patient clif_instance h}" by blast
  then obtain a where a: "a \<in> set (rows (base_cohort p))"
    "a ''hospitalization_id'' = h0 ''hospitalization_id''"
    unfolding cohort_ids[OF prep c, symmetric] by auto
  from h0(1) a(2) have "a ''hospitalization_id'' \<in> (\<lambda>h. h ''hospitalization_id'') `
      set (cohort_hospitalizations clif_instance hospitalization_ids)" by auto
  from events_of_hospitalization[OF prep this] h0(3) a(2)
  have "set (events_for (all_event_times p) a) = {}" by (simp add: set_events_for)
  then have e: "events_for (all_event_times p) a = []" by simp
  from join_all_null_row[OF Inr a(1) e] obtain r where
    "r \<in> set (rows (drop_duplicates joined))" "r ''event_time'' = NaN" by blast
  then have "day_numbering P (drop_duplicates joined) = Inl IntCastingNaNError"
    by (rule day_numbering_null)
  with Inr prep q show ?thesis by (simp add: create_wide_dataset_def final_df_def)
qed

theorem hospitalization_without_event_time_witness:
  "create_wide_dataset test_pandas test_engine quiet_clif (Some [''vitals'']) None None =
     Inl IntCastingNaNError"
proof -
  let ?p = "prepare test_engine quiet_clif (Some [''vitals'']) None None"
  have ok: "\<not> isl ?p" by code_simp
  have src: "event_sources quiet_clif (optional_list (Some [''vitals''])) \<noteq> []" by code_simp
  have h: "\<exists>h \<in> set (cohort_hospitalizations quiet_clif None).
             has_patient quiet_clif h \<and>
             event_timestamps quiet_clif (optional_list (Some [''vitals'']))
               (h ''hospitalization_id'') = []" by code_simp
  have j: "\<not> isl (join_all test_engine (base_cohort (projr ?p)) (adt_df (projr ?p))
             (all_event_times (projr ?p)) (registry (projr ?p)) (optional_list (Some [''vitals''])))"
    by code_simp
  from hospitalization_without_event_time[OF Inr_projr[OF ok] src h, of test_pandas] j
  show ?thesis by (simp split: sum.splits)
qed

theorem hospitalization_without_event_time_counterexample:
  "map (\<lambda>h. h ''hospitalization_id'') (cohort_hospitalizations orphan_clif None) =
     [StrC ''H1'', StrC ''H2''] \<and>
   event_sources orphan_clif [''vitals''] = [''adt'', ''vitals''] \<and>
   event_timestamps orphan_clif [''vitals''] (StrC ''H2'') = [] \<and>
   map (has_patient orphan_clif) (cohort_hospitalizations orphan_clif None) = [True, False] \<and>
   error_of (create_wide_dataset test_pandas test_engine orphan_clif (Some [''vitals''])
               None None) = None \<and>
   result_column ''hospitalization_id''
     (create_wide_dataset test_pandas test_engine orphan_clif (Some [''vitals'']) None None) =
     [StrC ''H1'', StrC ''H1'', StrC ''H1''] \<and>
   map (has_patient quiet_labs_clif) (cohort_hospitalizations quiet_labs_clif None) =
     [True, True] \<and>
   event_timestamps quiet_labs_clif [''labs''] (StrC ''H2'') = [] \<and>
   error_of (create_wide_dataset test_pandas test_engine quiet_labs_clif (Some [''labs''])
               None None) = Some BinderError"
  by code_simp

subsection \<open>The minute of an event time\<close>

lemma day_of_minute: "(t :: int) div 86400 = t div 60 div 1440"
  using zdiv_zmult2_eq[of 1440 t 60] by simp

lemma hour_of_minute: "(t :: int) mod 86400 div 3600 = t div 60 mod 1440 div 60"
proof -
  have "t mod 86400 = 60 * (t div 60 mod 1440) + t mod 60"
    using zmod_zmult2_eq[of 1440 t 60] by simp
  moreover have "(60 * x + t mod 60) div 3600 = x div 60" for x :: int
  proof -
    have "(60 * x + t mod 60) div 3600 = (60 * x + t mod 60) div 60 div 60"
      using zdiv_zmult2_eq[of 60 "60 * x + t mod 60" 60] by simp
    also have "(60 * x + t mod 60) div 60 = x" by simp
    finally show ?thesis .
  qed
  ultimately show ?thesis by simp
qed

lemma minute_of_minute: "(t :: int) mod 3600 div 60 = t div 60 mod 60"
proof -
  have "t mod 3600 = 60 * (t div 60 mod 60) + t mod 60"
    using zmod_zmult2_eq[of 60 t 60] by simp
  then show ?thesis by simp
qed

text \<open>\<open>strftime(t, '%Y%m%d%H%M')\<close> depends on the minute of \<open>t\<close> only.\<close>

lemma strftime_minute_cong:
  assumes "t div 60 = t' div 60"
  shows "strftime_minute t = strftime_minute t'"
  unfolding strftime_minute_def day_of_minute hour_of_minute minute_of_minute assms ..

lemma same_day: "t div 60 = t' div 60 \<Longrightarrow> (t :: int) div 86400 = t' div 86400"
  by (simp add: day_of_minute)

lemma combo_id_cong:
  "t div 60 = t' div 60 \<Longrightarrow> combo_id h (TimeC t) = combo_id h (TimeC t')"
  by (simp add: combo_id_def ts_of_def strftime_minute_cong[of t t'] split: option.splits)

subsection \<open>Rows of one minute\<close>

lemma events_for_cong:
  assumes "a ''hospitalization_id'' = b ''hospitalization_id''"
  shows "events_for events a = events_for events b"
  unfolding events_for_def assms ..

lemma expand_row_D:
  assumes "r \<in> set (expand_row events a)" and "r ''event_time'' = TimeC t"
  shows "TimeC t \<in> set (events_for events a)"
    and "r = a(''event_time'' := TimeC t,
               ''combo_id'' := combo_id (a ''hospitalization_id'') (TimeC t))"
proof -
  from assms have "TimeC t \<in> set (events_for events a) \<and>
      r = a(''event_time'' := TimeC t,
            ''combo_id'' := combo_id (a ''hospitalization_id'') (TimeC t))"
    by (cases "events_for events a") (auto simp: expand_row_def)
  then show "TimeC t \<in> set (events_for events a)"
    and "r = a(''event_time'' := TimeC t,
               ''combo_id'' := combo_id (a ''hospitalization_id'') (TimeC t))"
    by simp_all
qed

lemma expand_row_I:
  assumes "e \<in> set (events_for events a)"
  shows "a(''event_time'' := e, ''combo_id'' := combo_id (a ''hospitalization_id'') e)
           \<in> set (expand_row events a)"
  using assms by (cases "events_for events a") (auto simp: expand_row_def)

lemma minute_rows_expanded: "minute_rows (expanded_df cohort events)"
  unfolding minute_rows_def
proof (intro ballI allI impI)
  fix r x t t'
  let ?cols = "add_col ''combo_id'' (add_col ''event_time'' (columns cohort))"
  let ?all = "concat (map (expand_row events) (rows cohort))"
  assume r: "r \<in> set (rows (expanded_df cohort events))"
    and x: "x \<in> set (rows (expanded_df cohort events))"
    and h: "r ''event_time'' = TimeC t \<and> x ''event_time'' = TimeC t' \<and>
            x ''hospitalization_id'' = r ''hospitalization_id'' \<and> t div 60 = t' div 60"
  have cols: "columns (expanded_df cohort events) = ?cols"
    by (simp add: expanded_df_def Let_def)
  from r have "r \<in> set ?all" unfolding expanded_rows by (rule distinct_on_sound)
  then obtain a where a: "a \<in> set (rows cohort)" "r \<in> set (expand_row events a)" by auto
  from x have "x \<in> set ?all" unfolding expanded_rows by (rule distinct_on_sound)
  then obtain b where b: "b \<in> set (rows cohort)" "x \<in> set (expand_row events b)" by auto
  from h have rt: "r ''event_time'' = TimeC t" and xt: "x ''event_time'' = TimeC t'"
    and xh: "x ''hospitalization_id'' = r ''hospitalization_id''" and m: "t div 60 = t' div 60"
    by simp_all
  note rd = expand_row_D[OF a(2) rt]
  note xd = expand_row_D[OF b(2) xt]
  from rd(2) have rh: "r ''hospitalization_id'' = a ''hospitalization_id''" by simp
  from xd(2) have "x ''hospitalization_id'' = b ''hospitalization_id''" by simp
  with xh rh have "a ''hospitalization_id'' = b ''hospitalization_id''" by simp
  from events_for_cong[where a=a and b=b and events=events, OF this] xd(1)
  have "TimeC t' \<in> set (events_for events a)" by simp
  define y where "y = a(''event_time'' := TimeC t',
               ''combo_id'' := combo_id (a ''hospitalization_id'') (TimeC t'))"
  from expand_row_I[OF \<open>TimeC t' \<in> set (events_for events a)\<close>]
  have "y \<in> set (expand_row events a)" by (simp add: y_def)
  with a(1) have yin: "y \<in> set ?all" by auto
  have yt: "y ''event_time'' = TimeC t'" by (simp add: y_def)
  have yc: "c \<noteq> ''event_time'' \<Longrightarrow> y c = r c" for c
    unfolding y_def using rd(2) combo_id_cong[OF m, of "a ''hospitalization_id''"] by simp
  from distinct_on_complete[OF yin, of ?cols "[]"] obtain r' where
    r': "r' \<in> set (distinct_on ?cols [] ?all)" "map r' ?cols = map y ?cols" by auto
  from r'(2) have eq: "\<forall>c \<in> set ?cols. r' c = y c" by simp
  have "''event_time'' \<in> set ?cols" by (simp add: add_col_def)
  with eq yt have "r' ''event_time'' = TimeC t'" by simp
  moreover from eq yc have "\<forall>c \<in> set ?cols. c \<noteq> ''event_time'' \<longrightarrow> r' c = r c" by simp
  ultimately show "\<exists>r' \<in> set (rows (expanded_df cohort events)). r' ''event_time'' = TimeC t' \<and>
           (\<forall>c \<in> set (columns (expanded_df cohort events)). c \<noteq> ''event_time'' \<longrightarrow> r' c = r c)"
    unfolding cols expanded_rows using r'(1) by blast
qed

subsection \<open>Rows of one minute through the join\<close>

text \<open>A row of the left join: a left row with the columns of one of its matches, or with
  nulls when it has none.\<close>

lemma left_join_rows_iff:
  "r \<in> set (rows (left_join E left right)) \<longleftrightarrow>
     (\<exists>l \<in> set (rows left). \<exists>m.
        (m \<in> set [x \<leftarrow> rows right. l ''combo_id'' \<noteq> NaN \<and> x ''combo_id'' = l ''combo_id''] \<or>
         [x \<leftarrow> rows right. l ''combo_id'' \<noteq> NaN \<and> x ''combo_id'' = l ''combo_id''] = [] \<and>
         m = (\<lambda>c. NaN)) \<and>
        r = (\<lambda>c. if c \<in> set (columns left) then l c
                 else row_of_dict (zip (join_names E (columns left)
                                          [c \<leftarrow> columns right. c \<noteq> ''combo_id''])
                                       (map m [c \<leftarrow> columns right. c \<noteq> ''combo_id''])) c))"
proof -
  define rcols where "rcols = [c \<leftarrow> columns right. c \<noteq> ''combo_id'']"
  define names where "names = join_names E (columns left) rcols"
  define ext where "ext = (\<lambda>(l :: 'a row) (m :: 'a row) c.
      if c \<in> set (columns left) then l c else row_of_dict (zip names (map m rcols)) c)"
  define ms where "ms = (\<lambda>l :: 'a row.
      [x \<leftarrow> rows right. l ''combo_id'' \<noteq> NaN \<and> x ''combo_id'' = l ''combo_id''])"
  have rows: "rows (left_join E left right) =
      concat (map (\<lambda>l. case ms l of [] \<Rightarrow> [ext l (\<lambda>c. NaN)] | x # xs \<Rightarrow> map (ext l) (x # xs))
                  (rows left))"
    unfolding left_join_def Let_def rcols_def names_def ext_def ms_def by simp
  have one: "r \<in> set (case ms l of [] \<Rightarrow> [ext l (\<lambda>c. NaN)] | x # xs \<Rightarrow> map (ext l) (x # xs)) \<longleftrightarrow>
      (\<exists>m. (m \<in> set (ms l) \<or> ms l = [] \<and> m = (\<lambda>c. NaN)) \<and> r = ext l m)" for l
    by (cases "ms l") auto
  have "r \<in> set (rows (left_join E left right)) \<longleftrightarrow>
      (\<exists>l \<in> set (rows left). \<exists>m. (m \<in> set (ms l) \<or> ms l = [] \<and> m = (\<lambda>c. NaN)) \<and> r = ext l m)"
    unfolding rows by (simp add: one)
  then show ?thesis
    unfolding ms_def ext_def names_def rcols_def .
qed

lemma minute_rows_left_join:
  assumes mr: "minute_rows left"
    and cols: "''hospitalization_id'' \<in> set (columns left)" "''event_time'' \<in> set (columns left)"
      "''combo_id'' \<in> set (columns left)"
  shows "minute_rows (left_join E left right)"
  unfolding minute_rows_def
proof (intro ballI allI impI)
  fix r x t t'
  assume r: "r \<in> set (rows (left_join E left right))"
    and x: "x \<in> set (rows (left_join E left right))"
    and h: "r ''event_time'' = TimeC t \<and> x ''event_time'' = TimeC t' \<and>
            x ''hospitalization_id'' = r ''hospitalization_id'' \<and> t div 60 = t' div 60"
  define D where "D = (\<lambda>m :: 'a row. row_of_dict (zip (join_names E (columns left)
                                          [c \<leftarrow> columns right. c \<noteq> ''combo_id''])
                                       (map m [c \<leftarrow> columns right. c \<noteq> ''combo_id''])))"
  define ms where "ms = (\<lambda>k :: 'a cell. [x \<leftarrow> rows right. k \<noteq> NaN \<and> x ''combo_id'' = k])"
  have iff: "r \<in> set (rows (left_join E left right)) \<longleftrightarrow>
     (\<exists>l \<in> set (rows left). \<exists>m.
        (m \<in> set (ms (l ''combo_id'')) \<or> ms (l ''combo_id'') = [] \<and> m = (\<lambda>c. NaN)) \<and>
        r = (\<lambda>c. if c \<in> set (columns left) then l c else D m c))" for r
    unfolding left_join_rows_iff D_def ms_def ..
  from r obtain l m where l: "l \<in> set (rows left)"
    and m: "m \<in> set (ms (l ''combo_id'')) \<or> ms (l ''combo_id'') = [] \<and> m = (\<lambda>c. NaN)"
    and rd: "r = (\<lambda>c. if c \<in> set (columns left) then l c else D m c)"
    unfolding iff by blast
  from x obtain lx mx where lx: "lx \<in> set (rows left)"
    and xd: "x = (\<lambda>c. if c \<in> set (columns left) then lx c else D mx c)"
    unfolding iff by blast
  from h rd xd cols have "l ''event_time'' = TimeC t \<and> lx ''event_time'' = TimeC t' \<and>
      lx ''hospitalization_id'' = l ''hospitalization_id'' \<and> t div 60 = t' div 60"
    by simp
  with mr l lx obtain l' where l': "l' \<in> set (rows left)" "l' ''event_time'' = TimeC t'"
    "\<forall>c \<in> set (columns left). c \<noteq> ''event_time'' \<longrightarrow> l' c = l c"
    unfolding minute_rows_def by blast
  from l'(3) cols(3) have k: "l' ''combo_id'' = l ''combo_id''" by simp
  define r' where "r' = (\<lambda>c. if c \<in> set (columns left) then l' c else D m c)"
  from l'(1) m have "r' \<in> set (rows (left_join E left right))"
    unfolding iff r'_def k[symmetric] by blast
  moreover from l'(2) cols(2) have "r' ''event_time'' = TimeC t'" by (simp add: r'_def)
  moreover from l'(3) have "\<forall>c. c \<noteq> ''event_time'' \<longrightarrow> r' c = r c"
    by (simp add: r'_def rd)
  ultimately show "\<exists>r' \<in> set (rows (left_join E left right)). r' ''event_time'' = TimeC t' \<and>
           (\<forall>c \<in> set (columns (left_join E left right)). c \<noteq> ''event_time'' \<longrightarrow> r' c = r c)"
    by blast
qed

lemma minute_rows_fold_left_join:
  assumes "minute_rows left"
    and "''hospitalization_id'' \<in> set (columns left)" "''event_time'' \<in> set (columns left)"
      "''combo_id'' \<in> set (columns left)"
  shows "minute_rows (fold (\<lambda>right left. left_join E left right) rights left)"
  using assms
proof (induction rights arbitrary: left)
  case Nil
  then show ?case by simp
next
  case (Cons right rights)
  have "minute_rows (left_join E left right)"
    by (rule minute_rows_left_join[OF Cons.prems])
  moreover from Cons.prems(2-4) columns_left_join[of left E right]
  have "''hospitalization_id'' \<in> set (columns (left_join E left right))"
    "''event_time'' \<in> set (columns (left_join E left right))"
    "''combo_id'' \<in> set (columns (left_join E left right))" by auto
  ultimately show ?case using Cons.IH by simp
qed

lemma minute_rows_drop_duplicates:
  assumes mr: "minute_rows df" and et: "''event_time'' \<in> set (columns df)"
  shows "minute_rows (drop_duplicates df)"
  unfolding minute_rows_def
proof (intro ballI allI impI)
  fix r x t t'
  assume r: "r \<in> set (rows (drop_duplicates df))"
    and x: "x \<in> set (rows (drop_duplicates df))"
    and h: "r ''event_time'' = TimeC t \<and> x ''event_time'' = TimeC t' \<and>
            x ''hospitalization_id'' = r ''hospitalization_id'' \<and> t div 60 = t' div 60"
  from r x have "r \<in> set (rows df)" "x \<in> set (rows df)"
    by (auto simp: drop_duplicates_def dest: distinct_on_sound)
  with mr h obtain r0 where r0: "r0 \<in> set (rows df)" "r0 ''event_time'' = TimeC t'"
    "\<forall>c \<in> set (columns df). c \<noteq> ''event_time'' \<longrightarrow> r0 c = r c"
    unfolding minute_rows_def by blast
  from distinct_on_complete[OF r0(1), of "columns df" "[]"] obtain r' where
    r': "r' \<in> set (distinct_on (columns df) [] (rows df))" "map r' (columns df) = map r0 (columns df)"
    by auto
  from r'(2) have eq: "\<forall>c \<in> set (columns df). r' c = r0 c" by simp
  from eq et r0(2) have "r' ''event_time'' = TimeC t'" by simp
  moreover from eq r0(3) have "\<forall>c \<in> set (columns df). c \<noteq> ''event_time'' \<longrightarrow> r' c = r c"
    by simp
  ultimately show "\<exists>r' \<in> set (rows (drop_duplicates df)). r' ''event_time'' = TimeC t' \<and>
           (\<forall>c \<in> set (columns (drop_duplicates df)). c \<noteq> ''event_time'' \<longrightarrow> r' c = r c)"
    using r'(1) by (auto simp: drop_duplicates_def)
qed

text \<open>A step that rewrites each row by itself, leaving the two key columns alone and
  treating rows of one hospitalization and minute alike.\<close>

lemma minute_rows_map:
  assumes mr: "minute_rows df"
    and rows: "set (rows out) = g ` set (rows df)"
    and key: "\<And>r. g r ''event_time'' = r ''event_time''"
      "\<And>r. g r ''hospitalization_id'' = r ''hospitalization_id''"
    and hid: "''hospitalization_id'' \<in> set (columns df)"
    and alike: "\<And>r r' t t' c. \<lbrakk>r \<in> set (rows df); r' \<in> set (rows df);
        r' ''hospitalization_id'' = r ''hospitalization_id'';
        r ''event_time'' = TimeC t; r' ''event_time'' = TimeC t'; t div 60 = t' div 60;
        \<forall>c \<in> set (columns df). c \<noteq> ''event_time'' \<longrightarrow> r' c = r c;
        c \<in> set (columns out); c \<noteq> ''event_time''\<rbrakk> \<Longrightarrow> g r' c = g r c"
  shows "minute_rows out"
  unfolding minute_rows_def
proof (intro ballI allI impI)
  fix r x t t'
  assume r: "r \<in> set (rows out)" and x: "x \<in> set (rows out)"
    and h: "r ''event_time'' = TimeC t \<and> x ''event_time'' = TimeC t' \<and>
            x ''hospitalization_id'' = r ''hospitalization_id'' \<and> t div 60 = t' div 60"
  from r rows obtain r0 where r0: "r0 \<in> set (rows df)" "r = g r0" by auto
  from x rows obtain x0 where x0: "x0 \<in> set (rows df)" "x = g x0" by auto
  from h r0(2) x0(2) key have h0: "r0 ''event_time'' = TimeC t" "x0 ''event_time'' = TimeC t'"
    "x0 ''hospitalization_id'' = r0 ''hospitalization_id''" "t div 60 = t' div 60"
    by simp_all
  with mr r0(1) x0(1) obtain r1 where r1: "r1 \<in> set (rows df)" "r1 ''event_time'' = TimeC t'"
    "\<forall>c \<in> set (columns df). c \<noteq> ''event_time'' \<longrightarrow> r1 c = r0 c"
    unfolding minute_rows_def by blast
  from r1(3) hid have r1h: "r1 ''hospitalization_id'' = r0 ''hospitalization_id''" by simp
  have "g r1 \<in> set (rows out)" using r1(1) rows by blast
  moreover have "g r1 ''event_time'' = TimeC t'" using r1(2) key(1) by simp
  moreover have "\<forall>c \<in> set (columns out). c \<noteq> ''event_time'' \<longrightarrow> g r1 c = r c"
    unfolding r0(2) using alike[OF r0(1) r1(1) r1h h0(1) r1(2) h0(4) r1(3)] by blast
  ultimately show "\<exists>r' \<in> set (rows out). r' ''event_time'' = TimeC t' \<and>
           (\<forall>c \<in> set (columns out). c \<noteq> ''event_time'' \<longrightarrow> r' c = r c)"
    by blast
qed

lemma those_map_the:
  "those (map f xs) = Some ys \<Longrightarrow> ys = map (\<lambda>x. the (f x)) xs"
  by (induction xs arbitrary: ys) (auto split: option.splits)

lemma dense_rank_cong:
  assumes "r' ''hospitalization_id'' = r ''hospitalization_id''"
    and "r ''event_time'' = TimeC t" "r' ''event_time'' = TimeC t'"
    and "t div 86400 = t' div 86400"
  shows "dense_rank S r' = dense_rank S r"
proof -
  define F where "F = (\<lambda>h (d :: int).
      Some (int (length (remdups
            [t' div 86400. r' \<leftarrow> S, id_of (r' ''hospitalization_id'') = Some h,
                           t' \<leftarrow> (case ts_of (r' ''event_time'') of Some x \<Rightarrow> [x] | None \<Rightarrow> []),
                           t' div 86400 \<le> d]))))"
  have form: "dense_rank S x =
      (case (id_of (x ''hospitalization_id''), ts_of (x ''event_time'')) of
         (Some h, Some t) \<Rightarrow> F h (t div 86400) | _ \<Rightarrow> None)" for x :: "'a row"
    unfolding dense_rank_def F_def ..
  show ?thesis
    unfolding form assms(1) assms(2) assms(3)
    by (cases "id_of (r ''hospitalization_id'')") (simp_all add: ts_of_def assms(4))
qed

lemma minute_rows_day_numbering:
  assumes d: "day_numbering P df = Inr out" and mr: "minute_rows df"
    and hid: "''hospitalization_id'' \<in> set (columns df)"
  shows "minute_rows out"
proof -
  let ?S = "sort_key event_sort_key (rows df)"
  from d obtain ranks where ranks: "those (map (dense_rank ?S) ?S) = Some ranks"
    by (auto simp: day_numbering_def Let_def split: option.splits)
  define g where "g = (\<lambda>r :: 'a row.
      r(''date'' := (case ts_of (r ''event_time'') of
                      Some t \<Rightarrow> TimeC (86400 * (t div 86400)) | None \<Rightarrow> NaN),
        ''day_number'' := IntC (the (dense_rank ?S r)),
        ''hosp_id_day_key'' := StrC (py_str P (r ''hospitalization_id'') @ ''_day_'' @
                                     py_str P (IntC (the (dense_rank ?S r))))))"
  have z: "zip ?S ranks = map (\<lambda>r. (r, the (dense_rank ?S r))) ?S"
    unfolding those_map_the[OF ranks] by (simp add: zip_map2 zip_same_conv_map)
  from d ranks have out: "columns out = add_col ''hosp_id_day_key'' (add_col ''day_number''
                         (add_col ''date'' (columns df)))"
    "rows out = map g ?S"
    by (auto simp: day_numbering_def Let_def z g_def comp_def)
  show ?thesis
  proof (rule minute_rows_map[OF mr _ _ _ hid, where g = g])
    show "set (rows out) = g ` set (rows df)" by (simp add: out(2))
    show "g r ''event_time'' = r ''event_time''" for r by (simp add: g_def)
    show "g r ''hospitalization_id'' = r ''hospitalization_id''" for r by (simp add: g_def)
  next
    fix r r' :: "'a row" and t t' :: int and c
    assume h: "r' ''hospitalization_id'' = r ''hospitalization_id''"
      and rt: "r ''event_time'' = TimeC t" and rt': "r' ''event_time'' = TimeC t'"
      and m: "t div 60 = t' div 60"
      and same: "\<forall>c \<in> set (columns df). c \<noteq> ''event_time'' \<longrightarrow> r' c = r c"
      and c: "c \<in> set (columns out)" "c \<noteq> ''event_time''"
    from m have day: "t div 86400 = t' div 86400" by (rule same_day)
    have rank: "dense_rank ?S r' = dense_rank ?S r"
      by (rule dense_rank_cong[OF h rt rt' day])
    show "g r' c = g r c"
    proof (cases "c \<in> {''date'', ''day_number'', ''hosp_id_day_key''}")
      case True
      then show ?thesis
        by (auto simp: g_def rank h rt rt' ts_of_def day)
    next
      case False
      with c(1) have "c \<in> set (columns df)"
        by (auto simp: out(1) add_col_def split: if_splits)
      with same c(2) have "r' c = r c" by simp
      with False show ?thesis by (simp add: g_def)
    qed
  qed
qed

lemma minute_rows_add_missing_columns:
  assumes mr: "minute_rows df" and hid: "''hospitalization_id'' \<in> set (columns df)"
    and et: "''event_time'' \<in> set (columns df)"
  shows "minute_rows (add_missing_columns df cf ot)"
proof (cases cf)
  case None
  with mr show ?thesis by (simp add: add_missing_columns_def)
next
  case (Some f)
  let ?ots = "optional_list ot"
  let ?out = "add_missing_filters f ?ots df"
  define g where "g = (\<lambda>(r :: 'a row) c.
      if c \<in> requested f ?ots \<and> c \<notin> set (columns df) then NaN else r c)"
  from add_missing_filters_columns[of f ?ots df] obtain new where
    new: "columns ?out = columns df @ new" "set new = requested f ?ots - set (columns df)"
    by blast
  have "minute_rows ?out"
  proof (rule minute_rows_map[OF mr _ _ _ hid, where g = g])
    show "set (rows ?out) = g ` set (rows df)"
      by (simp add: add_missing_filters_rows g_def)
    show "g r ''event_time'' = r ''event_time''" for r using et by (simp add: g_def)
    show "g r ''hospitalization_id'' = r ''hospitalization_id''" for r
      using hid by (simp add: g_def)
  next
    fix r r' :: "'a row" and t t' :: int and c
    assume same: "\<forall>c \<in> set (columns df). c \<noteq> ''event_time'' \<longrightarrow> r' c = r c"
      and c: "c \<in> set (columns ?out)" "c \<noteq> ''event_time''"
    show "g r' c = g r c"
    proof (cases "c \<in> set (columns df)")
      case True
      with same c(2) show ?thesis by (simp add: g_def)
    next
      case False
      with c(1) new have "c \<in> requested f ?ots" by auto
      with False show ?thesis by (simp add: g_def)
    qed
  qed
  with Some show ?thesis by (simp add: add_missing_columns_def)
qed

lemma minute_rows_drop_columns:
  assumes mr: "minute_rows df" and hid: "''hospitalization_id'' \<in> set (columns df)"
    and cs: "''hospitalization_id'' \<notin> set cs" "''event_time'' \<notin> set cs"
  shows "minute_rows (drop_columns cs df)"
proof -
  define g where "g = (\<lambda>(r :: 'a row) c. if c \<in> set cs then NaN else r c)"
  show ?thesis
  proof (rule minute_rows_map[OF mr _ _ _ hid, where g = g])
    show "set (rows (drop_columns cs df)) = g ` set (rows df)"
      by (simp add: drop_columns_def g_def)
    show "g r ''event_time'' = r ''event_time''" for r using cs by (simp add: g_def)
    show "g r ''hospitalization_id'' = r ''hospitalization_id''" for r
      using cs by (simp add: g_def)
  next
    fix r r' :: "'a row" and t t' :: int and c
    assume same: "\<forall>c \<in> set (columns df). c \<noteq> ''event_time'' \<longrightarrow> r' c = r c"
      and c: "c \<in> set (columns (drop_columns cs df))" "c \<noteq> ''event_time''"
    from c(1) have "c \<in> set (columns df)" by (simp add: drop_columns_def)
    with same c(2) show "g r' c = g r c" by (simp add: g_def)
  qed
qed

lemma columns_add_missing_columns:
  "set (columns df) \<subseteq> set (columns (add_missing_columns df cf ot))"
proof (cases cf)
  case None
  then show ?thesis by (simp add: add_missing_columns_def)
next
  case (Some f)
  from add_missing_filters_columns[of f "optional_list ot" df] obtain new where
    "columns (add_missing_filters f (optional_list ot) df) = columns df @ new" by blast
  with Some show ?thesis by (simp add: add_missing_columns_def)
qed

lemma minute_rows_final_df:
  assumes "final_df P E p ots = Inr df"
  shows "minute_rows df"
proof -
  from assms obtain joined where
    j: "join_all E (base_cohort p) (adt_df p) (all_event_times p) (registry p) ots = Inr joined"
    and d: "day_numbering P (drop_duplicates joined) = Inr df"
    by (auto simp: final_df_def split: sum.splits)
  let ?x = "expanded_df (base_cohort p) (all_event_times p)"
  from j have h: "''hospitalization_id'' \<in> set (columns (base_cohort p))"
    by (auto simp: join_all_def Let_def split: if_splits)
  define rights where "rights = with_combo ''in_dttm'' (adt_df p) # map snd (pivoted_tables (registry p)) @
      map (\<lambda>(table_name, timestamp_col, raw). with_combo timestamp_col raw)
        (raw_joins (registry p) ots)"
  from j have joined: "joined = fold (\<lambda>right left. left_join E left right) rights ?x"
    by (simp add: join_all_def Let_def rights_def split: if_splits)
  have xc: "''hospitalization_id'' \<in> set (columns ?x)" "''event_time'' \<in> set (columns ?x)"
    "''combo_id'' \<in> set (columns ?x)"
    using h by (simp_all add: columns_expanded)
  have "minute_rows joined"
    unfolding joined by (rule minute_rows_fold_left_join[OF minute_rows_expanded xc])
  moreover from join_all_D(2)[OF j] xc have jc: "''hospitalization_id'' \<in> set (columns joined)"
    "''event_time'' \<in> set (columns joined)" by auto
  ultimately have "minute_rows (drop_duplicates joined)"
    by (intro minute_rows_drop_duplicates)
  then show ?thesis
    by (rule minute_rows_day_numbering[OF d]) (simp add: columns_drop_duplicates jc(1))
qed

subsection \<open>The join key\<close>

text \<open>The join key of a row is its id and the minute of its event time, in every frame
  from the expansion to the day numbering.\<close>

lemma combo_id_null: "combo_id h NaN = NaN"
  by (simp add: combo_id_def ts_of_def split: option.splits)

lemma combo_id_expanded:
  assumes "r \<in> set (rows (expanded_df cohort events))"
  shows "r ''combo_id'' = combo_id (r ''hospitalization_id'') (r ''event_time'')"
proof -
  from assms have "r \<in> set (concat (map (expand_row events) (rows cohort)))"
    unfolding expanded_rows by (rule distinct_on_sound)
  then obtain a where "r \<in> set (expand_row events a)" by auto
  then show ?thesis
    by (cases "events_for events a") (auto simp: expand_row_def combo_id_null)
qed

lemma combo_id_fold_left_join:
  assumes "\<forall>r \<in> set (rows left).
             r ''combo_id'' = combo_id (r ''hospitalization_id'') (r ''event_time'')"
    and "''hospitalization_id'' \<in> set (columns left)" "''event_time'' \<in> set (columns left)"
      "''combo_id'' \<in> set (columns left)"
  shows "\<forall>r \<in> set (rows (fold (\<lambda>right left. left_join E left right) rights left)).
           r ''combo_id'' = combo_id (r ''hospitalization_id'') (r ''event_time'')"
  using assms
proof (induction rights arbitrary: left)
  case Nil
  then show ?case by simp
next
  case (Cons right rights)
  have "\<forall>r \<in> set (rows (left_join E left right)).
          r ''combo_id'' = combo_id (r ''hospitalization_id'') (r ''event_time'')"
  proof
    fix r assume "r \<in> set (rows (left_join E left right))"
    from left_join_sound[OF this] obtain l where l: "l \<in> set (rows left)"
      "\<forall>c \<in> set (columns left). r c = l c" by blast
    with Cons.prems show "r ''combo_id'' = combo_id (r ''hospitalization_id'') (r ''event_time'')"
      by simp
  qed
  moreover from Cons.prems(2-4) columns_left_join[of left E right]
  have "''hospitalization_id'' \<in> set (columns (left_join E left right))"
    "''event_time'' \<in> set (columns (left_join E left right))"
    "''combo_id'' \<in> set (columns (left_join E left right))" by auto
  ultimately show ?case using Cons.IH by simp
qed

lemma combo_id_of_final_row:
  assumes "final_df P E p ots = Inr df" and "r \<in> set (rows df)"
  shows "r ''combo_id'' = combo_id (r ''hospitalization_id'') (r ''event_time'')"
proof -
  from assms(1) obtain joined where
    j: "join_all E (base_cohort p) (adt_df p) (all_event_times p) (registry p) ots = Inr joined"
    and d: "day_numbering P (drop_duplicates joined) = Inr df"
    by (auto simp: final_df_def split: sum.splits)
  let ?x = "expanded_df (base_cohort p) (all_event_times p)"
  from j have h: "''hospitalization_id'' \<in> set (columns (base_cohort p))"
    by (auto simp: join_all_def Let_def split: if_splits)
  define rights where "rights = with_combo ''in_dttm'' (adt_df p) # map snd (pivoted_tables (registry p)) @
      map (\<lambda>(table_name, timestamp_col, raw). with_combo timestamp_col raw)
        (raw_joins (registry p) ots)"
  from j have joined: "joined = fold (\<lambda>right left. left_join E left right) rights ?x"
    by (simp add: join_all_def Let_def rights_def split: if_splits)
  have xc: "''hospitalization_id'' \<in> set (columns ?x)" "''event_time'' \<in> set (columns ?x)"
    "''combo_id'' \<in> set (columns ?x)"
    using h by (simp_all add: columns_expanded)
  have J: "\<forall>r \<in> set (rows joined).
      r ''combo_id'' = combo_id (r ''hospitalization_id'') (r ''event_time'')"
    unfolding joined
    by (rule combo_id_fold_left_join[OF _ xc]) (simp add: combo_id_expanded)
  let ?S = "sort_key event_sort_key (rows (drop_duplicates joined))"
  from d obtain ranks where ranks: "those (map (dense_rank ?S) ?S) = Some ranks"
    by (auto simp: day_numbering_def Let_def split: option.splits)
  from d ranks assms(2) obtain r0 n where r0: "(r0, n) \<in> set (zip ?S ranks)"
    "r = r0(''date'' := (case ts_of (r0 ''event_time'') of
                          Some t \<Rightarrow> TimeC (86400 * (t div 86400)) | None \<Rightarrow> NaN),
            ''day_number'' := IntC n,
            ''hosp_id_day_key'' := StrC (py_str P (r0 ''hospitalization_id'') @ ''_day_'' @
                                         py_str P (IntC n)))"
    by (auto simp: day_numbering_def Let_def)
  from r0(1) have "r0 \<in> set ?S" by (rule set_zip_leftD)
  then have "r0 \<in> set (rows joined)"
    by (auto simp: drop_duplicates_def dest: distinct_on_sound)
  with J have "r0 ''combo_id'' = combo_id (r0 ''hospitalization_id'') (r0 ''event_time'')"
    by blast
  then show ?thesis by (simp add: r0(2))
qed

subsection \<open>The rows of the wide table\<close>

lemma wide_rows_of_cohort:
  assumes prep: "prepare E clif_instance optional_tables category_filters hospitalization_ids = Inr p"
    and q: "all_queries p \<noteq> []"
    and res: "create_wide_dataset P E clif_instance optional_tables category_filters
                hospitalization_ids = Inr out"
  obtains df where "final_df P E p (optional_list optional_tables) = Inr df"
    "out = drop_columns [''combo_id'', ''date'']
             (add_missing_columns df category_filters optional_tables)"
    "proj event_key out = set (cohort_events p)"
proof -
  from prep q res obtain df where
    fin: "final_df P E p (optional_list optional_tables) = Inr df"
    and out: "out = drop_columns [''combo_id'', ''date'']
                      (add_missing_columns df category_filters optional_tables)"
    by (auto simp: create_wide_dataset_def split: sum.splits)
  have "proj event_key out = proj event_key (add_missing_columns df category_filters optional_tables)"
    unfolding out by (rule proj_drop_columns) (simp add: event_key_def)
  also have "\<dots> = proj event_key df"
    by (rule proj_add_missing_columns[OF final_df_D(3)[OF fin]])
  also have "\<dots> = (\<lambda>r. map r event_key) `
             set (concat (map (expand_row (all_event_times p)) (rows (base_cohort p))))"
    by (rule final_df_D(4)[OF fin])
  also have "\<dots> = (\<Union>a \<in> set (rows (base_cohort p)).
                     (\<lambda>r. map r event_key) ` set (expand_row (all_event_times p) a))"
    by auto
  also have "\<dots> = (\<Union>a \<in> set (rows (base_cohort p)).
                     (\<lambda>e. [a ''hospitalization_id'', e]) ` set (events_for (all_event_times p) a))"
    using final_df_D(5)[OF fin] by (simp add: expand_row_proj)
  also have "\<dots> = set (cohort_events p)"
    by (auto simp: cohort_events_def)
  finally have "proj event_key out = set (cohort_events p)" .
  with fin out show thesis by (rule that)
qed

text \<open>
  C1, as the code has it. The call returns and at least one source contributes an
  event-time query. The wide rows, seen through \<open>hospitalization_id\<close> and \<open>event_time\<close>,
  are the pairs of a hospitalization of the cohort that has a patient row and one of its
  non-null timestamps, not truncated, taken across \<open>in_dttm\<close> of the location transfers
  and the timestamp columns of the optional tables: at least one wide row for each
  distinct event time and none at any other time. Timestamps of one hospitalization that
  agree to the minute and differ in seconds stay on rows of their own; only the join key
  \<open>combo_id\<close> is cut to the minute (lemmas \<open>combo_id_of_final_row\<close> and
  \<open>combo_id_cong\<close>), so such rows carry the same values: for each wide row at one of the
  times there is a wide row at the other that agrees with it in every column but
  \<open>event_time\<close> (\<open>minute_rows\<close>).
\<close>

theorem wide_rows_per_event_time:
  assumes res: "create_wide_dataset P E clif_instance optional_tables category_filters
                  hospitalization_ids = Inr out"
    and src: "event_sources clif_instance (optional_list optional_tables) \<noteq> []"
  shows "proj event_key out =
           set (wide_keys clif_instance (optional_list optional_tables) hospitalization_ids) \<and>
         minute_rows out"
proof -
  from res obtain p where
    prep: "prepare E clif_instance optional_tables category_filters hospitalization_ids = Inr p"
    by (auto simp: create_wide_dataset_def split: sum.splits)
  from src have q: "all_queries p \<noteq> []" by (simp add: all_queries_sources[OF prep])
  from prep q res obtain df where
    fin: "final_df P E p (optional_list optional_tables) = Inr df"
    and out: "out = drop_columns [''combo_id'', ''date'']
                      (add_missing_columns df category_filters optional_tables)"
    and keys: "proj event_key out = set (cohort_events p)"
    by (rule wide_rows_of_cohort)
  from fin have c: "''hospitalization_id'' \<in> set (columns (base_cohort p))"
    by (auto simp: final_df_def join_all_def Let_def split: sum.splits if_splits)
  have A: "proj event_key out =
      set (wide_keys clif_instance (optional_list optional_tables) hospitalization_ids)"
    unfolding keys by (rule cohort_events_keys[OF prep c])
  from final_df_D(3)[OF fin] have dc: "''hospitalization_id'' \<in> set (columns df)"
    "''event_time'' \<in> set (columns df)" by (simp_all add: event_key_def)
  have "minute_rows (add_missing_columns df category_filters optional_tables)"
    by (rule minute_rows_add_missing_columns[OF minute_rows_final_df[OF fin] dc])
  moreover from dc(1) columns_add_missing_columns[of df category_filters optional_tables]
  have "''hospitalization_id'' \<in>
      set (columns (add_missing_columns df category_filters optional_tables))" by blast
  ultimately have B: "minute_rows out"
    unfolding out by (rule minute_rows_drop_columns) simp_all
  from A B show ?thesis ..
qed

lemma four_rows:
  "length xs = 4 \<Longrightarrow> hd (tl xs) \<in> set xs \<and> hd (tl (tl xs)) \<in> set xs"
  by (auto simp: numeral_eq_Suc length_Suc_conv)

theorem wide_rows_per_event_time_witness:
  "proj event_key (projr (create_wide_dataset test_pandas test_engine s2_clif
                            (Some [''vitals'']) None None)) =
     {[StrC ''H1'', TimeC 1704099600], [StrC ''H1'', TimeC 1704103200],
      [StrC ''H1'', TimeC 1704103245], [StrC ''H2'', TimeC 1704099600]} \<and>
   (\<exists>r' \<in> set (rows (projr (create_wide_dataset test_pandas test_engine s2_clif
                               (Some [''vitals'']) None None))).
      r' ''event_time'' = TimeC 1704103245 \<and>
      (\<forall>c \<in> set (columns (projr (create_wide_dataset test_pandas test_engine s2_clif
                                    (Some [''vitals'']) None None))).
         c \<noteq> ''event_time'' \<longrightarrow>
         r' c = hd (tl (rows (projr (create_wide_dataset test_pandas test_engine s2_clif
                                       (Some [''vitals'']) None None)))) c))"
proof -
  let ?X = "create_wide_dataset test_pandas test_engine s2_clif (Some [''vitals'']) None None"
  let ?r = "hd (tl (rows (projr ?X)))"
  let ?x = "hd (tl (tl (rows (projr ?X))))"
  have okX: "\<not> isl ?X" by code_simp
  have src: "event_sources s2_clif (optional_list (Some [''vitals''])) \<noteq> []" by code_simp
  have keys: "wide_keys s2_clif (optional_list (Some [''vitals''])) None =
      [[StrC ''H1'', TimeC 1704099600], [StrC ''H1'', TimeC 1704103200],
       [StrC ''H1'', TimeC 1704103245], [StrC ''H2'', TimeC 1704099600]]" by code_simp
  have len: "length (rows (projr ?X)) = 4" by code_simp
  have rx: "?r ''event_time'' = TimeC 1704103200 \<and> ?x ''event_time'' = TimeC 1704103245 \<and>
            ?x ''hospitalization_id'' = ?r ''hospitalization_id'' \<and>
            (1704103200 :: int) div 60 = 1704103245 div 60" by code_simp
  note inst = wide_rows_per_event_time[OF Inr_projr[OF okX] src]
  from inst have A: "proj event_key (projr ?X) =
     {[StrC ''H1'', TimeC 1704099600], [StrC ''H1'', TimeC 1704103200],
      [StrC ''H1'', TimeC 1704103245], [StrC ''H2'', TimeC 1704099600]}"
    unfolding keys by simp
  from inst have "minute_rows (projr ?X)" ..
  from this[unfolded minute_rows_def, rule_format, OF conjunct1[OF four_rows[OF len]]
      conjunct2[OF four_rows[OF len]] rx]
  have B: "\<exists>r' \<in> set (rows (projr ?X)). r' ''event_time'' = TimeC 1704103245 \<and>
      (\<forall>c \<in> set (columns (projr ?X)). c \<noteq> ''event_time'' \<longrightarrow> r' c = ?r c)" .
  from A B show ?thesis ..
qed

theorem wide_rows_per_event_time_counterexample:
  "result_column ''hospitalization_id''
     (create_wide_dataset test_pandas test_engine s2_clif (Some [''vitals'']) None None) =
     [StrC ''H1'', StrC ''H1'', StrC ''H1'', StrC ''H2''] \<and>
   result_column ''event_time''
     (create_wide_dataset test_pandas test_engine s2_clif (Some [''vitals'']) None None) =
     [TimeC 1704099600, TimeC 1704103200, TimeC 1704103245, TimeC 1704099600] \<and>
   result_column ''heart_rate''
     (create_wide_dataset test_pandas test_engine s2_clif (Some [''vitals'']) None None) =
     [NaN, IntC 80, IntC 80, NaN] \<and>
   result_column ''sbp''
     (create_wide_dataset test_pandas test_engine s2_clif (Some [''vitals'']) None None) =
     [NaN, IntC 120, IntC 120, NaN] \<and>
   map strftime_minute [1704099600, 1704103200, 1704103245] =
     [''202401010900'', ''202401011000'', ''202401011000'']"
  by code_simp

end
